theory Spec2Isabelle
  imports Main "HOL-Library.Word" "HOL-Library.Multiset"
begin

unbundle bit_operations_syntax

chapter \<open>SoLoad: an in-process loader for AArch64 ELF shared objects\<close>

text \<open>
  A shallow embedding of the parts of the loader that its specification makes
  checkable statements about: the LEB128 reader (\<^verbatim>\<open>include/sleb128.hpp\<close>), the
  symbol lookups of an image (\<^verbatim>\<open>src/elf_image.cpp\<close>), the TLS manager
  (\<^verbatim>\<open>src/tls.cpp\<close>) and the linker (\<^verbatim>\<open>src/linker.cpp\<close>).

  Conventions. \<^verbatim>\<open>uint8_t\<close>, \<^verbatim>\<open>uint32_t\<close> and the 64-bit types
  (\<^verbatim>\<open>size_t\<close>, \<^verbatim>\<open>ElfAddr\<close>, \<^verbatim>\<open>uintptr_t\<close>, pointers) are words of that width, so
  \<open>+\<close>, \<open>-\<close> and \<open>*\<close> wrap as the machine's do; the null pointer is the word \<open>0\<close>.
\<close>

type_synonym byte = "8 word"
type_synonym u32 = "32 word"
type_synonym u64 = "64 word"
type_synonym addr = "64 word"

section \<open>The variable-length integer reader (\<^verbatim>\<open>Sleb128Decoder\<close>)\<close>

text \<open>
  The decoder holds two pointers, \<^verbatim>\<open>current_\<close> and \<^verbatim>\<open>end_\<close>. Its state is modelled by
  the bytes between them: \<^verbatim>\<open>current_ >= end_\<close> is the empty list, \<^verbatim>\<open>*current_++\<close> takes
  the head. Each operation returns the decoded value with the bytes that remain.

  \<^verbatim>\<open>decode\<close> is a \<^verbatim>\<open>do ... while (byte & 0x80)\<close> loop over \<^verbatim>\<open>value\<close> and \<^verbatim>\<open>shift\<close>;
  \<open>decode_loop\<close> is one entry into the loop body. \<^verbatim>\<open>value\<close> is an \<^verbatim>\<open>int64_t\<close>, read
  here as its 64-bit pattern, and \<^verbatim>\<open>shift\<close> is a \<^verbatim>\<open>size_t\<close>. From the eleventh byte of
  one value on, the shift count is 64 or more, which C++ leaves undefined; the AArch64
  shift instruction takes the count modulo 64, and that is what the model does. Where a
  shift or the negation of \<^verbatim>\<open>1 << 63\<close> leaves the range of \<^verbatim>\<open>int64_t\<close>, the model keeps the
  low 64 bits, as the machine does.
\<close>

fun decode_loop :: "byte list \<Rightarrow> u64 \<Rightarrow> u64 \<Rightarrow> u64 \<times> byte list" where
  "decode_loop [] v shift = (0, [])"
| "decode_loop (b # rest) v shift =
     (let v' = v OR push_bit (unat (shift mod 64)) (ucast (b AND 0x7F));
          shift' = shift + 7
      in if b AND 0x80 \<noteq> 0 then decode_loop rest v' shift'
         else (if shift' < 64 \<and> b AND 0x40 \<noteq> 0 then v' OR - push_bit (unat shift') 1 else v',
               rest))"

definition decode :: "byte list \<Rightarrow> u64 \<times> byte list" where
  "decode bs = decode_loop bs 0 0"

fun decodeUnsigned_loop :: "byte list \<Rightarrow> u64 \<Rightarrow> u64 \<Rightarrow> u64 \<times> byte list" where
  "decodeUnsigned_loop [] v shift = (0, [])"
| "decodeUnsigned_loop (b # rest) v shift =
     (let v' = v OR push_bit (unat (shift mod 64)) (ucast (b AND 0x7F));
          shift' = shift + 7
      in if b AND 0x80 \<noteq> 0 then decodeUnsigned_loop rest v' shift'
         else (v', rest))"

definition decodeUnsigned :: "byte list \<Rightarrow> u64 \<times> byte list" where
  "decodeUnsigned bs = decodeUnsigned_loop bs 0 0"

text \<open>
  What the specification says the value is: the low seven bits of each byte, the
  first byte lowest (little-endian), byte \<open>i\<close> at bit position \<open>7 * i\<close>.
  \<open>leb_groups bs sh\<close> places the groups of \<open>bs\<close> from bit \<open>sh\<close> upwards.
\<close>

fun leb_groups :: "byte list \<Rightarrow> nat \<Rightarrow> u64" where
  "leb_groups [] sh = 0"
| "leb_groups (b # bs) sh = push_bit sh (ucast (b AND 0x7F)) OR leb_groups bs (sh + 7)"


section \<open>ELF records (\<^verbatim>\<open>elf.h\<close>, as \<^verbatim>\<open>include/elf_image.hpp\<close> names them)\<close>

record ElfSym =
  st_name :: u32
  st_info :: byte
  st_other :: byte
  st_shndx :: "16 word"
  st_value :: u64
  st_size :: u64

record ElfPhdr =
  p_type :: u32
  p_flags :: u32
  p_offset :: u64
  p_vaddr :: u64
  p_paddr :: u64
  p_filesz :: u64
  p_memsz :: u64
  p_align :: u64

text \<open>\<^verbatim>\<open>Elf64_Rel\<close> and \<^verbatim>\<open>Elf64_Rela\<close>: the second has the fields of the first and the addend.\<close>

record ElfRel =
  r_offset :: u64
  r_info :: u64

record ElfRela = ElfRel +
  r_addend :: u64

definition ELF_R_SYM :: "u64 \<Rightarrow> u32" where
  "ELF_R_SYM info = ucast (drop_bit 32 info)"

definition ELF_R_TYPE :: "u64 \<Rightarrow> u32" where
  "ELF_R_TYPE info = ucast (info AND 0xffffffff)"

section \<open>The TLS manager (\<^verbatim>\<open>src/tls.cpp\<close>, \<^verbatim>\<open>include/tls.hpp\<close>)\<close>

definition MAX_TLS_MODULES :: nat where
  "MAX_TLS_MODULES = 128"

record TlsModule =
  module_id :: u64
  align :: u64
  memsz :: u64
  filesz :: u64
  offset :: u64
  init_image :: addr
  owner :: addr

text \<open>The value-initialised module \<^verbatim>\<open>TlsModule{}\<close>, from the member initialisers.\<close>

definition TlsModule_empty :: TlsModule where
  "TlsModule_empty =
     \<lparr>module_id = 0, align = 1, memsz = 0, filesz = 0, offset = 0, init_image = 0, owner = 0\<rparr>"

record TlsIndex =
  ti_module :: u64
  ti_offset :: u64

text \<open>
  \<^verbatim>\<open>modules_\<close> is an array of \<open>MAX_TLS_MODULES\<close> slots, modelled as a function of the
  slot number; the code reads and writes slots below \<open>MAX_TLS_MODULES\<close> only.
\<close>

record TlsManager =
  modules :: "nat \<Rightarrow> TlsModule"
  generation :: u64
  static_size :: u64
  static_align_max :: u64

definition TlsManager_init :: TlsManager where
  "TlsManager_init =
     \<lparr>modules = (\<lambda>i. TlsModule_empty), generation = 0, static_size = 0,
      static_align_max = 1\<rparr>"

text \<open>
  What \<^verbatim>\<open>registerSegment\<close> and \<^verbatim>\<open>unregisterSegment\<close> use of an image: its address
  (the \<^verbatim>\<open>ElfImage*\<close> itself, the module's \<^verbatim>\<open>owner\<close>), \<^verbatim>\<open>tlsSegment()\<close>, \<^verbatim>\<open>base()\<close>,
  \<^verbatim>\<open>bias()\<close>, and the module id that \<^verbatim>\<open>setTlsModuleId\<close> stores in it.
\<close>

record TlsImage =
  self :: addr
  base :: addr
  bias :: u64
  tls_segment :: "ElfPhdr option"
  tls_mod_id :: u64

text \<open>The two slot searches \<^verbatim>\<open>for (size_t i = 1; i < MAX_TLS_MODULES; i++) ... break\<close>.\<close>

definition first_slot :: "(TlsModule \<Rightarrow> bool) \<Rightarrow> TlsManager \<Rightarrow> nat option" where
  "first_slot P m = find (\<lambda>i. P (modules m i)) [1..<MAX_TLS_MODULES]"

definition registerSegment :: "TlsManager \<Rightarrow> 'a TlsImage_scheme \<Rightarrow> bool \<times> TlsManager \<times> 'a TlsImage_scheme" where
  "registerSegment m img =
     (case tls_segment img of
        None \<Rightarrow> (True, m, img)
      | Some seg \<Rightarrow>
          (case first_slot (\<lambda>s. module_id s = 0) m of
             None \<Rightarrow> (False, m, img)
           | Some mod_id \<Rightarrow>
               let m_align = (if p_align seg \<noteq> 0 then p_align seg else 1);
                   aligned = (static_size m + m_align - 1) AND NOT (m_align - 1);
                   slot = \<lparr>module_id = of_nat mod_id, align = m_align, memsz = p_memsz seg,
                           filesz = p_filesz seg, offset = aligned,
                           init_image = base img + p_vaddr seg - bias img,
                           owner = self img\<rparr>
               in (True,
                   m\<lparr>modules := (modules m)(mod_id := slot),
                     static_size := aligned + p_memsz seg,
                     static_align_max :=
                       (if static_align_max m < m_align then m_align else static_align_max m)\<rparr>,
                   img\<lparr>tls_mod_id := of_nat mod_id\<rparr>)))"

definition unregisterSegment :: "TlsManager \<Rightarrow> addr \<Rightarrow> TlsManager" where
  "unregisterSegment m img =
     (case first_slot (\<lambda>s. owner s = img) m of
        None \<Rightarrow> m
      | Some i \<Rightarrow> m\<lparr>modules := (modules m)(i := TlsModule_empty)\<rparr>)"

definition bumpGeneration :: "TlsManager \<Rightarrow> TlsManager" where
  "bumpGeneration m = m\<lparr>generation := generation m + 1\<rparr>"

text \<open>
  The host the loader runs in. \<^verbatim>\<open>posix_memalign\<close> is a function of the request
  (alignment, size) giving the block's address, or \<open>0\<close> when it fails; \<^verbatim>\<open>dlsym\<close> is
  \<^verbatim>\<open>dlsym(RTLD_DEFAULT, name)\<close>; \<^verbatim>\<open>call_ifunc\<close> is what the IFUNC resolver at an address
  returns when called with the hardware capabilities; \<open>new_TlsIndex n\<close> is the address
  that the \<open>n\<close>-th \<^verbatim>\<open>new TlsIndex\<close> returns; the last three are the addresses of the
  functions \<^verbatim>\<open>dynamic_tls_resolver\<close>, \<^verbatim>\<open>BacktraceManager::customDlIteratePhdr\<close> and
  \<^verbatim>\<open>BacktraceManager::customDladdr\<close>.
\<close>

record Host =
  page_size :: u64
  posix_memalign :: "u64 \<Rightarrow> u64 \<Rightarrow> addr"
  dlsym :: "string \<Rightarrow> addr"
  call_ifunc :: "addr \<Rightarrow> addr"
  new_TlsIndex :: "nat \<Rightarrow> addr"
  dynamic_tls_resolver_addr :: addr
  customDlIteratePhdr :: addr
  customDladdr :: addr

text \<open>
  A thread's state is the value stored under \<^verbatim>\<open>g_tls_key\<close> for it: the address of its
  TLS block, \<open>0\<close> while it has none. \<^verbatim>\<open>allocateBlock\<close> sizes the block, asks the host
  for it and, when it got one, stores it with \<^verbatim>\<open>pthread_setspecific\<close>. (The copy of the
  initialisation images into the block is not modelled: no block contents are.)
\<close>

definition allocateBlock :: "TlsManager \<Rightarrow> Host \<Rightarrow> addr \<Rightarrow> addr \<times> addr" where
  "allocateBlock m host thread =
     (let align0 = (if static_align_max m \<noteq> 0 then static_align_max m else 8);
          align1 = (if page_size host < align0 then page_size host else align0);
          total0 = static_size m + align1;
          total = (if total0 = 0 then 8 else total0);
          block = posix_memalign host align1 total
      in if block = 0 then (0, thread) else (block, block))"

definition getBlockForThread :: "TlsManager \<Rightarrow> Host \<Rightarrow> addr \<Rightarrow> addr \<times> addr" where
  "getBlockForThread m host thread =
     (if thread = 0 then allocateBlock m host thread else (thread, thread))"

text \<open>
  \<^verbatim>\<open>getAddress(ti)\<close>: the index is \<open>None\<close> for \<^verbatim>\<open>nullptr\<close>. The result is the returned
  pointer with the thread's new state.
\<close>

definition getAddress :: "TlsManager \<Rightarrow> Host \<Rightarrow> addr \<Rightarrow> TlsIndex option \<Rightarrow> addr \<times> addr" where
  "getAddress m host thread ti =
     (let (block, thread') = getBlockForThread m host thread
      in if block = 0 then (0, thread')
         else case ti of
           None \<Rightarrow> (block, thread')
         | Some ti \<Rightarrow>
             let mod_id = ti_module ti
             in if mod_id = 0 \<or> of_nat MAX_TLS_MODULES \<le> mod_id then (0, thread')
                else if module_id (modules m (unat mod_id)) = 0 then (0, thread')
                else let off = offset (modules m (unat mod_id)) + ti_offset ti
                     in if static_size m \<le> off then (0, thread')
                        else (block + off, thread'))"



text \<open>A sequence of registrations and unregistrations, as \<^verbatim>\<open>link\<close> and the teardowns issue them.\<close>

datatype tls_call = Register "unit TlsImage_scheme" | Unregister addr

fun tls_run :: "TlsManager \<Rightarrow> tls_call list \<Rightarrow> TlsManager" where
  "tls_run m [] = m"
| "tls_run m (Register img # cs) = tls_run (fst (snd (registerSegment m img))) cs"
| "tls_run m (Unregister img # cs) = tls_run (unregisterSegment m img) cs"

text \<open>
  A registration fits when neither sum of the offset computation leaves the 64-bit
  range: the rounding \<^verbatim>\<open>static_size_ + m.align - 1\<close> and the new size
  \<^verbatim>\<open>static_size_ + m.memsz\<close>. A registration that changes nothing (no \<^verbatim>\<open>PT_TLS\<close>, or no
  free slot) fits.
\<close>

definition register_fits :: "TlsManager \<Rightarrow> 'a TlsImage_scheme \<Rightarrow> bool" where
  "register_fits m img =
     (case tls_segment img of
        None \<Rightarrow> True
      | Some seg \<Rightarrow>
          (case first_slot (\<lambda>s. module_id s = 0) m of
             None \<Rightarrow> True
           | Some mod_id \<Rightarrow>
               let m_align = (if p_align seg \<noteq> 0 then p_align seg else 1);
                   aligned = (static_size m + m_align - 1) AND NOT (m_align - 1)
               in unat (static_size m) + unat (m_align - 1) < 2 ^ 64 \<and>
                  unat aligned + unat (p_memsz seg) < 2 ^ 64))"

fun tls_run_fits :: "TlsManager \<Rightarrow> tls_call list \<Rightarrow> bool" where
  "tls_run_fits m [] = True"
| "tls_run_fits m (Register img # cs) =
     (register_fits m img \<and> tls_run_fits (fst (snd (registerSegment m img))) cs)"
| "tls_run_fits m (Unregister img # cs) = tls_run_fits (unregisterSegment m img) cs"

section \<open>RELR relocations (\<^verbatim>\<open>Linker::processRelocations\<close>, the \<^verbatim>\<open>relr\<close> block)\<close>

text \<open>
  Memory is a store of bytes by address. An \<^verbatim>\<open>ElfAddr\<close> read through a pointer \<open>a\<close> is
  the eight bytes from \<open>a\<close> on, the lowest first (AArch64 is little-endian), and a
  write through it replaces these eight bytes; addresses wrap at \<open>2\<^sup>6\<^sup>4\<close>. So two
  accesses less than eight bytes apart overlap, as they do in the machine.
\<close>

type_synonym memory = "addr \<Rightarrow> byte"

definition load64 :: "memory \<Rightarrow> addr \<Rightarrow> u64" where
  "load64 mm a =
     ucast (mm a) OR push_bit 8 (ucast (mm (a + 1))) OR push_bit 16 (ucast (mm (a + 2)))
     OR push_bit 24 (ucast (mm (a + 3))) OR push_bit 32 (ucast (mm (a + 4)))
     OR push_bit 40 (ucast (mm (a + 5))) OR push_bit 48 (ucast (mm (a + 6)))
     OR push_bit 56 (ucast (mm (a + 7)))"

definition store64 :: "memory \<Rightarrow> addr \<Rightarrow> u64 \<Rightarrow> memory" where
  "store64 mm a v = (\<lambda>x. if x - a < 8 then ucast (drop_bit (8 * unat (x - a)) v) else mm x)"

text \<open>\<^verbatim>\<open>*target += load_bias\<close> with \<^verbatim>\<open>target = (ElfAddr*)a\<close>.\<close>

definition add_load_bias :: "u64 \<Rightarrow> memory \<Rightarrow> addr \<Rightarrow> memory" where
  "add_load_bias load_bias mm target = store64 mm target (load64 mm target + load_bias)"

text \<open>
  The inner loop
  \<^verbatim>\<open>for (size_t bit = 0; bitmap && bit < 63; bit++, bitmap >>= 1)\<close>
  with its body; \<^verbatim>\<open>sizeof(ElfAddr)\<close> is 8.
\<close>

function relr_bitmap :: "u64 \<Rightarrow> u64 \<Rightarrow> memory \<Rightarrow> u64 \<Rightarrow> nat \<Rightarrow> memory" where
  "relr_bitmap load_bias base_offset mm bitmap bitno =
     (if bitmap \<noteq> 0 \<and> bitno < 63
      then relr_bitmap load_bias base_offset
             (if bitmap AND 1 \<noteq> 0
              then add_load_bias load_bias mm (load_bias + base_offset + of_nat bitno * 8)
              else mm)
             (drop_bit 1 bitmap) (Suc bitno)
      else mm)"
  by pat_completeness auto
termination
  by (relation "measure (\<lambda>(load_bias, base_offset, mm, bitmap, bitno). 63 - bitno)") auto

declare relr_bitmap.simps [simp del]

text \<open>One pass of the outer loop body: the state is the memory and \<^verbatim>\<open>base_offset\<close>.\<close>

definition relr_entry :: "u64 \<Rightarrow> memory \<times> u64 \<Rightarrow> u64 \<Rightarrow> memory \<times> u64" where
  "relr_entry load_bias st entry =
     (let (mm, base_offset) = st
      in if entry AND 1 = 0
         then (add_load_bias load_bias mm (load_bias + entry), entry + 8)
         else (relr_bitmap load_bias base_offset mm (drop_bit 1 entry) 0,
               base_offset + 63 * 8))"

text \<open>
  The outer loop \<^verbatim>\<open>for (size_t i = 0; i < count; i++)\<close> from \<open>i\<close> on, with \<open>n\<close> entries
  to go. The table lies in the memory that the loop writes: \<^verbatim>\<open>relr[i]\<close> is read at
  \<open>tab + 8 * i\<close> from the memory as the entries before it have left it.
\<close>

fun relr_loop :: "u64 \<Rightarrow> addr \<Rightarrow> nat \<Rightarrow> nat \<Rightarrow> memory \<times> u64 \<Rightarrow> memory \<times> u64" where
  "relr_loop load_bias tab i 0 st = st"
| "relr_loop load_bias tab i (Suc n) st =
     relr_loop load_bias tab (Suc i) n
       (relr_entry load_bias st (load64 (fst st) (tab + of_nat i * 8)))"

text \<open>
  The whole block: \<^verbatim>\<open>count = relr_sz / sizeof(ElfAddr)\<close> entries of the table, in
  order, starting from \<^verbatim>\<open>base_offset = 0\<close>. \<open>relr\<close> is the address of the table, \<open>None\<close>
  for a null pointer.
\<close>

definition process_relr :: "u64 \<Rightarrow> addr option \<Rightarrow> u64 \<Rightarrow> memory \<Rightarrow> memory" where
  "process_relr load_bias relr relr_sz mm =
     (case relr of
        None \<Rightarrow> mm
      | Some tab \<Rightarrow>
          if relr_sz = 0 then mm
          else fst (relr_loop load_bias tab 0 (unat (relr_sz div 8)) (mm, 0)))"

section \<open>The ELF image and its symbol lookups (\<^verbatim>\<open>src/elf_image.cpp\<close>)\<close>

definition STB_LOCAL :: byte where "STB_LOCAL = 0"
definition STB_GLOBAL :: byte where "STB_GLOBAL = 1"
definition STB_WEAK :: byte where "STB_WEAK = 2"
definition STT_OBJECT :: byte where "STT_OBJECT = 1"
definition STT_FUNC :: byte where "STT_FUNC = 2"
definition STT_GNU_IFUNC :: byte where "STT_GNU_IFUNC = 10"
definition SHN_UNDEF :: "16 word" where "SHN_UNDEF = 0"
definition STN_UNDEF :: u32 where "STN_UNDEF = 0"

definition elf_st_type :: "byte \<Rightarrow> byte" where
  "elf_st_type info = info AND 0xf"

definition elf_st_bind :: "byte \<Rightarrow> byte" where
  "elf_st_bind info = drop_bit 4 info"

text \<open>
  What the walk over the dynamic section at the head of \<^verbatim>\<open>Linker::processRelocations\<close>
  leaves in its local variables. The tables live in the mapped image; each is the
  function from the index to the entry read there, \<open>None\<close> for a pointer that stayed
  null. The RELR table is the exception: it is kept as its address and read from the
  memory that the relocations write. \<^verbatim>\<open>dynsym\<close> and \<^verbatim>\<open>dynstr\<close> are \<open>dt_symtab\<close> and \<open>dt_strtab\<close> here. \<^verbatim>\<open>jmprel\<close> is a
  \<^verbatim>\<open>void*\<close> that is read as \<^verbatim>\<open>ElfRela*\<close> or as \<^verbatim>\<open>ElfRel*\<close>: it holds both readings.
  \<open>android_relrent\<close> is the value of a \<^verbatim>\<open>DT_ANDROID_RELRENT\<close> entry when there is one.
\<close>

record DynInfo =
  rela :: "(nat \<Rightarrow> ElfRela) option"
  rela_sz :: u64
  rela_ent :: u64
  rel :: "(nat \<Rightarrow> ElfRel) option"
  rel_sz :: u64
  rel_ent :: u64
  relr :: "addr option"
  relr_sz :: u64
  jmprel :: "((nat \<Rightarrow> ElfRela) \<times> (nat \<Rightarrow> ElfRel)) option"
  jmprel_sz :: u64
  pltrel_type :: u64
  dt_symtab :: "(nat \<Rightarrow> ElfSym) option"
  dt_strtab :: "string option"
  android_reloc :: "byte list option"
  android_reloc_sz :: u64
  is_android_rela :: bool
  android_relrent :: "u64 option"

text \<open>
  The fields of \<^verbatim>\<open>ElfImage\<close> that the lookups, the TLS manager and the teardown read. A
  pointer member is an \<open>option\<close>: \<open>None\<close> is the null pointer, \<open>Some\<close> holds what it points
  to. A table (\<^verbatim>\<open>ElfSym*\<close>, \<^verbatim>\<open>uint32_t*\<close>) is the function from the index to the element
  found there; a string table is the bytes from the pointer to the end of the file
  copy. \<^verbatim>\<open>dynsym_sh_size\<close> and \<^verbatim>\<open>dynsym_sh_entsize\<close> are the two fields of
  \<^verbatim>\<open>*dynsym_shdr_\<close> that \<^verbatim>\<open>gnuHashLookup\<close> reads. \<^verbatim>\<open>chain_\<close> is \<open>chain_tab\<close> here.
  \<open>dynamic\<close> is the dynamic section in the mapped image, as the linker reads it; \<open>None\<close>
  when the image has no \<^verbatim>\<open>PT_DYNAMIC\<close>.
\<close>

record ElfImage = TlsImage +
  path :: string
  dynsym_start :: "(nat \<Rightarrow> ElfSym) option"
  dynsym_sh_size :: u64
  dynsym_sh_entsize :: u64
  strtab_start :: "string option"
  nbucket :: u32
  bucket :: "(nat \<Rightarrow> u32) option"
  chain_tab :: "(nat \<Rightarrow> u32) option"
  gnu_nbucket :: u32
  gnu_symndx :: u32
  gnu_bloom_size :: u32
  gnu_shift2 :: u32
  gnu_bloom_filter :: "(nat \<Rightarrow> u64) option"
  gnu_bucket :: "(nat \<Rightarrow> u32) option"
  gnu_chain :: "(nat \<Rightarrow> u32) option"
  symtab_start :: "(nat \<Rightarrow> ElfSym) option"
  symtab_count :: u64
  symtab_strtab :: "string option"
  init_array :: "(nat \<Rightarrow> addr) option"
  init_array_count :: u64
  fini_array :: "(nat \<Rightarrow> addr) option"
  fini_array_count :: u64
  init_func :: addr
  fini_func :: addr
  dynamic :: "DynInfo option"

text \<open>
  The C string at an offset of a string table, as \<^verbatim>\<open>strtab_start_ + sym->st_name\<close> is
  read when it is compared with a \<^verbatim>\<open>string_view\<close>: the bytes up to the first NUL.
\<close>

definition cstr :: "string \<Rightarrow> nat \<Rightarrow> string" where
  "cstr tab off = takeWhile (\<lambda>c. c \<noteq> CHR 0x00) (drop off tab)"

definition elfHash :: "string \<Rightarrow> u32" where
  "elfHash name =
     foldl (\<lambda>h c. let h1 = push_bit 4 h + of_char c;
                      g = h1 AND 0xf0000000;
                      h2 = (if g \<noteq> 0 then h1 XOR drop_bit 24 g else h1)
                  in h2 AND NOT g) 0 name"

definition gnuHash :: "string \<Rightarrow> u32" where
  "gnuHash name = foldl (\<lambda>h c. push_bit 5 h + h + of_char c) 5381 name"

text \<open>A hit of a lookup: \<^verbatim>\<open>st_value\<close>, with what the lookup stores in \<^verbatim>\<open>*type\<close> and \<^verbatim>\<open>*bind\<close>.\<close>

type_synonym hit = "u64 \<times> byte \<times> byte"

definition sym_hit :: "ElfSym \<Rightarrow> hit" where
  "sym_hit sy = (st_value sy, elf_st_type (st_info sy), elf_st_bind (st_info sy))"

text \<open>
  The \<^verbatim>\<open>while (true)\<close> loop of \<^verbatim>\<open>gnuHashLookup\<close>. \<^verbatim>\<open>sym_idx\<close> is a \<^verbatim>\<open>uint32_t\<close> that stays
  below \<^verbatim>\<open>dynsym_count\<close> and at or above \<^verbatim>\<open>gnu_symndx_\<close>, so neither \<^verbatim>\<open>sym_idx++\<close> nor
  \<^verbatim>\<open>sym_idx - gnu_symndx_\<close> wraps: it is a natural number here.
\<close>

function gnu_chain_walk ::
  "(nat \<Rightarrow> u32) \<Rightarrow> (nat \<Rightarrow> ElfSym) \<Rightarrow> string \<Rightarrow> nat \<Rightarrow> nat \<Rightarrow> string \<Rightarrow> u32 \<Rightarrow> nat \<Rightarrow> hit option"
where
  "gnu_chain_walk chn dynsym strtab symndx dynsym_count name hash sym_idx =
     (if dynsym_count \<le> sym_idx then None
      else let chain_val = chn (sym_idx - symndx);
               sy = dynsym sym_idx
           in if drop_bit 1 (chain_val XOR hash) = 0
                 \<and> name = cstr strtab (unat (st_name sy))
                 \<and> st_shndx sy \<noteq> SHN_UNDEF
              then Some (sym_hit sy)
              else if chain_val AND 1 \<noteq> 0 then None
              else gnu_chain_walk chn dynsym strtab symndx dynsym_count name hash (Suc sym_idx))"
  by pat_completeness auto
termination
  by (relation "measure (\<lambda>(chn, dynsym, strtab, symndx, dynsym_count, name, hash, sym_idx).
                          dynsym_count - sym_idx)") auto

declare gnu_chain_walk.simps [simp del]

text \<open>
  \<^verbatim>\<open>BLOOM_BITS\<close> is 64, and the bloom index is computed in \<^verbatim>\<open>size_t\<close>. A zero
  \<^verbatim>\<open>gnu_bloom_size_\<close> (a division by zero) and a \<^verbatim>\<open>gnu_shift2_\<close> of 32 or more are
  undefined in C++. The model does what the AArch64 instructions do: the remainder by
  zero is the dividend (\<open>mod 0\<close> leaves its argument), and the shift of the 32-bit
  \<^verbatim>\<open>hash\<close> takes its count modulo 32.
\<close>

definition gnuHashLookup :: "ElfImage \<Rightarrow> string \<Rightarrow> u32 \<Rightarrow> hit option" where
  "gnuHashLookup img name hash =
     (if gnu_nbucket img = 0 \<or> gnu_bloom_filter img = None \<or> gnu_bucket img = None
         \<or> gnu_chain img = None \<or> dynsym_start img = None \<or> strtab_start img = None
      then None
      else
        let bloom_idx = ((ucast hash :: u64) div 64) mod ucast (gnu_bloom_size img);
            bloom_word = the (gnu_bloom_filter img) (unat bloom_idx);
            mask = push_bit (unat (hash mod 64)) (1 :: u64)
                   OR push_bit (unat (drop_bit (unat (gnu_shift2 img mod 32)) hash mod 64)) 1
        in if bloom_word AND mask \<noteq> mask then None
           else
             let sym_idx = the (gnu_bucket img) (unat (hash mod gnu_nbucket img))
             in if sym_idx < gnu_symndx img then None
                else
                  let dynsym_count = (ucast (dynsym_sh_size img div dynsym_sh_entsize img) :: u32)
                  in gnu_chain_walk (the (gnu_chain img)) (the (dynsym_start img))
                       (the (strtab_start img)) (unat (gnu_symndx img)) (unat dynsym_count)
                       name hash (unat sym_idx))"

text \<open>
  The loop of \<^verbatim>\<open>elfHashLookup\<close>,
  \<^verbatim>\<open>for (n = bucket_[hash % nbucket_]; n != STN_UNDEF; n = chain_[n])\<close>,
  follows the chain for as long as the table says: on a chain that runs into a cycle
  it does not return, which is the value \<open>None\<close> here. \<open>Some None\<close> is the miss
  (\<^verbatim>\<open>std::nullopt\<close>), \<open>Some (Some h)\<close> the hit.
\<close>

partial_function (option) elf_chain_walk ::
  "(nat \<Rightarrow> u32) \<Rightarrow> (nat \<Rightarrow> ElfSym) \<Rightarrow> string \<Rightarrow> string \<Rightarrow> u32 \<Rightarrow> hit option option"
where
  "elf_chain_walk chn dynsym strtab name n =
     (if n = STN_UNDEF then Some None
      else if name = cstr strtab (unat (st_name (dynsym (unat n))))
              \<and> st_shndx (dynsym (unat n)) \<noteq> SHN_UNDEF
           then Some (Some (sym_hit (dynsym (unat n))))
           else elf_chain_walk chn dynsym strtab name (chn (unat n)))"

definition elfHashLookup :: "ElfImage \<Rightarrow> string \<Rightarrow> u32 \<Rightarrow> hit option option" where
  "elfHashLookup img name hash =
     (if nbucket img = 0 \<or> bucket img = None \<or> chain_tab img = None
         \<or> dynsym_start img = None \<or> strtab_start img = None
      then Some None
      else elf_chain_walk (the (chain_tab img)) (the (dynsym_start img)) (the (strtab_start img))
             name (the (bucket img) (unat (hash mod nbucket img))))"

declare elf_chain_walk.simps [code]

text \<open>The test of the linear scan, and the scan: the first entry that passes it.\<close>

definition linear_match :: "string \<Rightarrow> string \<Rightarrow> ElfSym \<Rightarrow> bool" where
  "linear_match strtab name sy =
     ((elf_st_type (st_info sy) = STT_FUNC \<or> elf_st_type (st_info sy) = STT_OBJECT)
      \<and> 0 < st_size sy \<and> st_shndx sy \<noteq> SHN_UNDEF
      \<and> name = cstr strtab (unat (st_name sy)))"

definition linearLookup :: "ElfImage \<Rightarrow> string \<Rightarrow> hit option" where
  "linearLookup img name =
     (if symtab_start img = None \<or> symtab_strtab img = None \<or> symtab_count img = 0
      then None
      else map_option sym_hit
             (find (linear_match (the (symtab_strtab img)) name)
                (map (the (symtab_start img)) [0..<unat (symtab_count img)])))"

text \<open>
  \<^verbatim>\<open>findSymbolOffset\<close>: GNU hash, then ELF hash, then the linear scan; the first hit
  is returned. It does not return when the ELF hash walk does not.
\<close>

definition findSymbolOffset :: "ElfImage \<Rightarrow> string \<Rightarrow> hit option option" where
  "findSymbolOffset img name =
     (case gnuHashLookup img name (gnuHash name) of
        Some h \<Rightarrow> Some (Some h)
      | None \<Rightarrow>
          (case elfHashLookup img name (elfHash name) of
             None \<Rightarrow> None
           | Some (Some h) \<Rightarrow> Some (Some h)
           | Some None \<Rightarrow> Some (linearLookup img name)))"

text \<open>
  \<^verbatim>\<open>findSymbolAddress(name, &bind)\<close>: the address with the binding of the hit. An
  \<^verbatim>\<open>STT_GNU_IFUNC\<close> symbol is resolved by calling it, which is the host's business.
\<close>

definition findSymbolAddress :: "Host \<Rightarrow> ElfImage \<Rightarrow> string \<Rightarrow> (addr \<times> byte) option option" where
  "findSymbolAddress host img name =
     (case findSymbolOffset img name of
        None \<Rightarrow> None
      | Some None \<Rightarrow> Some None
      | Some (Some (off, sym_type, sym_bind)) \<Rightarrow>
          if base img = 0 then Some None
          else let a = base img + off - bias img
               in if sym_type = STT_GNU_IFUNC then Some (Some (call_ifunc host a, sym_bind))
                  else Some (Some (a, sym_bind)))"

subsection \<open>When the tables of an image index a symbol\<close>

text \<open>
  The lookups read tables that the static linker wrote; what they return depends on
  what the tables hold. The following predicates say that a table leads to a given
  entry. \<open>dyn_defines img name j\<close>: entry \<open>j\<close> of \<^verbatim>\<open>.dynsym\<close> is a definition of \<open>name\<close>
  (it has the name and a section index other than \<^verbatim>\<open>SHN_UNDEF\<close>).
\<close>

definition dyn_defines :: "ElfImage \<Rightarrow> string \<Rightarrow> nat \<Rightarrow> bool" where
  "dyn_defines img name j =
     (name = cstr (the (strtab_start img)) (unat (st_name (the (dynsym_start img) j)))
      \<and> st_shndx (the (dynsym_start img) j) \<noteq> SHN_UNDEF)"

text \<open>
  The GNU hash table indexes entry \<open>i\<close> under the hash \<open>h\<close>: the bloom filter has both
  bits of \<open>h\<close>, the bucket of \<open>h\<close> starts a chain at or before \<open>i\<close> (and not below
  \<^verbatim>\<open>gnu_symndx_\<close>), no chain word before \<open>i\<close> ends the chain, \<open>i\<close> is inside \<^verbatim>\<open>.dynsym\<close>, and
  the chain word of \<open>i\<close> carries the upper 31 bits of \<open>h\<close>.
\<close>

definition gnu_indexes :: "ElfImage \<Rightarrow> u32 \<Rightarrow> nat \<Rightarrow> bool" where
  "gnu_indexes img h i =
     (gnu_nbucket img \<noteq> 0 \<and> gnu_bloom_filter img \<noteq> None \<and> gnu_bucket img \<noteq> None
      \<and> gnu_chain img \<noteq> None \<and> dynsym_start img \<noteq> None \<and> strtab_start img \<noteq> None
      \<and> (let mask = push_bit (unat (h mod 64)) (1 :: u64)
                      OR push_bit (unat (drop_bit (unat (gnu_shift2 img mod 32)) h mod 64)) 1
         in the (gnu_bloom_filter img)
              (unat (((ucast h :: u64) div 64) mod ucast (gnu_bloom_size img))) AND mask = mask)
      \<and> (let b = the (gnu_bucket img) (unat (h mod gnu_nbucket img))
         in gnu_symndx img \<le> b \<and> unat b \<le> i
            \<and> i < unat (ucast (dynsym_sh_size img div dynsym_sh_entsize img) :: u32)
            \<and> list_all (\<lambda>j. the (gnu_chain img) (j - unat (gnu_symndx img)) AND 1 = 0) [unat b..<i]
            \<and> drop_bit 1 (the (gnu_chain img) (i - unat (gnu_symndx img)) XOR h) = 0))"

text \<open>
  The ELF hash chain that starts at \<open>n\<close> reaches entry \<open>i\<close> within \<open>fuel\<close> steps, through
  entries other than \<^verbatim>\<open>STN_UNDEF\<close>; and the ELF hash table indexes \<open>i\<close> under \<open>h\<close> when
  the chain of the bucket of \<open>h\<close> does.
\<close>

fun elf_reaches :: "(nat \<Rightarrow> u32) \<Rightarrow> nat \<Rightarrow> u32 \<Rightarrow> nat \<Rightarrow> bool" where
  "elf_reaches chn 0 n i = False"
| "elf_reaches chn (Suc fuel) n i =
     (n \<noteq> STN_UNDEF \<and> (unat n = i \<or> elf_reaches chn fuel (chn (unat n)) i))"

definition elf_indexes :: "ElfImage \<Rightarrow> u32 \<Rightarrow> nat \<Rightarrow> nat \<Rightarrow> bool" where
  "elf_indexes img h fuel i =
     (nbucket img \<noteq> 0 \<and> bucket img \<noteq> None \<and> chain_tab img \<noteq> None
      \<and> dynsym_start img \<noteq> None \<and> strtab_start img \<noteq> None
      \<and> elf_reaches (the (chain_tab img)) fuel (the (bucket img) (unat (h mod nbucket img))) i)"

text \<open>
  \<^verbatim>\<open>.symtab\<close> lists, at entry \<open>k\<close>, a symbol that the linear scan accepts for \<open>name\<close>: a
  defined \<^verbatim>\<open>STT_FUNC\<close> or \<^verbatim>\<open>STT_OBJECT\<close> of nonzero size with that name.
\<close>

definition symtab_lists :: "ElfImage \<Rightarrow> string \<Rightarrow> nat \<Rightarrow> bool" where
  "symtab_lists img name k =
     (symtab_start img \<noteq> None \<and> symtab_strtab img \<noteq> None \<and> symtab_count img \<noteq> 0
      \<and> k < unat (symtab_count img)
      \<and> linear_match (the (symtab_strtab img)) name (the (symtab_start img) k))"

section \<open>The linker (\<^verbatim>\<open>src/linker.cpp\<close>, \<^verbatim>\<open>include/linker.hpp\<close>)\<close>

definition R_AARCH64_NONE :: u32 where "R_AARCH64_NONE = 0"
definition R_AARCH64_ABS64 :: u32 where "R_AARCH64_ABS64 = 257"
definition R_AARCH64_COPY :: u32 where "R_AARCH64_COPY = 1024"
definition R_AARCH64_GLOB_DAT :: u32 where "R_AARCH64_GLOB_DAT = 1025"
definition R_AARCH64_JUMP_SLOT :: u32 where "R_AARCH64_JUMP_SLOT = 1026"
definition R_AARCH64_RELATIVE :: u32 where "R_AARCH64_RELATIVE = 1027"
definition R_AARCH64_TLS_DTPMOD :: u32 where "R_AARCH64_TLS_DTPMOD = 1028"
definition R_AARCH64_TLS_DTPREL :: u32 where "R_AARCH64_TLS_DTPREL = 1029"
definition R_AARCH64_TLS_TPREL :: u32 where "R_AARCH64_TLS_TPREL = 1030"
definition R_AARCH64_TLSDESC :: u32 where "R_AARCH64_TLSDESC = 1031"
definition R_AARCH64_IRELATIVE :: u32 where "R_AARCH64_IRELATIVE = 1032"
definition DT_RELA :: u64 where "DT_RELA = 7"

text \<open>
  \<^verbatim>\<open>LoadedDep\<close>; its \<^verbatim>\<open>image\<close> is \<open>dep_image\<close> here, \<open>None\<close> for a null \<^verbatim>\<open>unique_ptr\<close>.
\<close>

record LoadedDep =
  dep_image :: "ElfImage option"
  is_manual_load :: bool
  map_base :: addr
  map_size :: u64

text \<open>
  \<^verbatim>\<open>SymbolLookup\<close> and \<^verbatim>\<open>SymbolCacheEntry\<close>. Their \<^verbatim>\<open>ElfImage*\<close> is the image pointed to,
  \<open>None\<close> for \<^verbatim>\<open>nullptr\<close>: no image changes between the lookup and the use of its
  result. The members \<^verbatim>\<open>image\<close>, \<^verbatim>\<open>bind\<close>, \<^verbatim>\<open>type\<close> carry a prefix here.
\<close>

record SymbolLookup =
  address :: addr
  sl_image :: "ElfImage option"
  sl_bind :: byte
  sl_type :: byte

definition SymbolLookup_none :: SymbolLookup where
  "SymbolLookup_none = \<lparr>address = 0, sl_image = None, sl_bind = 0, sl_type = 0\<rparr>"

definition valid :: "SymbolLookup \<Rightarrow> bool" where
  "valid r = (address r \<noteq> 0)"

definition isWeak :: "SymbolLookup \<Rightarrow> bool" where
  "isWeak r = (sl_bind r = 2)"

record SymbolCacheEntry =
  ce_address :: addr
  ce_image :: "ElfImage option"
  found :: bool

text \<open>
  The linker's members. \<^verbatim>\<open>symbol_cache_\<close> is a map from names to entries;
  \<^verbatim>\<open>tls_indices_\<close> holds the addresses of the \<^verbatim>\<open>TlsIndex\<close> records it allocated.
\<close>

record Linker =
  main_image :: "ElfImage option"
  deps :: "LoadedDep list"
  main_map_size :: u64
  is_linked :: bool
  symbol_cache :: "string \<Rightarrow> SymbolCacheEntry option"
  tls_indices :: "addr list"

text \<open>
  What the linker acts on outside itself: the TLS manager, the memory of the mapped
  images, the TLS key of the thread that runs the linker, the \<^verbatim>\<open>TlsIndex\<close> records on
  the heap (with the count of allocations so far), and the calls it makes into the
  host and into the loaded code, in order. Constructors and destructors are calls into
  the loaded code: the model records that they are called, not what they do.
\<close>

datatype event =
    RegisterLibrary addr
  | RegisterEhFrame addr
  | UnregisterEhFrame addr
  | UnregisterLibrary addr
  | CallConstructor addr
  | CallDestructor addr
  | Munmap addr u64

record World =
  tls :: TlsManager
  mem :: memory
  thread :: addr
  heap :: "addr \<Rightarrow> TlsIndex option"
  n_new :: nat
  trace :: "event list"

definition emit :: "event list \<Rightarrow> World \<Rightarrow> World" where
  "emit es W = W\<lparr>trace := trace W @ es\<rparr>"

definition store :: "World \<Rightarrow> addr \<Rightarrow> u64 \<Rightarrow> World" where
  "store W target v = W\<lparr>mem := store64 (mem W) target v\<rparr>"

subsection \<open>\<^verbatim>\<open>Linker::findSymbol\<close> and \<^verbatim>\<open>Linker::findSymbolCached\<close>\<close>

text \<open>
  The block that \<^verbatim>\<open>findSymbol\<close> runs for the main image and, with the same text, for
  each dependency: look the name up in the image; on a hit set \<^verbatim>\<open>result\<close>, return it
  when the binding is \<^verbatim>\<open>STB_GLOBAL\<close>, and remember it in \<^verbatim>\<open>weak_result\<close> when the binding is
  \<^verbatim>\<open>STB_WEAK\<close> and nothing is remembered yet. The state is \<open>(result, weak_result)\<close>;
  \<open>Inl\<close> is the \<^verbatim>\<open>return\<close>, \<open>Inr\<close> the state the function goes on with; \<open>None\<close> when the
  lookup in the image does not return.
\<close>

definition findSymbol_in ::
  "Host \<Rightarrow> string \<Rightarrow> ElfImage \<Rightarrow> SymbolLookup \<times> SymbolLookup
     \<Rightarrow> (SymbolLookup + SymbolLookup \<times> SymbolLookup) option"
where
  "findSymbol_in host name img st =
     (let (result, weak_result) = st
      in case findSymbolAddress host img name of
           None \<Rightarrow> None
         | Some None \<Rightarrow> Some (Inr (result, weak_result))
         | Some (Some (a, sym_bind)) \<Rightarrow>
             let result' = \<lparr>address = a, sl_image = Some img, sl_bind = sym_bind, sl_type = 0\<rparr>
             in if sym_bind = STB_GLOBAL then Some (Inl result')
                else if sym_bind = STB_WEAK \<and> \<not> valid weak_result
                     then Some (Inr (result', result'))
                     else Some (Inr (result', weak_result)))"

fun findSymbol_deps ::
  "Host \<Rightarrow> string \<Rightarrow> LoadedDep list \<Rightarrow> SymbolLookup \<times> SymbolLookup
     \<Rightarrow> (SymbolLookup + SymbolLookup \<times> SymbolLookup) option"
where
  "findSymbol_deps host name [] st = Some (Inr st)"
| "findSymbol_deps host name (dep # ds) st =
     (case dep_image dep of
        None \<Rightarrow> findSymbol_deps host name ds st
      | Some img \<Rightarrow>
          (case findSymbol_in host name img st of
             None \<Rightarrow> None
           | Some (Inl r) \<Rightarrow> Some (Inl r)
           | Some (Inr st') \<Rightarrow> findSymbol_deps host name ds st'))"

text \<open>What follows the two scans: the last hit if it is not weak, the remembered weak hit, \<^verbatim>\<open>dlsym\<close>.\<close>

definition findSymbol_rest :: "Host \<Rightarrow> string \<Rightarrow> SymbolLookup \<times> SymbolLookup \<Rightarrow> SymbolLookup" where
  "findSymbol_rest host name st =
     (let (result, weak_result) = st
      in if valid result \<and> \<not> isWeak result then result
         else if valid weak_result then weak_result
         else let sys_addr = dlsym host name
              in if sys_addr \<noteq> 0
                 then \<lparr>address = sys_addr, sl_image = None, sl_bind = STB_GLOBAL, sl_type = 0\<rparr>
                 else SymbolLookup_none)"

definition findSymbol :: "Host \<Rightarrow> Linker \<Rightarrow> string \<Rightarrow> SymbolLookup option" where
  "findSymbol host L name =
     (case (case main_image L of
              None \<Rightarrow> Some (Inr (SymbolLookup_none, SymbolLookup_none))
            | Some m \<Rightarrow> findSymbol_in host name m (SymbolLookup_none, SymbolLookup_none)) of
        None \<Rightarrow> None
      | Some (Inl r) \<Rightarrow> Some r
      | Some (Inr st) \<Rightarrow>
          (case findSymbol_deps host name (deps L) st of
             None \<Rightarrow> None
           | Some (Inl r) \<Rightarrow> Some r
           | Some (Inr st') \<Rightarrow> Some (findSymbol_rest host name st')))"

text \<open>
  The loaded images in the order \<^verbatim>\<open>findSymbol\<close> visits them: the main image, then the
  images of the dependencies in load order (the order of \<^verbatim>\<open>deps_\<close>).
\<close>

definition loaded_images :: "Linker \<Rightarrow> ElfImage list" where
  "loaded_images L =
     (case main_image L of None \<Rightarrow> [] | Some m \<Rightarrow> [m]) @ List.map_filter dep_image (deps L)"

text \<open>The two scans of \<^verbatim>\<open>findSymbol\<close> as one, over a list of images.\<close>

fun scan_images ::
  "Host \<Rightarrow> string \<Rightarrow> ElfImage list \<Rightarrow> SymbolLookup \<times> SymbolLookup
     \<Rightarrow> (SymbolLookup + SymbolLookup \<times> SymbolLookup) option"
where
  "scan_images host name [] st = Some (Inr st)"
| "scan_images host name (img # imgs) st =
     (case findSymbol_in host name img st of
        None \<Rightarrow> None
      | Some (Inl r) \<Rightarrow> Some (Inl r)
      | Some (Inr st') \<Rightarrow> scan_images host name imgs st')"

text \<open>
  What the scan of a list of images comes across: the \<^verbatim>\<open>result\<close> that \<^verbatim>\<open>findSymbol\<close> builds
  for an image in which the lookup hits, and these results in the order of the scan.
\<close>

definition symbol_hit :: "Host \<Rightarrow> string \<Rightarrow> ElfImage \<Rightarrow> SymbolLookup option" where
  "symbol_hit host name img =
     (case findSymbolAddress host img name of
        Some (Some (a, sym_bind)) \<Rightarrow>
          Some \<lparr>address = a, sl_image = Some img, sl_bind = sym_bind, sl_type = 0\<rparr>
      | _ \<Rightarrow> None)"

definition symbol_hits :: "Host \<Rightarrow> string \<Rightarrow> ElfImage list \<Rightarrow> SymbolLookup list" where
  "symbol_hits host name imgs = List.map_filter (symbol_hit host name) imgs"

definition findSymbolCached :: "Host \<Rightarrow> Linker \<Rightarrow> string \<Rightarrow> (SymbolLookup \<times> Linker) option" where
  "findSymbolCached host L name =
     (case symbol_cache L name of
        Some e \<Rightarrow>
          if found e
          then Some (\<lparr>address = ce_address e, sl_image = ce_image e, sl_bind = 0, sl_type = 0\<rparr>, L)
          else Some (SymbolLookup_none, L)
      | None \<Rightarrow>
          (case findSymbol host L name of
             None \<Rightarrow> None
           | Some result \<Rightarrow>
               Some (result,
                     L\<lparr>symbol_cache := (symbol_cache L)
                          (name \<mapsto> \<lparr>ce_address = address result, ce_image = sl_image result,
                                     found = valid result\<rparr>)\<rparr>)))"

definition clearSymbolCache :: "Linker \<Rightarrow> Linker" where
  "clearSymbolCache L = L\<lparr>symbol_cache := Map.empty\<rparr>"

subsection \<open>\<^verbatim>\<open>Linker::processRelocation\<close>\<close>

text \<open>\<^verbatim>\<open>TlsManager::allocateIndex\<close>: a new record on the heap.\<close>

definition allocateIndex :: "Host \<Rightarrow> World \<Rightarrow> ElfImage \<Rightarrow> ElfSym \<Rightarrow> u64 \<Rightarrow> addr \<times> World" where
  "allocateIndex host W img sy addend =
     (let ti = new_TlsIndex host (n_new W)
      in (ti, W\<lparr>heap := (heap W)(ti \<mapsto> \<lparr>ti_module = tls_mod_id img,
                                               ti_offset = st_value sy + addend\<rparr>),
                n_new := Suc (n_new W)\<rparr>))"

definition symbolic_type :: "u32 \<Rightarrow> bool" where
  "symbolic_type rtype =
     (rtype = R_AARCH64_GLOB_DAT \<or> rtype = R_AARCH64_ABS64 \<or> rtype = R_AARCH64_JUMP_SLOT
      \<or> rtype = R_AARCH64_TLS_DTPMOD \<or> rtype = R_AARCH64_TLS_DTPREL
      \<or> rtype = R_AARCH64_TLS_TPREL \<or> rtype = R_AARCH64_TLSDESC)"

text \<open>
  The inner \<^verbatim>\<open>switch\<close>, reached with a valid lookup result \<open>sy\<close> for a name that is
  neither \<^verbatim>\<open>dl_iterate_phdr\<close> nor \<^verbatim>\<open>dladdr\<close>. \<^verbatim>\<open>type\<close> is \<open>rtype\<close>, \<^verbatim>\<open>offset\<close> has become
  \<open>target\<close>.
\<close>

definition apply_symbolic ::
  "Host \<Rightarrow> Linker \<times> World \<Rightarrow> SymbolLookup \<Rightarrow> u32 \<Rightarrow> addr \<Rightarrow> u64 \<Rightarrow> ElfSym \<Rightarrow> bool
     \<Rightarrow> Linker \<times> World"
where
  "apply_symbolic host st sy rtype target addend dsym is_rela =
     (let (L, W) = st
      in if rtype = R_AARCH64_GLOB_DAT \<or> rtype = R_AARCH64_JUMP_SLOT
         then (L, store W target (address sy))
         else if rtype = R_AARCH64_ABS64
         then (L, store W target (address sy + (if is_rela then addend else load64 (mem W) target)))
         else if rtype = R_AARCH64_TLS_DTPMOD
         then (case sl_image sy of
                 None \<Rightarrow> (L, store W target 0)
               | Some img \<Rightarrow>
                   (L, store W target (if tls_segment img \<noteq> None then tls_mod_id img else 0)))
         else if rtype = R_AARCH64_TLS_DTPREL
         then (L, store W target (st_value dsym + addend))
         else if rtype = R_AARCH64_TLS_TPREL
         then (case sl_image sy of
                 None \<Rightarrow> (L, store W target 0)
               | Some img \<Rightarrow>
                   let ti = \<lparr>ti_module = tls_mod_id img, ti_offset = st_value dsym + addend\<rparr>;
                       (block, thread1) = getAddress (tls W) host (thread W) (Some ti)
                   in if block \<noteq> 0
                      then let (block_base, thread2) = getAddress (tls W) host thread1 None
                           in (L, store (W\<lparr>thread := thread2\<rparr>) target (block - block_base))
                      else (L, store (W\<lparr>thread := thread1\<rparr>) target 0))
         else (case sl_image sy of
                 None \<Rightarrow> (L, store (store W target 0) (target + 8) 0)
               | Some img \<Rightarrow>
                   let (ti, W1) = allocateIndex host W img dsym addend
                   in (L\<lparr>tls_indices := tls_indices L @ [ti]\<rparr>,
                       store (store W1 target (dynamic_tls_resolver_addr host)) (target + 8) ti)))"

text \<open>
  \<^verbatim>\<open>processRelocation\<close>. It returns nothing (\<open>None\<close>) only when the symbol lookup does
  not return.
\<close>

definition processRelocation ::
  "Host \<Rightarrow> Linker \<times> World \<Rightarrow> u32 \<Rightarrow> u32 \<Rightarrow> u64 \<Rightarrow> u64 \<Rightarrow> u64 \<Rightarrow> (nat \<Rightarrow> ElfSym) \<Rightarrow> string \<Rightarrow> bool
     \<Rightarrow> (Linker \<times> World) option"
where
  "processRelocation host st sym_idx rtype r_off addend load_bias dynsym dynstr is_rela =
     (let (L, W) = st;
          target = load_bias + r_off
      in if rtype = R_AARCH64_NONE then Some (L, W)
         else if rtype = R_AARCH64_COPY then Some (L, W)
         else if rtype = R_AARCH64_RELATIVE
         then Some (L, store W target
                         (load_bias + (if is_rela then addend else load64 (mem W) target)))
         else if rtype = R_AARCH64_IRELATIVE
         then Some (L, store W target
                         (call_ifunc host
                            (load_bias + (if is_rela then addend else load64 (mem W) target))))
         else if symbolic_type rtype
         then (let sym_name = cstr dynstr (unat (st_name (dynsym (unat sym_idx))))
               in case findSymbolCached host L sym_name of
                    None \<Rightarrow> None
                  | Some (sy, L1) \<Rightarrow>
                      if \<not> valid sy then Some (L1, W)
                      else if sym_name = ''dl_iterate_phdr''
                      then Some (L1, store W target (customDlIteratePhdr host))
                      else if sym_name = ''dladdr''
                      then Some (L1, store W target (customDladdr host))
                      else Some (apply_symbolic host (L1, W) sy rtype target addend
                                   (dynsym (unat sym_idx)) is_rela))
         else Some (L, W))"

subsection \<open>\<^verbatim>\<open>Linker::processRelocations\<close>\<close>

text \<open>
  The loops over a \<^verbatim>\<open>RELA\<close> table (\<open>is_rela\<close>, with the entry's addend) and over a
  \<^verbatim>\<open>REL\<close> table (addend 0): one call of \<^verbatim>\<open>processRelocation\<close> per entry, in order.
\<close>

fun relocate_rela ::
  "Host \<Rightarrow> u64 \<Rightarrow> (nat \<Rightarrow> ElfSym) \<Rightarrow> string \<Rightarrow> ElfRela list \<Rightarrow> Linker \<times> World
     \<Rightarrow> (Linker \<times> World) option"
where
  "relocate_rela host load_bias dynsym dynstr [] st = Some st"
| "relocate_rela host load_bias dynsym dynstr (r # rs) st =
     (case processRelocation host st (ELF_R_SYM (r_info r)) (ELF_R_TYPE (r_info r))
             (r_offset r) (r_addend r) load_bias dynsym dynstr True of
        None \<Rightarrow> None
      | Some st' \<Rightarrow> relocate_rela host load_bias dynsym dynstr rs st')"

fun relocate_rel ::
  "Host \<Rightarrow> u64 \<Rightarrow> (nat \<Rightarrow> ElfSym) \<Rightarrow> string \<Rightarrow> ElfRel list \<Rightarrow> Linker \<times> World
     \<Rightarrow> (Linker \<times> World) option"
where
  "relocate_rel host load_bias dynsym dynstr [] st = Some st"
| "relocate_rel host load_bias dynsym dynstr (r # rs) st =
     (case processRelocation host st (ELF_R_SYM (r_info r)) (ELF_R_TYPE (r_info r))
             (r_offset r) 0 load_bias dynsym dynstr False of
        None \<Rightarrow> None
      | Some st' \<Rightarrow> relocate_rel host load_bias dynsym dynstr rs st')"

text \<open>
  The Android packed format (\<^verbatim>\<open>APS2\<close>). \<open>android_group\<close> is the inner loop
  \<^verbatim>\<open>for (uint64_t j = 0; j < group_size; j++)\<close>, by the number of passes left; its state
  is the decoder, \<^verbatim>\<open>r_offset\<close>, \<^verbatim>\<open>sym_idx\<close>, \<^verbatim>\<open>type\<close> and \<^verbatim>\<open>addend\<close>, with the linker
  and the world.
\<close>

definition GROUPED_BY_INFO :: u64 where "GROUPED_BY_INFO = 1"
definition GROUPED_BY_OFFSET_DELTA :: u64 where "GROUPED_BY_OFFSET_DELTA = 2"
definition GROUPED_BY_ADDEND :: u64 where "GROUPED_BY_ADDEND = 4"
definition HAS_ADDEND :: u64 where "HAS_ADDEND = 8"

type_synonym android_state = "byte list \<times> u64 \<times> u32 \<times> u32 \<times> u64"

fun android_group ::
  "Host \<Rightarrow> u64 \<Rightarrow> (nat \<Rightarrow> ElfSym) \<Rightarrow> string \<Rightarrow> bool \<Rightarrow> u64 \<Rightarrow> u64 \<Rightarrow> nat
     \<Rightarrow> android_state \<times> (Linker \<times> World) \<Rightarrow> (android_state \<times> (Linker \<times> World)) option"
where
  "android_group host load_bias dynsym dynstr android_rela group_flags group_offset_delta 0 s =
     Some s"
| "android_group host load_bias dynsym dynstr android_rela group_flags group_offset_delta (Suc n) s =
     (let ((dec, r_off, sym_idx, rtype, addend), st) = s;
          (r_off1, dec1) =
            (if group_flags AND GROUPED_BY_OFFSET_DELTA \<noteq> 0 then (r_off + group_offset_delta, dec)
             else (r_off + fst (decode dec), snd (decode dec)));
          (sym_idx1, rtype1, dec2) =
            (if group_flags AND GROUPED_BY_INFO = 0
             then (ELF_R_SYM (fst (decodeUnsigned dec1)), ELF_R_TYPE (fst (decodeUnsigned dec1)),
                   snd (decodeUnsigned dec1))
             else (sym_idx, rtype, dec1));
          (addend1, dec3) =
            (if android_rela \<and> group_flags AND HAS_ADDEND \<noteq> 0
                \<and> group_flags AND GROUPED_BY_ADDEND = 0
             then (addend + fst (decode dec2), snd (decode dec2))
             else (addend, dec2))
      in case processRelocation host st sym_idx1 rtype1 r_off1 addend1 load_bias dynsym dynstr
                android_rela of
           None \<Rightarrow> None
         | Some st' \<Rightarrow>
             android_group host load_bias dynsym dynstr android_rela group_flags
               group_offset_delta n ((dec3, r_off1, sym_idx1, rtype1, addend1), st'))"

text \<open>
  The head of a group: its size and flags, then the fields the flags announce.
  The result is the state the inner loop starts in, with the group's size, flags and
  offset delta.
\<close>

definition android_group_head ::
  "bool \<Rightarrow> byte list \<Rightarrow> u64 \<Rightarrow> u64 \<times> u64 \<times> u64 \<times> android_state"
where
  "android_group_head android_rela dec r_off =
     (let (group_size, dec1) = decodeUnsigned dec;
          (group_flags, dec2) = decodeUnsigned dec1;
          (group_offset_delta, dec3) =
            (if group_flags AND GROUPED_BY_OFFSET_DELTA \<noteq> 0 then decode dec2 else (0, dec2));
          (sym_idx, rtype, dec4) =
            (if group_flags AND GROUPED_BY_INFO \<noteq> 0
             then (ELF_R_SYM (fst (decodeUnsigned dec3)), ELF_R_TYPE (fst (decodeUnsigned dec3)),
                   snd (decodeUnsigned dec3))
             else (0, 0, dec3));
          (addend, dec5) =
            (if android_rela \<and> group_flags AND HAS_ADDEND \<noteq> 0
                \<and> group_flags AND GROUPED_BY_ADDEND \<noteq> 0
             then (0 + fst (decode dec4), snd (decode dec4))
             else (0, dec4))
      in (group_size, group_flags, group_offset_delta, (dec5, r_off, sym_idx, rtype, addend)))"

text \<open>
  The outer loop \<^verbatim>\<open>for (uint64_t i = 0; i < num_relocs; ) { ...; i += group_size; }\<close>. A
  group of size 0 leaves \<open>i\<close> where it is; the decoder yields 0 for every read past its
  span, so a table that ends early makes the loop run forever, and \<open>None\<close> is the
  value of a run that does not return.
\<close>

partial_function (option) android_groups ::
  "Host \<Rightarrow> u64 \<Rightarrow> (nat \<Rightarrow> ElfSym) \<Rightarrow> string \<Rightarrow> bool \<Rightarrow> u64
     \<Rightarrow> u64 \<Rightarrow> byte list \<Rightarrow> u64 \<Rightarrow> Linker \<times> World \<Rightarrow> (Linker \<times> World) option"
where
  "android_groups host load_bias dynsym dynstr android_rela num_relocs i dec r_off st =
     (if \<not> i < num_relocs then Some st
      else case android_group host load_bias dynsym dynstr android_rela
                  (fst (snd (android_group_head android_rela dec r_off)))
                  (fst (snd (snd (android_group_head android_rela dec r_off))))
                  (unat (fst (android_group_head android_rela dec r_off)))
                  (snd (snd (snd (android_group_head android_rela dec r_off))), st) of
             None \<Rightarrow> None
           | Some s' \<Rightarrow>
               android_groups host load_bias dynsym dynstr android_rela num_relocs
                 (i + fst (android_group_head android_rela dec r_off))
                 (fst (fst s')) (fst (snd (fst s'))) (snd s'))"

declare android_groups.simps [code]

definition APS2 :: "byte list" where
  "APS2 = [0x41, 0x50, 0x53, 0x32]"

text \<open>
  The Android block of \<^verbatim>\<open>processRelocations\<close>. \<open>Inl\<close> is its \<^verbatim>\<open>return\<close> on a wrong magic,
  which leaves the function; \<open>Inr\<close> goes on to the PLT block.
\<close>

definition relocate_android ::
  "Host \<Rightarrow> u64 \<Rightarrow> (nat \<Rightarrow> ElfSym) \<Rightarrow> string \<Rightarrow> DynInfo \<Rightarrow> Linker \<times> World
     \<Rightarrow> (Linker \<times> World + Linker \<times> World) option"
where
  "relocate_android host load_bias dynsym dynstr d st =
     (if android_reloc d \<noteq> None \<and> 4 < android_reloc_sz d
      then if take 4 (the (android_reloc d)) \<noteq> APS2 then Some (Inl st)
           else let dec = take (unat (android_reloc_sz d - 4)) (drop 4 (the (android_reloc d)));
                    (num_relocs, dec1) = decodeUnsigned dec;
                    (r_off, dec2) = decode dec1
                in map_option Inr
                     (android_groups host load_bias dynsym dynstr (is_android_rela d) num_relocs
                        0 dec2 r_off st)
      else Some (Inr st))"

text \<open>
  \<^verbatim>\<open>processRelocations\<close>, after the walk over the dynamic section: RELR, RELA, REL,
  Android packed, PLT. \<^verbatim>\<open>sizeof(ElfRela)\<close> is 24 and \<^verbatim>\<open>sizeof(ElfRel)\<close> is 16.
\<close>

definition processRelocations :: "Host \<Rightarrow> ElfImage \<Rightarrow> Linker \<times> World \<Rightarrow> (Linker \<times> World) option" where
  "processRelocations host img st =
     (case dynamic img of
        None \<Rightarrow> Some st
      | Some d \<Rightarrow>
          if (case android_relrent d of None \<Rightarrow> False | Some v \<Rightarrow> v \<noteq> 8) then Some st
          else if dt_symtab d = None \<or> dt_strtab d = None then Some st
          else
            let load_bias = base img - bias img;
                dynsym = the (dt_symtab d);
                dynstr = the (dt_strtab d);
                st1 = (fst st, (snd st)\<lparr>mem := process_relr load_bias (relr d) (relr_sz d)
                                                    (mem (snd st))\<rparr>)
            in case (if rela d \<noteq> None \<and> rela_sz d \<noteq> 0
                     then relocate_rela host load_bias dynsym dynstr
                            (map (the (rela d))
                               [0..<unat (rela_sz d div (if rela_ent d = 0 then 24 else rela_ent d))])
                            st1
                     else Some st1) of
                 None \<Rightarrow> None
               | Some st2 \<Rightarrow>
                   (case (if rel d \<noteq> None \<and> rel_sz d \<noteq> 0
                          then relocate_rel host load_bias dynsym dynstr
                                 (map (the (rel d))
                                    [0..<unat (rel_sz d div (if rel_ent d = 0 then 16 else rel_ent d))])
                                 st2
                          else Some st2) of
                      None \<Rightarrow> None
                    | Some st3 \<Rightarrow>
                        (case relocate_android host load_bias dynsym dynstr d st3 of
                           None \<Rightarrow> None
                         | Some (Inl st4) \<Rightarrow> Some st4
                         | Some (Inr st4) \<Rightarrow>
                             if jmprel d \<noteq> None \<and> jmprel_sz d \<noteq> 0
                             then if pltrel_type d = DT_RELA
                                  then relocate_rela host load_bias dynsym dynstr
                                         (map (fst (the (jmprel d))) [0..<unat (jmprel_sz d div 24)])
                                         st4
                                  else relocate_rel host load_bias dynsym dynstr
                                         (map (snd (the (jmprel d))) [0..<unat (jmprel_sz d div 16)])
                                         st4
                             else Some st4)))"

subsection \<open>Constructors and destructors\<close>

definition callConstructors :: "ElfImage \<Rightarrow> event list" where
  "callConstructors img =
     (if init_func img \<noteq> 0 then [CallConstructor (init_func img)] else [])
     @ (case init_array img of
          None \<Rightarrow> []
        | Some arr \<Rightarrow> map (\<lambda>i. CallConstructor (arr i)) [0..<unat (init_array_count img)])"

definition callDestructors :: "ElfImage \<Rightarrow> event list" where
  "callDestructors img =
     (case fini_array img of
        None \<Rightarrow> []
      | Some arr \<Rightarrow> map (\<lambda>i. CallDestructor (arr i)) (rev [0..<unat (fini_array_count img)]))
     @ (if fini_func img \<noteq> 0 then [CallDestructor (fini_func img)] else [])"

subsection \<open>A new linker, \<^verbatim>\<open>Linker::init\<close> and \<^verbatim>\<open>setMainMapSize\<close>\<close>

text \<open>
  \<^verbatim>\<open>Linker() = default\<close> with the member initialisers of the class, and \<^verbatim>\<open>init\<close>, which
  takes the image and resets three more members. \<^verbatim>\<open>SoLoader\<close> holds one \<^verbatim>\<open>Linker\<close> and, for
  every library it loads, calls \<^verbatim>\<open>init\<close>, \<^verbatim>\<open>setMainMapSize\<close> and \<^verbatim>\<open>link\<close> on it.
\<close>

definition new_linker :: Linker where
  "new_linker =
     \<lparr>main_image = None, deps = [], main_map_size = 0, is_linked = False,
      symbol_cache = Map.empty, tls_indices = []\<rparr>"

definition init :: "ElfImage \<Rightarrow> Linker \<Rightarrow> Linker" where
  "init img L = L\<lparr>main_image := Some img, is_linked := False, main_map_size := 0, deps := []\<rparr>"

definition setMainMapSize :: "u64 \<Rightarrow> Linker \<Rightarrow> Linker" where
  "setMainMapSize sz L = L\<lparr>main_map_size := sz\<rparr>"

subsection \<open>\<^verbatim>\<open>Linker::link\<close>\<close>

text \<open>Phase 2 for the dependencies: each image registered, the module id stored in it.\<close>

fun register_deps :: "TlsManager \<Rightarrow> LoadedDep list \<Rightarrow> TlsManager \<times> LoadedDep list" where
  "register_deps m [] = (m, [])"
| "register_deps m (dep # ds) =
     (let (ok, m1, img1) = registerSegment m (the (dep_image dep));
          (m2, ds1) = register_deps m1 ds
      in (m2, dep\<lparr>dep_image := Some img1\<rparr> # ds1))"

text \<open>Phase 4 for the dependencies: the manually loaded ones are relocated, in load order.\<close>

fun relocate_deps :: "Host \<Rightarrow> LoadedDep list \<Rightarrow> Linker \<times> World \<Rightarrow> (Linker \<times> World) option" where
  "relocate_deps host [] st = Some st"
| "relocate_deps host (dep # ds) st =
     (if is_manual_load dep
      then case processRelocations host (the (dep_image dep)) st of
             None \<Rightarrow> None
           | Some st' \<Rightarrow> relocate_deps host ds st'
      else relocate_deps host ds st)"

text \<open>
  \<^verbatim>\<open>link\<close>. \<^verbatim>\<open>loadDependencies\<close> reads the file system and maps files; the model takes
  its outcome \<open>loaded\<close>: the value it returns and the \<^verbatim>\<open>deps_\<close> it leaves. The changes of
  page protection (phases 3 and 5) are not modelled. \<^verbatim>\<open>link\<close> dereferences the main
  image and the image of every dependency; with a null one among them it has no result.
\<close>

definition link :: "Host \<Rightarrow> bool \<times> LoadedDep list \<Rightarrow> Linker \<times> World \<Rightarrow> (bool \<times> Linker \<times> World) option" where
  "link host loaded st =
     (let (L, W) = st;
          L0 = L\<lparr>deps := snd loaded\<rparr>
      in if \<not> fst loaded then Some (False, L0, W)
         else if main_image L0 = None \<or> list_ex (\<lambda>dep. dep_image dep = None) (deps L0) then None
         else
           let (ok, tls1, m1) = registerSegment (tls W) (the (main_image L0));
               (tls2, deps1) = register_deps tls1 (deps L0);
               L1 = L0\<lparr>main_image := Some m1, deps := deps1\<rparr>;
               W1 = W\<lparr>tls := bumpGeneration tls2\<rparr>
           in case processRelocations host m1 (L1, W1) of
                None \<Rightarrow> None
              | Some st2 \<Rightarrow>
                  (case relocate_deps host deps1 st2 of
                     None \<Rightarrow> None
                   | Some (L3, W3) \<Rightarrow>
                       let manual = filter is_manual_load (deps L3);
                           m3 = the (main_image L3);
                           W4 = emit ([RegisterLibrary (self m3), RegisterEhFrame (self m3)]
                                  @ concat (map (\<lambda>dep. [RegisterLibrary (self (the (dep_image dep))),
                                                         RegisterEhFrame (self (the (dep_image dep)))])
                                              manual)
                                  @ concat (map (\<lambda>dep. callConstructors (the (dep_image dep))) manual)
                                  @ callConstructors m3) W3
                       in Some (True, L3\<lparr>is_linked := True\<rparr>, W4)))"

subsection \<open>\<^verbatim>\<open>Linker::destroy\<close> and \<^verbatim>\<open>Linker::abandon\<close>\<close>

text \<open>The parts the two teardowns are made of, in the order of the source.\<close>

definition unregister_main :: "Linker \<Rightarrow> event list" where
  "unregister_main L =
     (case main_image L of
        None \<Rightarrow> []
      | Some m \<Rightarrow> if is_linked L then [UnregisterEhFrame (self m), UnregisterLibrary (self m)] else [])"

definition destroy_main :: "Linker \<Rightarrow> event list" where
  "destroy_main L =
     (case main_image L of
        None \<Rightarrow> []
      | Some m \<Rightarrow>
          if is_linked L
          then [UnregisterEhFrame (self m), UnregisterLibrary (self m)] @ callDestructors m
          else [])"

definition destroy_dep :: "LoadedDep \<Rightarrow> event list" where
  "destroy_dep dep =
     (case dep_image dep of
        None \<Rightarrow> []
      | Some img \<Rightarrow>
          if is_manual_load dep
          then [UnregisterEhFrame (self img), UnregisterLibrary (self img)] @ callDestructors img
          else [])"

definition unregister_dep :: "LoadedDep \<Rightarrow> event list" where
  "unregister_dep dep =
     (case dep_image dep of
        None \<Rightarrow> []
      | Some img \<Rightarrow>
          if is_manual_load dep
          then [UnregisterEhFrame (self img), UnregisterLibrary (self img)]
          else [])"

text \<open>\<^verbatim>\<open>for (auto* ti : tls_indices_) delete ti;\<close>\<close>

definition delete_indices :: "addr list \<Rightarrow> (addr \<Rightarrow> TlsIndex option) \<Rightarrow> (addr \<Rightarrow> TlsIndex option)" where
  "delete_indices tis h = foldl (\<lambda>h ti. h(ti := None)) h tis"

text \<open>The TLS segments: the dependencies in reverse load order, then the main image.\<close>

definition unregister_tls :: "Linker \<Rightarrow> TlsManager \<Rightarrow> TlsManager" where
  "unregister_tls L m =
     (let m1 = foldl (\<lambda>m dep. case dep_image dep of
                                  None \<Rightarrow> m
                                | Some img \<Rightarrow> unregisterSegment m (self img))
                 m (rev (deps L))
      in case main_image L of None \<Rightarrow> m1 | Some img \<Rightarrow> unregisterSegment m1 (self img))"

definition unmap_dep :: "LoadedDep \<Rightarrow> event list" where
  "unmap_dep dep =
     (if is_manual_load dep \<and> 0 < map_size dep then [Munmap (map_base dep) (map_size dep)] else [])"

definition unmap_main :: "Linker \<Rightarrow> event list" where
  "unmap_main L =
     (case main_image L of
        None \<Rightarrow> []
      | Some m \<Rightarrow> if 0 < main_map_size L then [Munmap (base m) (main_map_size L)] else [])"

definition destroy_events :: "Linker \<Rightarrow> event list" where
  "destroy_events L =
     destroy_main L @ concat (map destroy_dep (rev (deps L)))
     @ concat (map unmap_dep (deps L)) @ unmap_main L"

definition destroy :: "Linker \<times> World \<Rightarrow> Linker \<times> World" where
  "destroy st =
     (let (L, W) = st
      in (L\<lparr>main_image := None, deps := [], main_map_size := 0, is_linked := False,
            tls_indices := []\<rparr>,
          emit (destroy_events L)
            (W\<lparr>heap := delete_indices (tls_indices L) (heap W),
               tls := unregister_tls L (tls W)\<rparr>)))"

definition abandon_events :: "Linker \<Rightarrow> event list" where
  "abandon_events L = concat (map unregister_dep (deps L)) @ unregister_main L"

definition abandon :: "Linker \<times> World \<Rightarrow> Linker \<times> World" where
  "abandon st =
     (let (L, W) = st
      in (L\<lparr>main_image := None, deps := [], main_map_size := 0, is_linked := False,
            tls_indices := []\<rparr>,
          emit (abandon_events L)
            (W\<lparr>heap := delete_indices (tls_indices L) (heap W),
               tls := unregister_tls L (tls W)\<rparr>)))"

text \<open>The calls that only \<^verbatim>\<open>destroy\<close> makes: destructors and \<^verbatim>\<open>munmap\<close>.\<close>

definition is_destructor_call :: "event \<Rightarrow> bool" where
  "is_destructor_call e = (case e of CallDestructor f \<Rightarrow> True | _ \<Rightarrow> False)"

definition is_munmap :: "event \<Rightarrow> bool" where
  "is_munmap e = (case e of Munmap b s \<Rightarrow> True | _ \<Rightarrow> False)"

subsection \<open>When \<^verbatim>\<open>link\<close> returns\<close>

text \<open>
  \<^verbatim>\<open>link\<close> returns when every lookup in an image returns (no cyclic ELF hash chain is
  met) and the Android packed loop is not entered. \<open>lookups_return\<close> says the first of
  an image, \<open>no_android\<close> the second; \<open>link_ready\<close> says both of the main image and
  the dependencies that \<^verbatim>\<open>loadDependencies\<close> left (the second of those it relocates),
  none of them null.
\<close>

definition lookups_return :: "Host \<Rightarrow> ElfImage \<Rightarrow> bool" where
  "lookups_return host img = (\<forall>name. findSymbolAddress host img name \<noteq> None)"

definition no_android :: "ElfImage \<Rightarrow> bool" where
  "no_android img = (case dynamic img of None \<Rightarrow> True | Some d \<Rightarrow> android_reloc d = None)"

definition dep_ready :: "Host \<Rightarrow> LoadedDep \<Rightarrow> bool" where
  "dep_ready host dep =
     (case dep_image dep of
        None \<Rightarrow> False
      | Some img \<Rightarrow> lookups_return host img \<and> (is_manual_load dep \<longrightarrow> no_android img))"

definition link_ready :: "Host \<Rightarrow> Linker \<Rightarrow> LoadedDep list \<Rightarrow> bool" where
  "link_ready host L ds =
     ((case main_image L of
         None \<Rightarrow> False
       | Some m \<Rightarrow> lookups_return host m \<and> no_android m)
      \<and> list_all (dep_ready host) ds)"

section \<open>Concrete inputs\<close>

text \<open>
  Two images with a \<^verbatim>\<open>PT_TLS\<close> segment. The first one declares a segment of
  \<open>2\<^sup>6\<^sup>4 - 1\<close> bytes in memory, which the loader accepts: nothing checks \<^verbatim>\<open>p_memsz\<close>
  of a \<^verbatim>\<open>PT_TLS\<close> header.
\<close>

definition tls_image_huge :: TlsImage where
  "tls_image_huge =
     \<lparr>self = 0x1000, base = 0x7000000000, bias = 0,
      tls_segment = Some \<lparr>p_type = 7, p_flags = 4, p_offset = 0x100, p_vaddr = 0x100,
                           p_paddr = 0x100, p_filesz = 8, p_memsz = 0xFFFFFFFFFFFFFFFF,
                           p_align = 1\<rparr>,
      tls_mod_id = 0\<rparr>"

definition tls_image_small :: TlsImage where
  "tls_image_small =
     \<lparr>self = 0x2000, base = 0x7100000000, bias = 0,
      tls_segment = Some \<lparr>p_type = 7, p_flags = 4, p_offset = 0x100, p_vaddr = 0x100,
                           p_paddr = 0x100, p_filesz = 8, p_memsz = 24, p_align = 16\<rparr>,
      tls_mod_id = 0\<rparr>"

text \<open>A table given by its elements; what lies behind them reads as \<open>d\<close>.\<close>

definition table_of :: "'a list \<Rightarrow> 'a \<Rightarrow> nat \<Rightarrow> 'a" where
  "table_of xs d i = (if i < length xs then xs ! i else d)"

text \<open>
  A small shared object. Its dynamic symbol table imports \<^verbatim>\<open>missing_fn\<close> and \<^verbatim>\<open>malloc\<close>
  (undefined, entries 1 and 2) and exports the function \<^verbatim>\<open>add\<close> (\<^verbatim>\<open>STT_FUNC\<close>, 32
  bytes, at offset \<open>0x1000\<close>, entry 3) and the linker-defined marker \<^verbatim>\<open>_end\<close>
  (\<^verbatim>\<open>STT_NOTYPE\<close>, size 0, at offset \<open>0x3000\<close>, entry 4), as objects linked by \<^verbatim>\<open>ld\<close>
  do. Both hash tables index both exported symbols; \<^verbatim>\<open>.symtab\<close> lists the same
  entries.
\<close>

definition null_sym :: ElfSym where
  "null_sym = \<lparr>st_name = 0, st_info = 0, st_other = 0, st_shndx = 0, st_value = 0, st_size = 0\<rparr>"

definition demo_syms :: "ElfSym list" where
  "demo_syms =
     [null_sym,
      \<lparr>st_name = 1, st_info = 0x12, st_other = 0, st_shndx = 0, st_value = 0, st_size = 0\<rparr>,
      \<lparr>st_name = 12, st_info = 0x12, st_other = 0, st_shndx = 0, st_value = 0, st_size = 0\<rparr>,
      \<lparr>st_name = 19, st_info = 0x12, st_other = 0, st_shndx = 12, st_value = 0x1000, st_size = 0x20\<rparr>,
      \<lparr>st_name = 23, st_info = 0x10, st_other = 0, st_shndx = 23, st_value = 0x3000, st_size = 0\<rparr>]"

definition demo_strtab :: string where
  "demo_strtab =
     CHR 0x00 # ''missing_fn'' @ CHR 0x00 # ''malloc'' @ CHR 0x00 # ''add'' @ CHR 0x00 # ''_end''
       @ [CHR 0x00]"

text \<open>
  Its relocations: a \<^verbatim>\<open>RELA\<close> table with an \<^verbatim>\<open>R_AARCH64_GLOB_DAT\<close> against symbol 1
  (\<^verbatim>\<open>missing_fn\<close>) for the word at \<open>0x4000\<close>, followed by an \<^verbatim>\<open>R_AARCH64_RELATIVE\<close> with
  addend \<open>0x1000\<close> for the word at \<open>0x4008\<close>; the PLT table has an
  \<^verbatim>\<open>R_AARCH64_JUMP_SLOT\<close> against symbol 2 (\<^verbatim>\<open>malloc\<close>) for the word at \<open>0x4010\<close>.
\<close>

definition demo_dynamic :: DynInfo where
  "demo_dynamic =
     \<lparr>rela = Some (table_of
               [\<lparr>r_offset = 0x4000, r_info = 0x100000401, r_addend = 0\<rparr>,
                \<lparr>r_offset = 0x4008, r_info = 0x403, r_addend = 0x1000\<rparr>]
               \<lparr>r_offset = 0, r_info = 0, r_addend = 0\<rparr>),
      rela_sz = 48, rela_ent = 24,
      rel = None, rel_sz = 0, rel_ent = 0,
      relr = None, relr_sz = 0,
      jmprel = Some (table_of [\<lparr>r_offset = 0x4010, r_info = 0x200000402, r_addend = 0\<rparr>]
                       \<lparr>r_offset = 0, r_info = 0, r_addend = 0\<rparr>,
                     table_of [] \<lparr>r_offset = 0, r_info = 0\<rparr>),
      jmprel_sz = 24, pltrel_type = 7,
      dt_symtab = Some (table_of demo_syms null_sym),
      dt_strtab = Some demo_strtab,
      android_reloc = None, android_reloc_sz = 0, is_android_rela = False,
      android_relrent = None\<rparr>"

definition demo_image :: ElfImage where
  "demo_image =
     \<lparr>self = 0x5000, base = 0x7000000000, bias = 0, tls_segment = None, tls_mod_id = 0,
      path = ''/data/local/tmp/libdemo.so'',
      dynsym_start = Some (table_of demo_syms null_sym),
      dynsym_sh_size = 120, dynsym_sh_entsize = 24,
      strtab_start = Some demo_strtab,
      nbucket = 1,
      bucket = Some (table_of [4] 0),
      chain_tab = Some (table_of [0, 0, 0, 0, 3] 0),
      gnu_nbucket = 1, gnu_symndx = 3, gnu_bloom_size = 1, gnu_shift2 = 6,
      gnu_bloom_filter = Some (table_of [0x808000000004000] 0),
      gnu_bucket = Some (table_of [3] 0),
      gnu_chain = Some (table_of [0x0B885CCE, 0x7C92E3BB] 0),
      symtab_start = Some (table_of demo_syms null_sym),
      symtab_count = 5,
      symtab_strtab = Some demo_strtab,
      init_array = Some (table_of [0x7000001100] 0), init_array_count = 1,
      fini_array = Some (table_of [0x7000001200, 0x7000001300] 0), fini_array_count = 2,
      init_func = 0, fini_func = 0x7000001400,
      dynamic = Some demo_dynamic\<rparr>"

text \<open>
  A host in which \<^verbatim>\<open>dlsym\<close> knows \<^verbatim>\<open>malloc\<close> and nothing else, a world with empty
  memory, and the linker as \<^verbatim>\<open>SoLoader::load\<close> leaves it before \<^verbatim>\<open>link\<close>: the small object
  as main image, mapped with \<open>0x5000\<close> bytes, no dependencies.
\<close>

definition demo_host :: Host where
  "demo_host =
     \<lparr>page_size = 4096,
      posix_memalign = (\<lambda>al sz. 0x7200000000),
      dlsym = (\<lambda>name. if name = ''malloc'' then 0x7300001000 else 0),
      call_ifunc = (\<lambda>a. a),
      new_TlsIndex = (\<lambda>n. 0x7400000000 + 16 * of_nat n),
      dynamic_tls_resolver_addr = 0x5500001000,
      customDlIteratePhdr = 0x5500002000,
      customDladdr = 0x5500003000\<rparr>"

definition demo_world :: World where
  "demo_world =
     \<lparr>tls = TlsManager_init, mem = (\<lambda>a. 0), thread = 0, heap = Map.empty, n_new = 0, trace = []\<rparr>"

definition demo_linker :: Linker where
  "demo_linker =
     \<lparr>main_image = Some demo_image, deps = [], main_map_size = 0x5000, is_linked = False,
      symbol_cache = Map.empty, tls_indices = []\<rparr>"

text \<open>
  The linker after \<^verbatim>\<open>link\<close> of an object with two dependencies: the first mapped by
  the loader itself (\<open>0x3000\<close> bytes), the second adopted from the host. One \<^verbatim>\<open>TlsIndex\<close>
  record has been allocated, and the cache holds the result for \<^verbatim>\<open>malloc\<close>.
\<close>

definition demo_dep_image :: ElfImage where
  "demo_dep_image = demo_image\<lparr>self := 0x6000, base := 0x7100000000,
                                  path := ''/system/lib64/libdep.so''\<rparr>"

definition demo_host_image :: ElfImage where
  "demo_host_image = demo_image\<lparr>self := 0x6800, base := 0x7F00000000,
                                   path := ''/system/lib64/libc.so''\<rparr>"

definition demo_linked :: Linker where
  "demo_linked =
     \<lparr>main_image = Some demo_image,
      deps = [\<lparr>dep_image = Some demo_dep_image, is_manual_load = True,
               map_base = 0x7100000000, map_size = 0x3000\<rparr>,
              \<lparr>dep_image = Some demo_host_image, is_manual_load = False,
               map_base = 0, map_size = 0\<rparr>],
      main_map_size = 0x5000, is_linked = True,
      symbol_cache = [''malloc'' \<mapsto> \<lparr>ce_address = 0x7300001000, ce_image = None, found = True\<rparr>],
      tls_indices = [0x7400000000]\<rparr>"

definition demo_linked_world :: World where
  "demo_linked_world =
     demo_world\<lparr>heap := [0x7400000000 \<mapsto> \<lparr>ti_module = 1, ti_offset = 8\<rparr>], n_new := 1\<rparr>"

text \<open>
  Images for the resolution order: two that define \<^verbatim>\<open>add\<close> as a weak function (entry 3
  with binding \<^verbatim>\<open>STB_WEAK\<close>), mapped at different bases, and one without any symbol
  table.
\<close>

definition demo_weak_syms :: "ElfSym list" where
  "demo_weak_syms = demo_syms[3 := (demo_syms ! 3)\<lparr>st_info := 0x22\<rparr>]"

definition demo_weak_image :: ElfImage where
  "demo_weak_image =
     demo_image\<lparr>self := 0x7000, base := 0x7200000000, path := ''/system/lib64/libweak.so'',
                 dynsym_start := Some (table_of demo_weak_syms null_sym),
                 symtab_start := Some (table_of demo_weak_syms null_sym)\<rparr>"

definition demo_weak_image2 :: ElfImage where
  "demo_weak_image2 =
     demo_weak_image\<lparr>self := 0x7800, base := 0x7300000000, path := ''/system/lib64/libweak2.so''\<rparr>"

definition demo_bare_image :: ElfImage where
  "demo_bare_image =
     demo_image\<lparr>self := 0x8000, base := 0x7400000000, path := ''/system/lib64/libbare.so'',
                 dynsym_start := None, strtab_start := None, nbucket := 0, gnu_nbucket := 0,
                 symtab_start := None, symtab_count := 0\<rparr>"

definition dep_of :: "ElfImage \<Rightarrow> LoadedDep" where
  "dep_of img = \<lparr>dep_image = Some img, is_manual_load = True, map_base = base img, map_size = 0x5000\<rparr>"

definition linker_weak_first :: Linker where
  "linker_weak_first =
     demo_linker\<lparr>main_image := Some demo_weak_image,
                  deps := [dep_of demo_weak_image2, dep_of demo_dep_image]\<rparr>"

definition linker_two_weak :: Linker where
  "linker_two_weak =
     demo_linker\<lparr>main_image := Some demo_bare_image,
                  deps := [dep_of demo_weak_image, dep_of demo_weak_image2]\<rparr>"



text \<open>
  An image that defines \<^verbatim>\<open>add\<close> with binding \<^verbatim>\<open>STB_LOCAL\<close> in the tables its hash
  sections index, and a linker that has it loaded after the two images with the weak
  definitions.
\<close>

definition demo_local_syms :: "ElfSym list" where
  "demo_local_syms = demo_syms[3 := (demo_syms ! 3)\<lparr>st_info := 0x02\<rparr>]"

definition demo_local_image :: ElfImage where
  "demo_local_image =
     demo_image\<lparr>self := 0x8800, base := 0x7500000000, path := ''/system/lib64/liblocal.so'',
                 dynsym_start := Some (table_of demo_local_syms null_sym),
                 symtab_start := Some (table_of demo_local_syms null_sym)\<rparr>"

definition linker_weak_local :: Linker where
  "linker_weak_local =
     demo_linker\<lparr>main_image := Some demo_weak_image,
                  deps := [dep_of demo_weak_image2, dep_of demo_local_image]\<rparr>"

text \<open>
  Memory for the RELR block, all zero but for six words: a RELR table of two entries at
  \<open>0x7000002000\<close> (the address \<open>0x4000\<close>, then the bitmap \<open>0xB\<close>), and four words of data
  from \<open>0x7000004000\<close> on.
\<close>

definition relr_demo_mem :: memory where
  "relr_demo_mem =
     foldl (\<lambda>mm (a, v). store64 mm a v) (\<lambda>a. 0)
       [(0x7000002000, 0x4000), (0x7000002008, 0xB),
        (0x7000004000, 0x1000), (0x7000004008, 0x2000), (0x7000004010, 0x3000),
        (0x7000004018, 0x4000)]"

text \<open>
  Two more libraries. \<^verbatim>\<open>libprovider.so\<close> has no hash section and defines \<^verbatim>\<open>missing_fn\<close> in
  its \<^verbatim>\<open>.symtab\<close> (a global function of 16 bytes at offset \<open>0x2000\<close>); the host has it
  loaded at \<open>0x7100000000\<close>. \<^verbatim>\<open>libfirst.so\<close> is like the small object, mapped elsewhere.
\<close>

definition demo_provider_syms :: "ElfSym list" where
  "demo_provider_syms =
     demo_syms[1 := \<lparr>st_name = 1, st_info = 0x12, st_other = 0, st_shndx = 12,
                     st_value = 0x2000, st_size = 0x10\<rparr>]"

definition demo_provider_image :: ElfImage where
  "demo_provider_image =
     demo_image\<lparr>self := 0x9000, base := 0x7100000000, path := ''/system/lib64/libprovider.so'',
                 nbucket := 0, gnu_nbucket := 0,
                 symtab_start := Some (table_of demo_provider_syms null_sym),
                 dynamic := None\<rparr>"

definition demo_provider_dep :: LoadedDep where
  "demo_provider_dep =
     \<lparr>dep_image = Some demo_provider_image, is_manual_load = False, map_base = 0, map_size = 0\<rparr>"

definition demo_first_image :: ElfImage where
  "demo_first_image =
     demo_image\<lparr>self := 0x4800, base := 0x6F00000000, path := ''/data/local/tmp/libfirst.so''\<rparr>"


chapter \<open>Properties\<close>

section \<open>The variable-length integer reader\<close>








text \<open>
  \<open>leb_groups\<close> is the little-endian combination bit by bit: bit \<open>n\<close> of the value is
  bit \<open>n mod 7\<close> of byte \<open>n div 7\<close>.
\<close>

lemma low7_is_mask: "(0x7F :: byte) = mask 7"
  by (simp add: mask_eq_exp_minus_1)

lemma bit_low7: "bit (ucast (b AND 0x7F :: byte) :: u64) k \<longleftrightarrow> k < 7 \<and> bit b k"
  by (auto simp: bit_ucast_iff bit_and_iff low7_is_mask bit_mask_iff)

lemma bit_leb_groups:
  "bit (leb_groups bs sh) n \<longleftrightarrow>
     n < 64 \<and> sh \<le> n \<and> (n - sh) div 7 < length bs
     \<and> bit (bs ! ((n - sh) div 7)) ((n - sh) mod 7)"
proof (induction bs arbitrary: sh)
  case Nil
  then show ?case by simp
next
  case (Cons b bs)
  show ?case
  proof (cases "n < sh + 7")
    case True
    then have "(n - sh) div 7 = 0" "(n - sh) mod 7 = n - sh" by simp_all
    with True show ?thesis
      by (auto simp: Cons.IH bit_or_iff bit_push_bit_iff bit_low7)
  next
    case False
    then have d: "(n - sh) div 7 = Suc ((n - (sh + 7)) div 7)"
      and m: "(n - sh) mod 7 = (n - (sh + 7)) mod 7"
      by (simp_all add: le_div_geq le_mod_geq)
    from False show ?thesis
      by (auto simp: Cons.IH bit_or_iff bit_push_bit_iff bit_low7 d m)
  qed
qed




section \<open>The TLS manager\<close>

subsection \<open>The address service\<close>








subsection \<open>The TLSDESC resolver\<close>


subsection \<open>Registration and unregistration\<close>

text \<open>Rounding up to a multiple of \<open>m + 1\<close> does not go below, as long as the sum fits.\<close>

lemma and_not_minus: "(y::u64) AND NOT m = y - (y AND m)"
proof -
  have a: "(y AND m) AND (y AND NOT m) = 0"
    by (rule bit_eqI) (auto simp: bit_and_iff bit_not_iff)
  have b: "(y AND m) OR (y AND NOT m) = y"
    by (rule bit_eqI) (auto simp: bit_and_iff bit_or_iff bit_not_iff dest: bit_imp_le_length)
  from word_plus_and_or [of "y AND m" "y AND NOT m"]
  have "y = (y AND m) + (y AND NOT m)" by (simp only: a b add_0)
  then show ?thesis by (metis add_diff_cancel_left')
qed

lemma align_up_ge:
  fixes x m :: u64
  assumes "unat x + unat m < 2 ^ 64"
  shows "x \<le> (x + m) AND NOT m"
proof -
  let ?y = "x + m"
  have uy: "unat ?y = unat x + unat m"
    using assms by (simp add: unat_add_lem [THEN iffD1])
  have e: "?y AND NOT m = ?y - (?y AND m)"
    by (rule and_not_minus)
  have le1: "?y AND m \<le> m" by (rule word_and_le1)
  have le2: "?y AND m \<le> ?y" by (rule word_and_le2)
  have "unat (?y - (?y AND m)) = unat ?y - unat (?y AND m)"
    using le2 by (simp add: unat_sub)
  moreover have "unat (?y AND m) \<le> unat m"
    using le1 by (simp add: word_le_nat_alt)
  ultimately have "unat x \<le> unat (?y - (?y AND m))"
    using uy by linarith
  then show ?thesis
    by (simp add: e word_le_nat_alt)
qed

lemma unregister_static_size: "static_size (unregisterSegment m p) = static_size m"
  by (simp add: unregisterSegment_def split: option.splits)

lemma unregister_static_align_max: "static_align_max (unregisterSegment m p) = static_align_max m"
  by (simp add: unregisterSegment_def split: option.splits)

lemma unregister_modules:
  "modules (unregisterSegment m p) i =
     (if first_slot (\<lambda>s. owner s = p) m = Some i then TlsModule_empty else modules m i)"
  by (auto simp: unregisterSegment_def split: option.splits)

lemma register_align_mono:
  "static_align_max m \<le> static_align_max (fst (snd (registerSegment m img)))"
  by (auto simp: registerSegment_def Let_def split: option.splits)

lemma register_size_mono:
  assumes "register_fits m img"
  shows "static_size m \<le> static_size (fst (snd (registerSegment m img)))"
proof (cases "tls_segment img")
  case None
  then show ?thesis by (simp add: registerSegment_def)
next
  case (Some seg)
  show ?thesis
  proof (cases "first_slot (\<lambda>s. module_id s = 0) m")
    case None
    with Some show ?thesis by (simp add: registerSegment_def)
  next
    case (Some k)
    define a where "a = (if p_align seg \<noteq> 0 then p_align seg else 1)"
    define aligned where "aligned = (static_size m + a - 1) AND NOT (a - 1)"
    from assms \<open>tls_segment img = Some seg\<close> Some
    have f1: "unat (static_size m) + unat (a - 1) < 2 ^ 64"
      and f2: "unat aligned + unat (p_memsz seg) < 2 ^ 64"
      by (simp_all add: register_fits_def Let_def a_def aligned_def)
    have "static_size m \<le> (static_size m + (a - 1)) AND NOT (a - 1)"
      using f1 by (rule align_up_ge)
    then have l1: "static_size m \<le> aligned"
      by (simp add: aligned_def add_diff_eq)
    have "unat (aligned + p_memsz seg) = unat aligned + unat (p_memsz seg)"
      using f2 by (simp add: unat_add_lem [THEN iffD1])
    then have l2: "aligned \<le> aligned + p_memsz seg"
      by (simp add: word_le_nat_alt)
    have "static_size (fst (snd (registerSegment m img))) = aligned + p_memsz seg"
      using \<open>tls_segment img = Some seg\<close> Some
      by (simp add: registerSegment_def Let_def a_def aligned_def)
    with l1 l2 show ?thesis by simp
  qed
qed

lemma tls_run_align_mono: "static_align_max m \<le> static_align_max (tls_run m cs)"
proof (induction cs arbitrary: m)
  case Nil
  show ?case by simp
next
  case (Cons c cs)
  show ?case
  proof (cases c)
    case (Register img)
    have "static_align_max m \<le> static_align_max (fst (snd (registerSegment m img)))"
      by (rule register_align_mono)
    also have "\<dots> \<le> static_align_max (tls_run (fst (snd (registerSegment m img))) cs)"
      by (rule Cons.IH)
    finally show ?thesis by (simp add: Register)
  next
    case (Unregister p)
    from Cons.IH [of "unregisterSegment m p"] show ?thesis
      by (simp add: Unregister unregister_static_align_max)
  qed
qed

lemma tls_run_size_mono: "tls_run_fits m cs \<Longrightarrow> static_size m \<le> static_size (tls_run m cs)"
proof (induction cs arbitrary: m)
  case Nil
  show ?case by simp
next
  case (Cons c cs)
  show ?case
  proof (cases c)
    case (Register img)
    with Cons.prems have f: "register_fits m img"
      and r: "tls_run_fits (fst (snd (registerSegment m img))) cs" by simp_all
    have "static_size m \<le> static_size (fst (snd (registerSegment m img)))"
      using f by (rule register_size_mono)
    also have "\<dots> \<le> static_size (tls_run (fst (snd (registerSegment m img))) cs)"
      using r by (rule Cons.IH)
    finally show ?thesis by (simp add: Register)
  next
    case (Unregister p)
    with Cons.prems have "tls_run_fits (unregisterSegment m p) cs" by simp
    from Cons.IH [OF this] show ?thesis
      by (simp add: Unregister unregister_static_size)
  qed
qed



text \<open>
  \<^bold>\<open>C10\<close>, as the code has it. \<^verbatim>\<open>unregisterSegment\<close> changes nothing but the first slot
  owned by the image, which becomes the empty slot (module id 0, so the next
  registration may take it); \<^verbatim>\<open>static_size_\<close>, \<^verbatim>\<open>static_align_max_\<close> and every other
  slot, its offset included, stay. Across any sequence of registrations and
  unregistrations the maximum alignment never decreases, and the static size never
  decreases as long as the size computations of the registrations stay within 64 bits.
\<close>

theorem tls_unregister_keeps_layout:
  "static_size (unregisterSegment m p) = static_size m
   \<and> static_align_max (unregisterSegment m p) = static_align_max m
   \<and> (\<forall>i. modules (unregisterSegment m p) i =
          (if first_slot (\<lambda>s. owner s = p) m = Some i then TlsModule_empty else modules m i))
   \<and> module_id TlsModule_empty = 0
   \<and> static_align_max m \<le> static_align_max (tls_run m cs)
   \<and> (tls_run_fits m cs \<longrightarrow> static_size m \<le> static_size (tls_run m cs))"
  by (simp add: unregister_static_size unregister_static_align_max unregister_modules
      tls_run_align_mono tls_run_size_mono TlsModule_empty_def)

text \<open>
  The theorem at a run that registers an image, unregisters it and registers it again:
  the second registration takes slot 1 again, and the block has grown from 0 to 56.
\<close>

theorem tls_unregister_keeps_layout_witness:
  "tls_run_fits TlsManager_init
     [Register tls_image_small, Unregister 0x2000, Register tls_image_small]
   \<and> static_size (tls_run TlsManager_init
        [Register tls_image_small, Unregister 0x2000, Register tls_image_small]) = 56
   \<and> static_size TlsManager_init
       \<le> static_size (tls_run TlsManager_init
            [Register tls_image_small, Unregister 0x2000, Register tls_image_small])"
proof -
  have f: "tls_run_fits TlsManager_init
     [Register tls_image_small, Unregister 0x2000, Register tls_image_small]"
    by (simp add: register_fits_def registerSegment_def unregisterSegment_def first_slot_def
        TlsManager_init_def TlsModule_empty_def MAX_TLS_MODULES_def tls_image_small_def
        Let_def upt_rec)
  have v: "static_size (tls_run TlsManager_init
        [Register tls_image_small, Unregister 0x2000, Register tls_image_small]) = 56"
    by (simp add: registerSegment_def unregisterSegment_def first_slot_def
        TlsManager_init_def TlsModule_empty_def MAX_TLS_MODULES_def tls_image_small_def
        Let_def upt_rec)
  from tls_unregister_keeps_layout [of TlsManager_init 0
      "[Register tls_image_small, Unregister 0x2000, Register tls_image_small]"] f v
  show ?thesis by simp
qed

text \<open>
  The claim as stated, for any sequence, fails where the size wraps: after an image
  whose \<^verbatim>\<open>PT_TLS\<close> declares \<open>2\<^sup>6\<^sup>4 - 1\<close> bytes, the registration of a second image
  leaves a static size of 24, below the size before it.
\<close>

theorem tls_static_size_wraps_counterexample:
  "static_size (tls_run TlsManager_init [Register tls_image_huge, Register tls_image_small])
     < static_size (tls_run TlsManager_init [Register tls_image_huge])
   \<and> static_size (tls_run TlsManager_init [Register tls_image_huge, Register tls_image_small]) = 24"
  by (simp add: registerSegment_def first_slot_def TlsManager_init_def TlsModule_empty_def
      MAX_TLS_MODULES_def tls_image_huge_def tls_image_small_def Let_def upt_rec)

section \<open>RELR relocations\<close>

subsection \<open>Reading and writing a word\<close>

text \<open>
  The eight bytes of a word put together give the word back, so a word that has been
  written is the word read at the same address; a write leaves the bytes outside its
  eight alone, and with them every word that lies eight bytes or more away in both
  directions.
\<close>

lemma bit_byte_at:
  fixes v :: u64
  assumes "k + 8 \<le> 64"
  shows "bit (push_bit k (ucast (ucast (drop_bit k v) :: byte)) :: u64) n
           \<longleftrightarrow> k \<le> n \<and> n < k + 8 \<and> bit v n"
  using assms by (auto simp: bit_push_bit_iff bit_ucast_iff bit_drop_bit_eq)

lemma bytes_of_word:
  fixes v :: u64
  shows "ucast (ucast v :: byte) OR push_bit 8 (ucast (ucast (drop_bit 8 v) :: byte))
     OR push_bit 16 (ucast (ucast (drop_bit 16 v) :: byte))
     OR push_bit 24 (ucast (ucast (drop_bit 24 v) :: byte))
     OR push_bit 32 (ucast (ucast (drop_bit 32 v) :: byte))
     OR push_bit 40 (ucast (ucast (drop_bit 40 v) :: byte))
     OR push_bit 48 (ucast (ucast (drop_bit 48 v) :: byte))
     OR push_bit 56 (ucast (ucast (drop_bit 56 v) :: byte)) = v"
proof (rule bit_eqI)
  fix n
  assume "possible_bit TYPE(u64) n"
  then have n: "n < 64" by simp
  have z: "bit (ucast (ucast v :: byte) :: u64) n \<longleftrightarrow> n < 8 \<and> bit v n"
    using bit_byte_at [of 0 v n] by simp
  have "bit (ucast (ucast v :: byte) OR push_bit 8 (ucast (ucast (drop_bit 8 v) :: byte))
     OR push_bit 16 (ucast (ucast (drop_bit 16 v) :: byte))
     OR push_bit 24 (ucast (ucast (drop_bit 24 v) :: byte))
     OR push_bit 32 (ucast (ucast (drop_bit 32 v) :: byte))
     OR push_bit 40 (ucast (ucast (drop_bit 40 v) :: byte))
     OR push_bit 48 (ucast (ucast (drop_bit 48 v) :: byte))
     OR push_bit 56 (ucast (ucast (drop_bit 56 v) :: byte)) :: u64) n
    \<longleftrightarrow> (n < 8 \<and> bit v n) \<or> (8 \<le> n \<and> n < 16 \<and> bit v n) \<or> (16 \<le> n \<and> n < 24 \<and> bit v n)
        \<or> (24 \<le> n \<and> n < 32 \<and> bit v n) \<or> (32 \<le> n \<and> n < 40 \<and> bit v n)
        \<or> (40 \<le> n \<and> n < 48 \<and> bit v n) \<or> (48 \<le> n \<and> n < 56 \<and> bit v n)
        \<or> (56 \<le> n \<and> n < 64 \<and> bit v n)"
    by (simp only: bit_or_iff z bit_byte_at [of 8] bit_byte_at [of 16] bit_byte_at [of 24]
        bit_byte_at [of 32] bit_byte_at [of 40] bit_byte_at [of 48] bit_byte_at [of 56]) simp
  also have "\<dots> \<longleftrightarrow> bit v n" using n by linarith
  finally show "bit (ucast (ucast v :: byte) OR push_bit 8 (ucast (ucast (drop_bit 8 v) :: byte))
     OR push_bit 16 (ucast (ucast (drop_bit 16 v) :: byte))
     OR push_bit 24 (ucast (ucast (drop_bit 24 v) :: byte))
     OR push_bit 32 (ucast (ucast (drop_bit 32 v) :: byte))
     OR push_bit 40 (ucast (ucast (drop_bit 40 v) :: byte))
     OR push_bit 48 (ucast (ucast (drop_bit 48 v) :: byte))
     OR push_bit 56 (ucast (ucast (drop_bit 56 v) :: byte)) :: u64) n \<longleftrightarrow> bit v n" .
qed

lemma apart_byte:
  fixes d c :: u64
  assumes "8 \<le> d" and "d \<le> 0xFFFFFFFFFFFFFFF8" and "c < 8"
  shows "8 \<le> d + c"
proof -
  from assms have a: "8 \<le> unat d" "unat d \<le> 18446744073709551608" "unat c < 8"
    by (simp_all add: word_le_nat_alt word_less_nat_alt)
  then have "unat d + unat c < 2 ^ LENGTH(64)" by simp
  then have "unat (d + c) = unat d + unat c" by (simp only: unat_add_lem)
  with a show ?thesis by (simp add: word_le_nat_alt)
qed

lemma store64_outside: "8 \<le> x - a \<Longrightarrow> store64 mm a v x = mm x"
  by (simp add: store64_def not_less [symmetric])

lemma store64_byte:
  "store64 mm a v a = ucast v"
  "store64 mm a v (a + 1) = ucast (drop_bit 8 v)"
  "store64 mm a v (a + 2) = ucast (drop_bit 16 v)"
  "store64 mm a v (a + 3) = ucast (drop_bit 24 v)"
  "store64 mm a v (a + 4) = ucast (drop_bit 32 v)"
  "store64 mm a v (a + 5) = ucast (drop_bit 40 v)"
  "store64 mm a v (a + 6) = ucast (drop_bit 48 v)"
  "store64 mm a v (a + 7) = ucast (drop_bit 56 v)"
  by (simp_all add: store64_def)

lemma load64_store64_same: "load64 (store64 mm a v) a = v"
  by (simp only: load64_def store64_byte bytes_of_word)

lemma load64_cong:
  assumes "\<And>c. c < 8 \<Longrightarrow> m1 (b + c) = m2 (b + c)"
  shows "load64 m1 b = load64 m2 b"
  using assms [of 0] assms [of 1] assms [of 2] assms [of 3] assms [of 4] assms [of 5]
    assms [of 6] assms [of 7]
  by (simp add: load64_def)

lemma load64_store64_apart:
  assumes "8 \<le> b - a" and "b - a \<le> 0xFFFFFFFFFFFFFFF8"
  shows "load64 (store64 mm a v) b = load64 mm b"
proof (rule load64_cong)
  fix c :: u64
  assume "c < 8"
  from apart_byte [OF assms this] have "8 \<le> b + c - a" by (simp add: algebra_simps)
  then show "store64 mm a v (b + c) = mm (b + c)" by (rule store64_outside)
qed

lemma unat_small: "n < 504 \<Longrightarrow> unat (of_nat n :: u64) = n"
  by (simp add: unat_of_nat)

lemma small_distance:
  fixes n :: nat
  assumes "8 \<le> n" and "n < 504"
  shows "8 \<le> (of_nat n :: u64) \<and> (of_nat n :: u64) \<le> 0xFFFFFFFFFFFFFFF8
         \<and> 8 \<le> - (of_nat n :: u64) \<and> - (of_nat n :: u64) \<le> 0xFFFFFFFFFFFFFFF8"
proof -
  from assms have u: "unat (of_nat n :: u64) = n" by (simp add: unat_small)
  have "unat (0 - (of_nat n :: u64)) = 2 ^ 64 - n"
    using assms by (simp only: unat_sub_if' u) simp
  then have m: "unat (- (of_nat n :: u64)) = 2 ^ 64 - n" by simp
  from assms have "8 \<le> (18446744073709551616 :: nat) - n
                   \<and> (18446744073709551616 :: nat) - n \<le> 18446744073709551608"
    by linarith
  with assms u m show ?thesis
    by (simp add: word_le_nat_alt)
qed

lemma window_distance:
  assumes "j < 63" and "k < 63" and "j \<noteq> k"
  shows "8 \<le> (s + of_nat k * 8) - (s + of_nat j * 8 :: u64)
         \<and> (s + of_nat k * 8) - (s + of_nat j * 8 :: u64) \<le> 0xFFFFFFFFFFFFFFF8"
proof (cases "j < k")
  case True
  define n where "n = (k - j) * 8"
  have "(s + of_nat k * 8) - (s + of_nat j * 8 :: u64) = of_nat n"
    using True by (simp add: n_def of_nat_diff algebra_simps)
  moreover have "8 \<le> n" "n < 504" using True assms by (simp_all add: n_def)
  ultimately show ?thesis using small_distance [of n] by simp
next
  case False
  with assms have lt: "k < j" by simp
  define n where "n = (j - k) * 8"
  have "(s + of_nat k * 8) - (s + of_nat j * 8 :: u64) = - of_nat n"
    using lt by (simp add: n_def of_nat_diff algebra_simps)
  moreover have "8 \<le> n" "n < 504" using lt assms by (simp_all add: n_def)
  ultimately show ?thesis using small_distance [of n] by simp
qed

subsection \<open>The bitmap loop\<close>

text \<open>
  The 63 words of a bitmap entry do not overlap one another. The loop leaves every
  byte outside the words it still has to visit, and adds the load bias to word \<open>k\<close>
  exactly when bit \<open>k - bitno\<close> of what is left of the bitmap is set.
\<close>

lemma window_byte_outside:
  assumes "j < 63" and "k < 63" and "j \<noteq> k" and "c < 8"
  shows "8 \<le> (s + of_nat k * 8 + c) - (s + of_nat j * 8 :: u64)"
proof -
  from window_distance [OF assms(1-3), of s] apart_byte [OF _ _ assms(4)]
  have "8 \<le> (s + of_nat k * 8) - (s + of_nat j * 8 :: u64) + c" by blast
  then show ?thesis by (simp add: algebra_simps)
qed

lemma outside_range:
  fixes x s :: u64
  assumes "504 \<le> x - s" and "k < 63"
  shows "8 \<le> x - (s + of_nat k * 8)"
proof -
  define n where "n = k * 8"
  from assms(2) have n: "n \<le> 496" by (simp add: n_def)
  then have u: "unat (of_nat n :: u64) = n" by (simp add: unat_small)
  from assms(1) have x: "504 \<le> unat (x - s)" by (simp add: word_le_nat_alt)
  with n u have le: "(of_nat n :: u64) \<le> x - s" by (simp add: word_le_nat_alt)
  have "x - (s + of_nat k * 8) = (x - s) - of_nat n" by (simp add: n_def)
  moreover from unat_sub [OF le] u have "unat ((x - s) - of_nat n) = unat (x - s) - n" by simp
  ultimately have "unat (x - (s + of_nat k * 8)) = unat (x - s) - n" by (simp only:)
  with x n show ?thesis by (simp add: word_le_nat_alt)
qed

lemma relr_bitmap_outside:
  "(\<And>k. bitno \<le> k \<Longrightarrow> k < 63 \<Longrightarrow> 8 \<le> x - (lb + bo + of_nat k * 8))
   \<Longrightarrow> relr_bitmap lb bo mm bitmap bitno x = mm x"
proof (induction lb bo mm bitmap bitno rule: relr_bitmap.induct)
  case (1 lb bo mm bitmap bitno)
  show ?case
  proof (cases "bitmap \<noteq> 0 \<and> bitno < 63")
    case False
    then have "relr_bitmap lb bo mm bitmap bitno = mm"
      by (subst relr_bitmap.simps) (simp only: if_False)
    then show ?thesis by simp
  next
    case True
    let ?mm1 = "if bitmap AND 1 \<noteq> 0
                then add_load_bias lb mm (lb + bo + of_nat bitno * 8) else mm"
    from True have "relr_bitmap lb bo mm bitmap bitno x
                    = relr_bitmap lb bo ?mm1 (drop_bit 1 bitmap) (Suc bitno) x"
      by (subst relr_bitmap.simps) simp
    also have "\<dots> = ?mm1 x"
      using True "1.prems" by (intro "1.IH") simp_all
    also have "\<dots> = mm x"
      using True "1.prems" [of bitno] by (simp add: add_load_bias_def store64_outside)
    finally show ?thesis .
  qed
qed

lemma relr_bitmap_window:
  "bitno \<le> k \<Longrightarrow> k < 63 \<Longrightarrow>
   load64 (relr_bitmap lb bo mm bitmap bitno) (lb + bo + of_nat k * 8)
     = load64 mm (lb + bo + of_nat k * 8) + (if bit bitmap (k - bitno) then lb else 0)"
proof (induction lb bo mm bitmap bitno rule: relr_bitmap.induct)
  case (1 lb bo mm bitmap bitno)
  show ?case
  proof (cases "bitmap \<noteq> 0")
    case False
    then have "relr_bitmap lb bo mm bitmap bitno = mm"
      by (subst relr_bitmap.simps) simp
    with False show ?thesis by simp
  next
    case True
    with "1.prems" have c: "bitmap \<noteq> 0 \<and> bitno < 63" by simp
    let ?w = "lb + bo + of_nat bitno * 8"
    let ?mm1 = "if bitmap AND 1 \<noteq> 0 then add_load_bias lb mm ?w else mm"
    have b0: "bitmap AND 1 \<noteq> 0 \<longleftrightarrow> bit bitmap 0"
      by (simp add: and_one_eq bit_0 mod_2_eq_odd)
    from c have unfold: "relr_bitmap lb bo mm bitmap bitno
                    = relr_bitmap lb bo ?mm1 (drop_bit 1 bitmap) (Suc bitno)"
      by (subst relr_bitmap.simps) simp
    show ?thesis
    proof (cases "k = bitno")
      case True
      have "load64 (relr_bitmap lb bo ?mm1 (drop_bit 1 bitmap) (Suc bitno)) ?w = load64 ?mm1 ?w"
      proof (rule load64_cong)
        fix cc :: u64
        assume cc: "cc < 8"
        show "relr_bitmap lb bo ?mm1 (drop_bit 1 bitmap) (Suc bitno) (?w + cc) = ?mm1 (?w + cc)"
        proof (rule relr_bitmap_outside)
          fix k'
          assume "Suc bitno \<le> k'" and "k' < 63"
          with c have "k' < 63" "bitno < 63" "k' \<noteq> bitno" by simp_all
          from window_byte_outside [OF this cc, of "lb + bo"]
          show "8 \<le> ?w + cc - (lb + bo + of_nat k' * 8)" .
        qed
      qed
      also have "\<dots> = load64 mm ?w + (if bit bitmap 0 then lb else 0)"
        by (simp add: b0 add_load_bias_def load64_store64_same)
      finally show ?thesis using True unfold by simp
    next
      case False
      with "1.prems" have lt: "Suc bitno \<le> k" by simp
      let ?wk = "lb + bo + of_nat k * 8"
      from "1.IH" [OF c lt "1.prems"(2)]
      have "load64 (relr_bitmap lb bo ?mm1 (drop_bit 1 bitmap) (Suc bitno)) ?wk
              = load64 ?mm1 ?wk + (if bit (drop_bit 1 bitmap) (k - Suc bitno) then lb else 0)" .
      moreover have "bit (drop_bit 1 bitmap) (k - Suc bitno) \<longleftrightarrow> bit bitmap (k - bitno)"
        using lt by (simp add: bit_drop_bit_eq Suc_diff_Suc)
      moreover have "load64 ?mm1 ?wk = load64 mm ?wk"
      proof -
        from c "1.prems"(2) False have "bitno < 63" "k < 63" "bitno \<noteq> k" by simp_all
        from window_distance [OF this, of "lb + bo"] show ?thesis
          by (simp add: add_load_bias_def load64_store64_apart)
      qed
      ultimately show ?thesis using unfold by simp
    qed
  qed
qed

subsection \<open>Entries and the table\<close>

lemma relr_loop_snoc:
  "relr_loop lb tab i (Suc n) st =
     relr_entry lb (relr_loop lb tab i n st)
       (load64 (fst (relr_loop lb tab i n st)) (tab + of_nat (i + n) * 8))"
proof (induction n arbitrary: i st)
  case 0
  show ?case by simp
next
  case (Suc n)
  have "relr_loop lb tab i (Suc (Suc n)) st
          = relr_loop lb tab (Suc i) (Suc n) (relr_entry lb st (load64 (fst st) (tab + of_nat i * 8)))"
    by simp
  also have "\<dots> = relr_entry lb
                     (relr_loop lb tab (Suc i) n (relr_entry lb st (load64 (fst st) (tab + of_nat i * 8))))
                     (load64 (fst (relr_loop lb tab (Suc i) n
                                     (relr_entry lb st (load64 (fst st) (tab + of_nat i * 8)))))
                        (tab + of_nat (Suc i + n) * 8))"
    by (rule Suc.IH)
  also have "relr_loop lb tab (Suc i) n (relr_entry lb st (load64 (fst st) (tab + of_nat i * 8)))
               = relr_loop lb tab i (Suc n) st"
    by simp
  finally show ?case by (simp only: add_Suc add_Suc_right)
qed

lemma relr_address_entry:
  assumes "entry AND 1 = 0"
  shows "snd (relr_entry lb (m, bo) entry) = entry + 8"
    and "load64 (fst (relr_entry lb (m, bo) entry)) (lb + entry) = load64 m (lb + entry) + lb"
    and "8 \<le> x - (lb + entry) \<Longrightarrow> fst (relr_entry lb (m, bo) entry) x = m x"
  using assms
  by (simp_all add: relr_entry_def add_load_bias_def load64_store64_same store64_outside)

lemma relr_bitmap_entry:
  assumes "entry AND 1 \<noteq> 0"
  shows "snd (relr_entry lb (m, bo) entry) = bo + 504"
    and "k < 63 \<Longrightarrow> load64 (fst (relr_entry lb (m, bo) entry)) (lb + bo + of_nat k * 8)
             = load64 m (lb + bo + of_nat k * 8) + (if bit entry (k + 1) then lb else 0)"
    and "504 \<le> x - (lb + bo) \<Longrightarrow> fst (relr_entry lb (m, bo) entry) x = m x"
proof -
  from assms show "snd (relr_entry lb (m, bo) entry) = bo + 504"
    by (simp add: relr_entry_def)
  have f: "fst (relr_entry lb (m, bo) entry) = relr_bitmap lb bo m (drop_bit 1 entry) 0"
    using assms by (simp add: relr_entry_def)
  show "load64 (fst (relr_entry lb (m, bo) entry)) (lb + bo + of_nat k * 8)
             = load64 m (lb + bo + of_nat k * 8) + (if bit entry (k + 1) then lb else 0)"
    if "k < 63"
    unfolding f using relr_bitmap_window [of 0 k lb bo m "drop_bit 1 entry"] that
    by (simp add: bit_drop_bit_eq)
  show "fst (relr_entry lb (m, bo) entry) x = m x" if "504 \<le> x - (lb + bo)"
    unfolding f using outside_range [OF that] by (intro relr_bitmap_outside) simp
qed

text \<open>
  \<^bold>\<open>C8.\<close> RELR processing, entry by entry. The block does nothing for a null table or
  a size of zero; otherwise it runs \<open>sz div 8\<close> entries from \<^verbatim>\<open>base_offset = 0\<close>, and
  the state after \<open>n + 1\<close> entries is the state after \<open>n\<close> entries taken through entry
  \<open>n\<close>, read at \<open>tab + 8 * n\<close> from the memory that the entries before it have left.
  One entry is interpreted by its low bit.
  \<^item> Even: the entry is an address. The word at \<open>load_bias + entry\<close> gets \<open>load_bias\<close>
    added, the bytes outside this word stay, and the base becomes \<open>entry + 8\<close>, the word
    after it.
  \<^item> Odd: the entry is a bitmap. For \<open>k < 63\<close>, word \<open>k\<close> counted from the base (at
    \<open>load_bias + base + 8 * k\<close>) gets \<open>load_bias\<close> added when bit \<open>k + 1\<close> of the entry is
    set and keeps its value when it is not; the bytes outside these 63 words stay; and
    the base advances by \<open>63 * 8 = 504\<close> bytes whatever the bits are.
\<close>

theorem relr_spec:
  "process_relr lb None sz mm = mm
   \<and> process_relr lb (Some tab) 0 mm = mm
   \<and> (sz \<noteq> 0 \<longrightarrow>
        process_relr lb (Some tab) sz mm
          = fst (relr_loop lb tab 0 (unat (sz div 8)) (mm, 0)))
   \<and> relr_loop lb tab 0 0 (mm, 0) = (mm, 0)
   \<and> relr_loop lb tab 0 (Suc n) (mm, 0)
       = relr_entry lb (relr_loop lb tab 0 n (mm, 0))
           (load64 (fst (relr_loop lb tab 0 n (mm, 0))) (tab + of_nat n * 8))
   \<and> (entry AND 1 = 0 \<longrightarrow>
        snd (relr_entry lb (m, bo) entry) = entry + 8
        \<and> load64 (fst (relr_entry lb (m, bo) entry)) (lb + entry) = load64 m (lb + entry) + lb
        \<and> (\<forall>x. 8 \<le> x - (lb + entry) \<longrightarrow> fst (relr_entry lb (m, bo) entry) x = m x))
   \<and> (entry AND 1 \<noteq> 0 \<longrightarrow>
        snd (relr_entry lb (m, bo) entry) = bo + 504
        \<and> (\<forall>k<63. load64 (fst (relr_entry lb (m, bo) entry)) (lb + bo + of_nat k * 8)
                     = load64 m (lb + bo + of_nat k * 8) + (if bit entry (k + 1) then lb else 0))
        \<and> (\<forall>x. 504 \<le> x - (lb + bo) \<longrightarrow> fst (relr_entry lb (m, bo) entry) x = m x))"
proof (intro conjI impI allI)
  show "process_relr lb None sz mm = mm" by (simp add: process_relr_def)
  show "process_relr lb (Some tab) 0 mm = mm" by (simp add: process_relr_def)
  show "process_relr lb (Some tab) sz mm
          = fst (relr_loop lb tab 0 (unat (sz div 8)) (mm, 0))" if "sz \<noteq> 0"
    using that by (simp add: process_relr_def)
  show "relr_loop lb tab 0 0 (mm, 0) = (mm, 0)" by simp
  show "relr_loop lb tab 0 (Suc n) (mm, 0)
       = relr_entry lb (relr_loop lb tab 0 n (mm, 0))
           (load64 (fst (relr_loop lb tab 0 n (mm, 0))) (tab + of_nat n * 8))"
    using relr_loop_snoc [of lb tab 0 n "(mm, 0)"] by (simp only: add_0)
qed (simp_all add: relr_address_entry relr_bitmap_entry)

text \<open>
  A table of two entries at \<open>0x7000002000\<close>, the address \<open>0x4000\<close> and the bitmap \<open>0xB\<close>
  (bits 1 and 3: words 0 and 2 from the base), with load bias \<open>0x7000000000\<close>: the words
  at \<open>0x4000\<close>, \<open>0x4008\<close> and \<open>0x4018\<close> of the image get the load bias added, the word at
  \<open>0x4010\<close> keeps its value.
\<close>

lemma relr_demo_loads:
  "load64 relr_demo_mem 0x7000004000 = 0x1000"
  "load64 relr_demo_mem 0x7000004008 = 0x2000"
  "load64 relr_demo_mem 0x7000004010 = 0x3000"
  "load64 relr_demo_mem 0x7000004018 = 0x4000"
  by code_simp+

lemma relr_demo_bits:
  "(0x4000 :: u64) AND 1 = 0" "(0xB :: u64) AND 1 \<noteq> 0"
  "bit (0xB :: u64) (0 + 1)" "\<not> bit (0xB :: u64) (1 + 1)" "bit (0xB :: u64) (2 + 1)"
  by code_simp+

lemma relr_demo_loop:
  "load64 (fst (relr_loop 0x7000000000 0x7000002000 0 2 (relr_demo_mem, 0))) 0x7000004000
     = 0x7000001000"
  "load64 (fst (relr_loop 0x7000000000 0x7000002000 0 2 (relr_demo_mem, 0))) 0x7000004018
     = 0x7000004000"
  by code_simp+

theorem relr_spec_witness:
  "snd (relr_entry 0x7000000000 (relr_demo_mem, 0) 0x4000) = 0x4008
   \<and> load64 (fst (relr_entry 0x7000000000 (relr_demo_mem, 0) 0x4000)) 0x7000004000
       = 0x7000001000
   \<and> snd (relr_entry 0x7000000000 (relr_demo_mem, 0x4008) 0xB) = 0x4200
   \<and> load64 (fst (relr_entry 0x7000000000 (relr_demo_mem, 0x4008) 0xB)) 0x7000004008
       = 0x7000002000
   \<and> load64 (fst (relr_entry 0x7000000000 (relr_demo_mem, 0x4008) 0xB)) 0x7000004010 = 0x3000
   \<and> load64 (fst (relr_entry 0x7000000000 (relr_demo_mem, 0x4008) 0xB)) 0x7000004018
       = 0x7000004000
   \<and> load64 (process_relr 0x7000000000 (Some 0x7000002000) 16 relr_demo_mem) 0x7000004000
       = 0x7000001000
   \<and> load64 (process_relr 0x7000000000 (Some 0x7000002000) 16 relr_demo_mem) 0x7000004018
       = 0x7000004000"
proof -
  note a = relr_spec [where lb = "0x7000000000" and m = relr_demo_mem and bo = 0
      and entry = "0x4000" and tab = "0x7000002000" and sz = 16 and mm = relr_demo_mem]
  note b = relr_spec [where lb = "0x7000000000" and m = relr_demo_mem and bo = "0x4008"
      and entry = "0xB"]
  from a relr_demo_bits(1)
  have a1: "snd (relr_entry 0x7000000000 (relr_demo_mem, 0) 0x4000) = 0x4008"
    and a2: "load64 (fst (relr_entry 0x7000000000 (relr_demo_mem, 0) 0x4000)) 0x7000004000
               = 0x7000001000"
    by (simp_all add: relr_demo_loads)
  from b relr_demo_bits(2)
  have b0: "snd (relr_entry 0x7000000000 (relr_demo_mem, 0x4008) 0xB) = 0x4200"
    and w: "\<forall>k<63. load64 (fst (relr_entry 0x7000000000 (relr_demo_mem, 0x4008) 0xB))
                        (0x7000000000 + 0x4008 + of_nat k * 8)
                     = load64 relr_demo_mem (0x7000000000 + 0x4008 + of_nat k * 8)
                       + (if bit (0xB :: u64) (k + 1) then 0x7000000000 else 0)"
    by simp_all
  from w [rule_format, of 0] relr_demo_bits(3)
  have b1: "load64 (fst (relr_entry 0x7000000000 (relr_demo_mem, 0x4008) 0xB)) 0x7000004008
              = 0x7000002000"
    by (simp add: relr_demo_loads)
  from w [rule_format, of 1] relr_demo_bits(4)
  have b2: "load64 (fst (relr_entry 0x7000000000 (relr_demo_mem, 0x4008) 0xB)) 0x7000004010
              = 0x3000"
    by (simp add: relr_demo_loads)
  from w [rule_format, of 2] relr_demo_bits(5)
  have b3: "load64 (fst (relr_entry 0x7000000000 (relr_demo_mem, 0x4008) 0xB)) 0x7000004018
              = 0x7000004000"
    by (simp add: relr_demo_loads)
  from a have "process_relr 0x7000000000 (Some 0x7000002000) 16 relr_demo_mem
                 = fst (relr_loop 0x7000000000 0x7000002000 0 (unat ((16 :: u64) div 8))
                          (relr_demo_mem, 0))"
    by simp
  moreover have "unat ((16 :: u64) div 8) = 2" by simp
  ultimately have p: "process_relr 0x7000000000 (Some 0x7000002000) 16 relr_demo_mem
                 = fst (relr_loop 0x7000000000 0x7000002000 0 2 (relr_demo_mem, 0))"
    by (simp only:)
  from a1 a2 b0 b1 b2 b3 show ?thesis
    by (simp only: p relr_demo_loop simp_thms)
qed

text \<open>
  Two address entries four bytes apart: the second read sees the bytes that the first
  write has left, and its write changes the upper half of the first word.
\<close>

lemma relr_overlapping_entries:
  "load64 (fst (relr_entry 0x7000000000
                  (relr_entry 0x7000000000 (\<lambda>a. if a < 0x7000004008 then 0x11 else 0x44, 0) 0x4000)
                  0x4004)) 0x7000004004 = 0x444444B411111181"
  by code_simp

section \<open>The symbol lookups of an image\<close>

text \<open>
  Each walk returns the offset of a definition of the name once its table leads to
  one, when all definitions of the name carry the same offset: the GNU chain walk from
  the bucket's first entry, the ELF chain walk (which then returns), and the search of
  the linear scan.
\<close>

lemma gnu_walk_finds:
  assumes "b \<le> i" and "i < cnt" 
    and "\<forall>j. b \<le> j \<and> j < i \<longrightarrow> chn (j - symndx) AND 1 = 0"
    and "drop_bit 1 (chn (i - symndx) XOR h) = 0"
    and "name = cstr strtab (unat (st_name (dynsym i)))" and "st_shndx (dynsym i) \<noteq> SHN_UNDEF"
    and "\<forall>j. name = cstr strtab (unat (st_name (dynsym j))) \<and> st_shndx (dynsym j) \<noteq> SHN_UNDEF
           \<longrightarrow> st_value (dynsym j) = v"
  shows "\<exists>r. gnu_chain_walk chn dynsym strtab symndx cnt name h b = Some r \<and> fst r = v"
  using assms(1,3)
proof (induction "i - b" arbitrary: b)
  case 0
  then have "b = i" by simp
  with assms(2,4,5,6,7) show ?case
    by (subst gnu_chain_walk.simps) (simp add: sym_hit_def)
next
  case (Suc d)
  then have lt: "b < i" by simp
  with assms(2) have bc: "b < cnt" by simp
  show ?case
  proof (cases "drop_bit 1 (chn (b - symndx) XOR h) = 0
                 \<and> name = cstr strtab (unat (st_name (dynsym b)))
                 \<and> st_shndx (dynsym b) \<noteq> SHN_UNDEF")
    case True
    with assms(7) have "st_value (dynsym b) = v" by blast
    with True bc show ?thesis
      by (subst gnu_chain_walk.simps) (simp add: sym_hit_def)
  next
    case False
    from Suc.prems(2) lt have nb: "chn (b - symndx) AND 1 = 0" by simp
    have "d = i - Suc b" using Suc.hyps(2) by simp
    moreover have "Suc b \<le> i" using lt by simp
    moreover have "\<forall>j. Suc b \<le> j \<and> j < i \<longrightarrow> chn (j - symndx) AND 1 = 0"
      using Suc.prems(2) by simp
    ultimately obtain r where
      "gnu_chain_walk chn dynsym strtab symndx cnt name h (Suc b) = Some r \<and> fst r = v"
      using Suc.hyps(1) by blast
    moreover have "gnu_chain_walk chn dynsym strtab symndx cnt name h b
                   = gnu_chain_walk chn dynsym strtab symndx cnt name h (Suc b)"
      using False nb bc by (subst gnu_chain_walk.simps) (auto simp: Let_def)
    ultimately show ?thesis by simp
  qed
qed

lemma elf_walk_finds:
  assumes "name = cstr strtab (unat (st_name (dynsym i)))" and "st_shndx (dynsym i) \<noteq> SHN_UNDEF"
    and "\<forall>j. name = cstr strtab (unat (st_name (dynsym j))) \<and> st_shndx (dynsym j) \<noteq> SHN_UNDEF
           \<longrightarrow> st_value (dynsym j) = v"
  shows "elf_reaches chn fuel n i \<Longrightarrow>
         \<exists>r. elf_chain_walk chn dynsym strtab name n = Some (Some r) \<and> fst r = v"
proof (induction fuel arbitrary: n)
  case 0
  then show ?case by simp
next
  case (Suc fuel)
  then have n0: "n \<noteq> STN_UNDEF" and step: "unat n = i \<or> elf_reaches chn fuel (chn (unat n)) i"
    by simp_all
  show ?case
  proof (cases "name = cstr strtab (unat (st_name (dynsym (unat n))))
                 \<and> st_shndx (dynsym (unat n)) \<noteq> SHN_UNDEF")
    case True
    with assms(3) have "st_value (dynsym (unat n)) = v" by blast
    with True n0 show ?thesis
      by (subst elf_chain_walk.simps) (simp add: sym_hit_def)
  next
    case False
    with assms(1,2) have "unat n \<noteq> i" by auto
    with step have "elf_reaches chn fuel (chn (unat n)) i" by simp
    from Suc.IH [OF this] obtain r where
      "elf_chain_walk chn dynsym strtab name (chn (unat n)) = Some (Some r) \<and> fst r = v" by blast
    moreover have "elf_chain_walk chn dynsym strtab name n
                   = elf_chain_walk chn dynsym strtab name (chn (unat n))"
      using False n0 by (subst elf_chain_walk.simps) auto
    ultimately show ?thesis by simp
  qed
qed

lemma find_first_value:
  assumes "k < length xs" and "P (xs ! k)" and "\<forall>x\<in>set xs. P x \<longrightarrow> f x = v"
  shows "\<exists>x. find P xs = Some x \<and> f x = v"
proof -
  from assms(1) have "xs ! k \<in> set xs" by (rule nth_mem)
  with assms(2) have "\<exists>x\<in>set xs. P x" by blast
  then obtain x where x: "find P xs = Some x"
    by (cases "find P xs") (auto simp: find_None_iff)
  then have "P x \<and> x \<in> set xs"
    by (auto simp: find_Some_iff)
  with assms(3) x show ?thesis by auto
qed


lemma gnuHashLookup_finds:
  assumes d: "dyn_defines img name i"
    and u: "\<forall>j. dyn_defines img name j \<longrightarrow> st_value (the (dynsym_start img) j) = v"
    and g: "gnu_indexes img h i"
  shows "\<exists>r. gnuHashLookup img name h = Some r \<and> fst r = v"
proof -
  let ?b = "the (gnu_bucket img) (unat (h mod gnu_nbucket img))"
  let ?cnt = "unat (ucast (dynsym_sh_size img div dynsym_sh_entsize img) :: u32)"
  let ?chn = "the (gnu_chain img)"
  let ?symndx = "unat (gnu_symndx img)"
  from g have present: "\<not> (gnu_nbucket img = 0 \<or> gnu_bloom_filter img = None \<or> gnu_bucket img = None
         \<or> gnu_chain img = None \<or> dynsym_start img = None \<or> strtab_start img = None)"
    and bloom: "(let mask = push_bit (unat (h mod 64)) (1 :: u64)
                      OR push_bit (unat (drop_bit (unat (gnu_shift2 img mod 32)) h mod 64)) 1
         in the (gnu_bloom_filter img)
              (unat (((ucast h :: u64) div 64) mod ucast (gnu_bloom_size img))) AND mask = mask)"
    and b1: "gnu_symndx img \<le> ?b" and b2: "unat ?b \<le> i" and b3: "i < ?cnt"
    and b4: "list_all (\<lambda>j. ?chn (j - ?symndx) AND 1 = 0) [unat ?b..<i]"
    and b5: "drop_bit 1 (?chn (i - ?symndx) XOR h) = 0"
    by (simp_all add: gnu_indexes_def Let_def)
  from b4 have b4': "\<forall>j. unat ?b \<le> j \<and> j < i \<longrightarrow> ?chn (j - ?symndx) AND 1 = 0"
    by (simp add: list_all_iff)
  from d have d1: "name = cstr (the (strtab_start img)) (unat (st_name (the (dynsym_start img) i)))"
    and d2: "st_shndx (the (dynsym_start img) i) \<noteq> SHN_UNDEF"
    by (simp_all add: dyn_defines_def)
  from u have u': "\<forall>j. name = cstr (the (strtab_start img)) (unat (st_name (the (dynsym_start img) j)))
        \<and> st_shndx (the (dynsym_start img) j) \<noteq> SHN_UNDEF \<longrightarrow> st_value (the (dynsym_start img) j) = v"
    by (simp add: dyn_defines_def)
  from gnu_walk_finds [OF b2 b3 b4' b5 d1 d2 u']
  obtain r where r: "gnu_chain_walk ?chn (the (dynsym_start img)) (the (strtab_start img))
                        ?symndx ?cnt name h (unat ?b) = Some r \<and> fst r = v" by blast
  have "gnuHashLookup img name h =
          gnu_chain_walk ?chn (the (dynsym_start img)) (the (strtab_start img))
                        ?symndx ?cnt name h (unat ?b)"
  proof -
    have nb1: "\<not> ?b < gnu_symndx img" using b1 by (simp add: not_less)
    from bloom have bloom': "the (gnu_bloom_filter img)
              (unat (((ucast h :: u64) div 64) mod ucast (gnu_bloom_size img)))
            AND (push_bit (unat (h mod 64)) (1 :: u64)
                 OR push_bit (unat (drop_bit (unat (gnu_shift2 img mod 32)) h mod 64)) 1)
          = (push_bit (unat (h mod 64)) (1 :: u64)
                 OR push_bit (unat (drop_bit (unat (gnu_shift2 img mod 32)) h mod 64)) 1)"
      by (simp only: Let_def)
    show ?thesis
      by (simp only: gnuHashLookup_def Let_def present bloom' nb1 if_False simp_thms)
  qed
  with r show ?thesis by simp
qed

lemma elfHashLookup_finds:
  assumes d: "dyn_defines img name i"
    and u: "\<forall>j. dyn_defines img name j \<longrightarrow> st_value (the (dynsym_start img) j) = v"
    and e: "elf_indexes img h fuel i"
  shows "\<exists>r. elfHashLookup img name h = Some (Some r) \<and> fst r = v"
proof -
  from e have present: "\<not> (nbucket img = 0 \<or> bucket img = None \<or> chain_tab img = None
         \<or> dynsym_start img = None \<or> strtab_start img = None)"
    and reach: "elf_reaches (the (chain_tab img)) fuel (the (bucket img) (unat (h mod nbucket img))) i"
    by (simp_all add: elf_indexes_def)
  from d have d1: "name = cstr (the (strtab_start img)) (unat (st_name (the (dynsym_start img) i)))"
    and d2: "st_shndx (the (dynsym_start img) i) \<noteq> SHN_UNDEF"
    by (simp_all add: dyn_defines_def)
  from u have u': "\<forall>j. name = cstr (the (strtab_start img)) (unat (st_name (the (dynsym_start img) j)))
        \<and> st_shndx (the (dynsym_start img) j) \<noteq> SHN_UNDEF \<longrightarrow> st_value (the (dynsym_start img) j) = v"
    by (simp add: dyn_defines_def)
  have "elfHashLookup img name h =
          elf_chain_walk (the (chain_tab img)) (the (dynsym_start img)) (the (strtab_start img))
             name (the (bucket img) (unat (h mod nbucket img)))"
    by (simp only: elfHashLookup_def present if_False)
  with elf_walk_finds [OF d1 d2 u' reach] show ?thesis
    by simp
qed

lemma linearLookup_finds:
  assumes l: "symtab_lists img name k"
    and u: "\<forall>k'<unat (symtab_count img).
              linear_match (the (symtab_strtab img)) name (the (symtab_start img) k')
              \<longrightarrow> st_value (the (symtab_start img) k') = v"
  shows "\<exists>r. linearLookup img name = Some r \<and> fst r = v"
proof -
  let ?xs = "map (the (symtab_start img)) [0..<unat (symtab_count img)]"
  let ?P = "linear_match (the (symtab_strtab img)) name"
  from l have present: "\<not> (symtab_start img = None \<or> symtab_strtab img = None \<or> symtab_count img = 0)"
    and k: "k < unat (symtab_count img)" and m: "?P (the (symtab_start img) k)"
    by (simp_all add: symtab_lists_def)
  from k have k': "k < length ?xs" by simp
  from k m have m': "?P (?xs ! k)" by simp
  from u have u': "\<forall>x\<in>set ?xs. ?P x \<longrightarrow> st_value x = v" by auto
  from find_first_value [OF k' m' u']
  obtain x where "find ?P ?xs = Some x \<and> st_value x = v" by blast
  moreover have "linearLookup img name = map_option sym_hit (find ?P ?xs)"
    by (simp only: linearLookup_def present if_False)
  ultimately show ?thesis
    by (auto simp: sym_hit_def)
qed


text \<open>
  The linear scan returns nothing when no entry of \<^verbatim>\<open>.symtab\<close> passes its test for the
  name, and what it returns is an entry that passes it.
\<close>

lemma linearLookup_none:
  assumes "\<forall>k<unat (symtab_count img).
             \<not> linear_match (the (symtab_strtab img)) name (the (symtab_start img) k)"
  shows "linearLookup img name = None"
  using assms by (auto simp: linearLookup_def find_None_iff)

text \<open>
  \<^bold>\<open>C4\<close>, as the code has it. Let entry \<open>i\<close> of \<^verbatim>\<open>.dynsym\<close> be an exported symbol \<open>s\<close>
  (defined, section index not \<^verbatim>\<open>SHN_UNDEF\<close>) named \<open>name\<close>, and let every definition of
  \<open>name\<close> in \<^verbatim>\<open>.dynsym\<close> carry the offset of \<open>s\<close>. Then each lookup, by the table it reads
  alone:
  \<^item> the GNU-hash lookup returns the offset of \<open>s\<close> when the GNU hash table indexes \<open>i\<close>
    under the GNU hash of \<open>name\<close>;
  \<^item> the ELF-hash lookup returns the offset of \<open>s\<close> when the ELF hash table indexes \<open>i\<close>
    under the ELF hash of \<open>name\<close>;
  \<^item> the linear scan returns the offset of \<open>s\<close> when \<^verbatim>\<open>.symtab\<close> lists a defined \<^verbatim>\<open>STT_FUNC\<close>
    or \<^verbatim>\<open>STT_OBJECT\<close> symbol of nonzero size named \<open>name\<close>, all such entries carrying the
    offset of \<open>s\<close>;
  \<^item> the linear scan returns nothing when \<^verbatim>\<open>.symtab\<close> has no such entry for \<open>name\<close>: when
    each of its entries has another name, is undefined, has a type other than
    \<^verbatim>\<open>STT_FUNC\<close> and \<^verbatim>\<open>STT_OBJECT\<close>, or has size 0.
\<close>

theorem lookups_agree:
  assumes "dyn_defines img name i"
    and "\<forall>j. dyn_defines img name j
           \<longrightarrow> st_value (the (dynsym_start img) j) = st_value (the (dynsym_start img) i)"
  shows "(gnu_indexes img (gnuHash name) i
            \<longrightarrow> (\<exists>r. gnuHashLookup img name (gnuHash name) = Some r
                      \<and> fst r = st_value (the (dynsym_start img) i)))
       \<and> (elf_indexes img (elfHash name) fuel i
            \<longrightarrow> (\<exists>r. elfHashLookup img name (elfHash name) = Some (Some r)
                      \<and> fst r = st_value (the (dynsym_start img) i)))
       \<and> (symtab_lists img name k
           \<and> (\<forall>k'<unat (symtab_count img).
                 linear_match (the (symtab_strtab img)) name (the (symtab_start img) k')
                 \<longrightarrow> st_value (the (symtab_start img) k') = st_value (the (dynsym_start img) i))
            \<longrightarrow> (\<exists>r. linearLookup img name = Some r
                      \<and> fst r = st_value (the (dynsym_start img) i)))
       \<and> ((\<forall>k'<unat (symtab_count img).
               name \<noteq> cstr (the (symtab_strtab img)) (unat (st_name (the (symtab_start img) k')))
               \<or> st_shndx (the (symtab_start img) k') = SHN_UNDEF
               \<or> (elf_st_type (st_info (the (symtab_start img) k')) \<noteq> STT_FUNC
                   \<and> elf_st_type (st_info (the (symtab_start img) k')) \<noteq> STT_OBJECT)
               \<or> st_size (the (symtab_start img) k') = 0)
            \<longrightarrow> linearLookup img name = None)"
proof (intro conjI impI)
  assume "gnu_indexes img (gnuHash name) i"
  from gnuHashLookup_finds [OF assms this]
  show "\<exists>r. gnuHashLookup img name (gnuHash name) = Some r
             \<and> fst r = st_value (the (dynsym_start img) i)" .
next
  assume "elf_indexes img (elfHash name) fuel i"
  from elfHashLookup_finds [OF assms this]
  show "\<exists>r. elfHashLookup img name (elfHash name) = Some (Some r)
             \<and> fst r = st_value (the (dynsym_start img) i)" .
next
  assume "symtab_lists img name k
           \<and> (\<forall>k'<unat (symtab_count img).
                 linear_match (the (symtab_strtab img)) name (the (symtab_start img) k')
                 \<longrightarrow> st_value (the (symtab_start img) k') = st_value (the (dynsym_start img) i))"
  then show "\<exists>r. linearLookup img name = Some r \<and> fst r = st_value (the (dynsym_start img) i)"
    using linearLookup_finds by blast
next
  assume "\<forall>k'<unat (symtab_count img).
               name \<noteq> cstr (the (symtab_strtab img)) (unat (st_name (the (symtab_start img) k')))
               \<or> st_shndx (the (symtab_start img) k') = SHN_UNDEF
               \<or> (elf_st_type (st_info (the (symtab_start img) k')) \<noteq> STT_FUNC
                   \<and> elf_st_type (st_info (the (symtab_start img) k')) \<noteq> STT_OBJECT)
               \<or> st_size (the (symtab_start img) k') = 0"
  then have "\<forall>k'<unat (symtab_count img).
             \<not> linear_match (the (symtab_strtab img)) name (the (symtab_start img) k')"
    by (auto simp: linear_match_def)
  then show "linearLookup img name = None" by (rule linearLookup_none)
qed


text \<open>The theorem at the exported function \<^verbatim>\<open>add\<close> of the small object: all three return \<open>0x1000\<close>.\<close>

lemma demo_add_defined: "dyn_defines demo_image ''add'' 3"
  by code_simp

lemma demo_add_unique:
  "\<forall>j. dyn_defines demo_image ''add'' j
       \<longrightarrow> st_value (the (dynsym_start demo_image) j) = st_value (the (dynsym_start demo_image) 3)"
  by (auto simp: dyn_defines_def demo_image_def table_of_def demo_syms_def demo_strtab_def
      null_sym_def cstr_def SHN_UNDEF_def nth_Cons' split: if_splits)

lemma demo_add_gnu: "gnu_indexes demo_image (gnuHash ''add'') 3"
  by code_simp

lemma demo_add_elf: "elf_indexes demo_image (elfHash ''add'') 2 3"
  by code_simp

lemma demo_add_symtab: "symtab_lists demo_image ''add'' 3"
  by code_simp

lemma demo_add_symtab_unique:
  "\<forall>k'<unat (symtab_count demo_image).
      linear_match (the (symtab_strtab demo_image)) ''add'' (the (symtab_start demo_image) k')
      \<longrightarrow> st_value (the (symtab_start demo_image) k') = st_value (the (dynsym_start demo_image) 3)"
  by (auto simp: linear_match_def demo_image_def table_of_def demo_syms_def demo_strtab_def
      null_sym_def cstr_def SHN_UNDEF_def nth_Cons' split: if_splits)

lemma demo_add_value: "st_value (the (dynsym_start demo_image) 3) = 0x1000"
  by code_simp

lemma demo_end_defined: "dyn_defines demo_image ''_end'' 4"
  by code_simp

lemma demo_end_unique:
  "\<forall>j. dyn_defines demo_image ''_end'' j
       \<longrightarrow> st_value (the (dynsym_start demo_image) j) = st_value (the (dynsym_start demo_image) 4)"
  by (auto simp: dyn_defines_def demo_image_def table_of_def demo_syms_def demo_strtab_def
      null_sym_def cstr_def SHN_UNDEF_def nth_Cons' split: if_splits)

lemma demo_end_symtab:
  "\<forall>k'<unat (symtab_count demo_image).
      name \<noteq> cstr (the (symtab_strtab demo_image)) (unat (st_name (the (symtab_start demo_image) k')))
      \<or> st_shndx (the (symtab_start demo_image) k') = SHN_UNDEF
      \<or> (elf_st_type (st_info (the (symtab_start demo_image) k')) \<noteq> STT_FUNC
          \<and> elf_st_type (st_info (the (symtab_start demo_image) k')) \<noteq> STT_OBJECT)
      \<or> st_size (the (symtab_start demo_image) k') = 0
      \<or> name = ''add''"
  by (auto simp: demo_image_def table_of_def demo_syms_def demo_strtab_def
      null_sym_def cstr_def SHN_UNDEF_def elf_st_type_def STT_FUNC_def STT_OBJECT_def nth_Cons'
      split: if_splits)

text \<open>
  The theorem at the two exported symbols of the small object: for \<^verbatim>\<open>add\<close> the three
  lookups return \<open>0x1000\<close>; for \<^verbatim>\<open>_end\<close>, which \<^verbatim>\<open>.symtab\<close> lists with type \<^verbatim>\<open>STT_NOTYPE\<close> and
  size 0, the linear scan returns nothing.
\<close>

theorem lookups_agree_witness:
  "dyn_defines demo_image ''add'' 3
   \<and> gnu_indexes demo_image (gnuHash ''add'') 3
   \<and> elf_indexes demo_image (elfHash ''add'') 2 3
   \<and> symtab_lists demo_image ''add'' 3
   \<and> (\<exists>r. gnuHashLookup demo_image ''add'' (gnuHash ''add'') = Some r \<and> fst r = 0x1000)
   \<and> (\<exists>r. elfHashLookup demo_image ''add'' (elfHash ''add'') = Some (Some r) \<and> fst r = 0x1000)
   \<and> (\<exists>r. linearLookup demo_image ''add'' = Some r \<and> fst r = 0x1000)
   \<and> dyn_defines demo_image ''_end'' 4
   \<and> linearLookup demo_image ''_end'' = None"
proof -
  note th = lookups_agree [OF demo_add_defined demo_add_unique, of 2 3]
  from th demo_add_gnu
  have g: "\<exists>r. gnuHashLookup demo_image ''add'' (gnuHash ''add'') = Some r \<and> fst r = 0x1000"
    by (simp only: demo_add_value simp_thms)
  from th demo_add_elf
  have e: "\<exists>r. elfHashLookup demo_image ''add'' (elfHash ''add'') = Some (Some r) \<and> fst r = 0x1000"
    by (simp only: demo_add_value simp_thms)
  from th demo_add_symtab demo_add_symtab_unique
  have l: "\<exists>r. linearLookup demo_image ''add'' = Some r \<and> fst r = 0x1000"
    by (simp only: demo_add_value simp_thms)
  have "\<forall>k'<unat (symtab_count demo_image).
      ''_end'' \<noteq> cstr (the (symtab_strtab demo_image))
                    (unat (st_name (the (symtab_start demo_image) k')))
      \<or> st_shndx (the (symtab_start demo_image) k') = SHN_UNDEF
      \<or> (elf_st_type (st_info (the (symtab_start demo_image) k')) \<noteq> STT_FUNC
          \<and> elf_st_type (st_info (the (symtab_start demo_image) k')) \<noteq> STT_OBJECT)
      \<or> st_size (the (symtab_start demo_image) k') = 0"
    using demo_end_symtab [of "''_end''"] by simp
  with lookups_agree [OF demo_end_defined demo_end_unique]
  have n: "linearLookup demo_image ''_end'' = None" by blast
  from g e l n demo_add_defined demo_add_gnu demo_add_elf demo_add_symtab demo_end_defined
  show ?thesis by (simp only: simp_thms)
qed

text \<open>
  The claim as stated, for every exported symbol, fails at \<^verbatim>\<open>_end\<close>: it is exported (entry
  4 defines it), both hash tables index it and both hash lookups return its offset
  \<open>0x3000\<close>, and \<^verbatim>\<open>.symtab\<close> lists it; but it is an \<^verbatim>\<open>STT_NOTYPE\<close> symbol of size 0, which the
  linear scan passes over, so the linear scan returns nothing.
\<close>

theorem lookups_disagree_counterexample:
  "dyn_defines demo_image ''_end'' 4
   \<and> gnuHashLookup demo_image ''_end'' (gnuHash ''_end'') = Some (0x3000, 0, 1)
   \<and> elfHashLookup demo_image ''_end'' (elfHash ''_end'') = Some (Some (0x3000, 0, 1))
   \<and> linearLookup demo_image ''_end'' = None"
  by code_simp

section \<open>Teardown: \<^verbatim>\<open>destroy\<close> and \<^verbatim>\<open>abandon\<close>\<close>

text \<open>
  Without its destructor calls and its \<^verbatim>\<open>munmap\<close> calls, \<^verbatim>\<open>destroy\<close> makes the calls of
  \<^verbatim>\<open>abandon\<close>, in another order: \<^verbatim>\<open>destroy\<close> goes from the main image through the
  dependencies in reverse load order, \<^verbatim>\<open>abandon\<close> through the dependencies in load order
  and then to the main image.
\<close>

lemma filter_destroy_main:
  "filter (\<lambda>e. \<not> is_destructor_call e \<and> \<not> is_munmap e) (destroy_main L) = unregister_main L"
  by (auto simp: destroy_main_def unregister_main_def callDestructors_def is_destructor_call_def
      is_munmap_def filter_empty_conv split: option.splits)

lemma filter_destroy_dep:
  "filter (\<lambda>e. \<not> is_destructor_call e \<and> \<not> is_munmap e) (destroy_dep dep) = unregister_dep dep"
  by (auto simp: destroy_dep_def unregister_dep_def callDestructors_def is_destructor_call_def
      is_munmap_def filter_empty_conv split: option.splits)

lemma filter_unmap_dep:
  "filter (\<lambda>e. \<not> is_destructor_call e \<and> \<not> is_munmap e) (unmap_dep dep) = []"
  by (simp add: unmap_dep_def is_munmap_def)

lemma filter_unmap_main:
  "filter (\<lambda>e. \<not> is_destructor_call e \<and> \<not> is_munmap e) (unmap_main L) = []"
  by (simp add: unmap_main_def is_munmap_def split: option.splits)

lemma filter_destroy_events:
  "filter (\<lambda>e. \<not> is_destructor_call e \<and> \<not> is_munmap e) (destroy_events L)
     = unregister_main L @ concat (map unregister_dep (rev (deps L)))"
  by (simp add: destroy_events_def filter_concat comp_def filter_destroy_main filter_destroy_dep
      filter_unmap_dep filter_unmap_main)

lemma mset_concat_rev: "mset (concat (map f (rev xs))) = mset (concat (map f xs))"
  by (induction xs) (simp_all add: ac_simps)

lemma abandon_events_mset:
  "mset (abandon_events L)
     = mset (filter (\<lambda>e. \<not> is_destructor_call e \<and> \<not> is_munmap e) (destroy_events L))"
  by (simp add: filter_destroy_events abandon_events_def mset_concat_rev ac_simps)

lemma abandon_no_destructor:
  "filter (\<lambda>e. is_destructor_call e \<or> is_munmap e) (abandon_events L) = []"
  by (auto simp: abandon_events_def unregister_dep_def unregister_main_def filter_empty_conv
      is_destructor_call_def is_munmap_def split: option.splits if_splits)

lemma delete_indices_None: "ti \<in> set tis \<Longrightarrow> delete_indices tis h ti = None"
proof -
  have "foldl (\<lambda>h ti. h(ti := None)) h tis a = (if a \<in> set tis then None else h a)" for a
    by (induction tis arbitrary: h) auto
  then show "ti \<in> set tis \<Longrightarrow> delete_indices tis h ti = None"
    by (simp add: delete_indices_def)
qed


text \<open>
  What the two teardowns have in common: they leave the same linker, TLS manager, heap
  and memory; every \<^verbatim>\<open>TlsIndex\<close> record of the linker is freed; and \<^verbatim>\<open>abandon\<close> makes the
  backtrace unregistrations of \<^verbatim>\<open>destroy\<close> (the same calls, counted with multiplicity).
  What \<^verbatim>\<open>abandon\<close> does not make is a destructor call or a \<^verbatim>\<open>munmap\<close>.
\<close>

lemma teardown_common:
  "fst (abandon (L, W)) = fst (destroy (L, W))
   \<and> tls (snd (abandon (L, W))) = tls (snd (destroy (L, W)))
   \<and> heap (snd (abandon (L, W))) = heap (snd (destroy (L, W)))
   \<and> mem (snd (abandon (L, W))) = mem (snd (destroy (L, W)))
   \<and> (\<forall>ti\<in>set (tls_indices L). heap (snd (abandon (L, W))) ti = None)
   \<and> trace (snd (destroy (L, W))) = trace W @ destroy_events L
   \<and> trace (snd (abandon (L, W))) = trace W @ abandon_events L
   \<and> mset (abandon_events L)
       = mset (filter (\<lambda>e. \<not> is_destructor_call e \<and> \<not> is_munmap e) (destroy_events L))
   \<and> filter (\<lambda>e. is_destructor_call e \<or> is_munmap e) (abandon_events L) = []"
  by (simp add: abandon_def destroy_def emit_def abandon_events_mset abandon_no_destructor
      delete_indices_None)

text \<open>The calls of the two teardowns at the linked object with two dependencies.\<close>

lemma demo_destroy_events:
  "destroy_events demo_linked =
     [UnregisterEhFrame 0x5000, UnregisterLibrary 0x5000,
      CallDestructor 0x7000001300, CallDestructor 0x7000001200, CallDestructor 0x7000001400,
      UnregisterEhFrame 0x6000, UnregisterLibrary 0x6000,
      CallDestructor 0x7000001300, CallDestructor 0x7000001200, CallDestructor 0x7000001400,
      Munmap 0x7100000000 0x3000, Munmap 0x7000000000 0x5000]"
  by (simp add: destroy_events_def destroy_main_def destroy_dep_def unmap_dep_def unmap_main_def
      callDestructors_def demo_linked_def demo_dep_image_def demo_host_image_def demo_image_def
      table_of_def upt_rec)

lemma demo_abandon_events:
  "abandon_events demo_linked =
     [UnregisterEhFrame 0x6000, UnregisterLibrary 0x6000,
      UnregisterEhFrame 0x5000, UnregisterLibrary 0x5000]"
  by (simp add: abandon_events_def unregister_dep_def unregister_main_def demo_linked_def
      demo_dep_image_def demo_host_image_def demo_image_def)

lemma teardown_trace:
  "trace (snd (destroy (L, W))) = trace W @ destroy_events L"
  "trace (snd (abandon (L, W))) = trace W @ abandon_events L"
  by (simp_all add: destroy_def abandon_def emit_def)

lemma teardown_forgets:
  "main_map_size (fst (abandon (L, W))) = 0 \<and> deps (fst (abandon (L, W))) = []
   \<and> main_image (fst (abandon (L, W))) = None"
  by (simp add: abandon_def)

lemma demo_index_freed:
  "heap (snd (abandon (demo_linked, demo_linked_world))) 0x7400000000 = None
   \<and> heap (snd (destroy (demo_linked, demo_linked_world))) 0x7400000000 = None"
  by (simp add: abandon_def destroy_def emit_def delete_indices_None demo_linked_def)

text \<open>
  \<^bold>\<open>C2\<close> at the linked object with two dependencies. The comment at the head of
  \<^verbatim>\<open>abandon\<close> says it is \<^verbatim>\<open>destroy\<close> without the destructor calls, and the one
  \<^verbatim>\<open>TlsIndex\<close> record is freed by both. But \<^verbatim>\<open>destroy\<close> unmaps the main image and the
  manually loaded dependency, and \<^verbatim>\<open>abandon\<close> unmaps neither: it makes four calls, none
  of them a \<^verbatim>\<open>munmap\<close>, and then forgets what was mapped (\<^verbatim>\<open>main_map_size_\<close> is 0, \<^verbatim>\<open>deps_\<close>
  is empty), so that nothing can unmap the two regions later.
\<close>

theorem abandon_leaves_mappings:
  "Munmap 0x7000000000 0x5000 \<in> set (trace (snd (destroy (demo_linked, demo_linked_world))))
   \<and> Munmap 0x7100000000 0x3000 \<in> set (trace (snd (destroy (demo_linked, demo_linked_world))))
   \<and> trace (snd (abandon (demo_linked, demo_linked_world)))
       = [UnregisterEhFrame 0x6000, UnregisterLibrary 0x6000,
          UnregisterEhFrame 0x5000, UnregisterLibrary 0x5000]
   \<and> main_map_size (fst (abandon (demo_linked, demo_linked_world))) = 0
   \<and> deps (fst (abandon (demo_linked, demo_linked_world))) = []
   \<and> heap (snd (abandon (demo_linked, demo_linked_world))) 0x7400000000 = None
   \<and> heap (snd (destroy (demo_linked, demo_linked_world))) 0x7400000000 = None"
proof -
  have t: "trace demo_linked_world = []"
    by (simp add: demo_linked_world_def demo_world_def)
  show ?thesis
    by (simp add: teardown_trace teardown_forgets demo_index_freed demo_destroy_events
        demo_abandon_events t)
qed

text \<open>
  \<^bold>\<open>C3.\<close> Neither teardown touches the symbol cache: \<^verbatim>\<open>clearSymbolCache\<close> empties it, and
  nothing calls \<^verbatim>\<open>clearSymbolCache\<close>.
\<close>

lemma teardown_symbol_cache:
  "symbol_cache (fst (destroy (L, W))) = symbol_cache L
   \<and> symbol_cache (fst (abandon (L, W))) = symbol_cache L
   \<and> symbol_cache (clearSymbolCache L) = Map.empty"
  by (simp add: destroy_def abandon_def clearSymbolCache_def)

text \<open>
  \<^bold>\<open>C3\<close> at the small object: \<^verbatim>\<open>link\<close> resolves \<^verbatim>\<open>malloc\<close> through \<^verbatim>\<open>dlsym\<close> and fails to
  resolve \<^verbatim>\<open>missing_fn\<close>; both results are in the cache after \<^verbatim>\<open>link\<close>, and both are
  still there after \<^verbatim>\<open>destroy\<close> and after \<^verbatim>\<open>abandon\<close>. The claim says the cache is empty
  then.
\<close>

theorem teardown_leaves_symbol_cache:
  "(case link demo_host (True, []) (demo_linker, demo_world) of
      None \<Rightarrow> False
    | Some (ok, st) \<Rightarrow>
        ok
        \<and> map_option (\<lambda>e. (ce_address e, found e)) (symbol_cache (fst (destroy st)) ''malloc'')
            = Some (0x7300001000, True)
        \<and> map_option (\<lambda>e. (ce_address e, found e)) (symbol_cache (fst (destroy st)) ''missing_fn'')
            = Some (0, False)
        \<and> map_option (\<lambda>e. (ce_address e, found e)) (symbol_cache (fst (abandon st)) ''malloc'')
            = Some (0x7300001000, True)
        \<and> map_option (\<lambda>e. (ce_address e, found e)) (symbol_cache (fst (abandon st)) ''missing_fn'')
            = Some (0, False))"
  by code_simp

section \<open>Symbol resolution across the loaded images\<close>

text \<open>
  \<^verbatim>\<open>findSymbol\<close> scans the main image and then the dependencies; the two loops are one
  scan of \<open>loaded_images\<close>.
\<close>

lemma findSymbol_deps_scan:
  "findSymbol_deps host name ds st = scan_images host name (List.map_filter dep_image ds) st"
  by (induction ds arbitrary: st)
     (auto simp: List.map_filter_simps split: option.splits sum.splits)

lemma scan_images_append:
  "scan_images host name (xs @ ys) st =
     (case scan_images host name xs st of
        None \<Rightarrow> None
      | Some (Inl r) \<Rightarrow> Some (Inl r)
      | Some (Inr st') \<Rightarrow> scan_images host name ys st')"
  by (induction xs arbitrary: st) (auto split: option.splits sum.splits)

lemma findSymbol_scan:
  "findSymbol host L name =
     (case scan_images host name (loaded_images L) (SymbolLookup_none, SymbolLookup_none) of
        None \<Rightarrow> None
      | Some (Inl r) \<Rightarrow> Some r
      | Some (Inr st) \<Rightarrow> Some (findSymbol_rest host name st))"
  by (auto simp: findSymbol_def loaded_images_def findSymbol_deps_scan
      split: option.splits sum.splits)

lemma scan_no_global:
  assumes "\<forall>i\<in>set imgs. \<exists>r. findSymbolAddress host i name = Some r \<and> (\<forall>a. r \<noteq> Some (a, STB_GLOBAL))"
  shows "\<exists>st'. scan_images host name imgs st = Some (Inr st')"
  using assms
proof (induction imgs arbitrary: st)
  case Nil
  show ?case by simp
next
  case (Cons i imgs)
  from Cons.prems obtain r where r: "findSymbolAddress host i name = Some r"
    and ng: "\<forall>a. r \<noteq> Some (a, STB_GLOBAL)" by auto
  obtain result weak_result where st: "st = (result, weak_result)" by (cases st)
  from r ng have "\<exists>st1. findSymbol_in host name i st = Some (Inr st1)"
    by (cases r) (auto simp: findSymbol_in_def st Let_def)
  then obtain st1 where "findSymbol_in host name i st = Some (Inr st1)" ..
  moreover from Cons.prems have "\<forall>i\<in>set imgs. \<exists>r. findSymbolAddress host i name = Some r \<and> (\<forall>a. r \<noteq> Some (a, STB_GLOBAL))"
    by simp
  from Cons.IH [OF this] obtain st' where "scan_images host name imgs st1 = Some (Inr st')" by blast
  ultimately show ?case by simp
qed

lemma scan_global:
  assumes "\<forall>i\<in>set pre. \<exists>r. findSymbolAddress host i name = Some r \<and> (\<forall>a. r \<noteq> Some (a, STB_GLOBAL))"
    and "findSymbolAddress host g name = Some (Some (a, STB_GLOBAL))"
  shows "scan_images host name (pre @ g # post) st
           = Some (Inl \<lparr>address = a, sl_image = Some g, sl_bind = STB_GLOBAL, sl_type = 0\<rparr>)"
proof -
  from scan_no_global [OF assms(1)] obtain st' where
    "scan_images host name pre st = Some (Inr st')" by blast
  moreover have "findSymbol_in host name g st'
      = Some (Inl \<lparr>address = a, sl_image = Some g, sl_bind = STB_GLOBAL, sl_type = 0\<rparr>)"
    using assms(2) by (cases st') (simp add: findSymbol_in_def Let_def)
  ultimately show ?thesis by (simp add: scan_images_append)
qed

lemma scan_all_miss:
  "\<forall>i\<in>set imgs. findSymbolAddress host i name = Some None \<Longrightarrow>
   scan_images host name imgs st = Some (Inr st)"
  by (induction imgs arbitrary: st) (auto simp: findSymbol_in_def split: prod.splits)

text \<open>
  A scan that meets no global definition runs through all images. It leaves in
  \<^verbatim>\<open>result\<close> the last hit, and in \<^verbatim>\<open>weak_result\<close> the first weak hit with an address other
  than null when nothing valid was remembered before.
\<close>

lemma symbol_hits_Cons:
  "symbol_hits host name (i # imgs) =
     (case symbol_hit host name i of
        None \<Rightarrow> symbol_hits host name imgs
      | Some h \<Rightarrow> h # symbol_hits host name imgs)"
  by (cases "symbol_hit host name i") (simp_all add: symbol_hits_def List.map_filter_simps)

lemma scan_without_global:
  assumes "\<forall>i\<in>set imgs. findSymbolAddress host i name \<noteq> None"
    and "\<forall>h\<in>set (symbol_hits host name imgs). sl_bind h \<noteq> STB_GLOBAL"
  shows "\<exists>r' w'. scan_images host name imgs (r0, w0) = Some (Inr (r', w'))
           \<and> r' = (if symbol_hits host name imgs = [] then r0
                    else last (symbol_hits host name imgs))
           \<and> (valid w0 \<longrightarrow> w' = w0)
           \<and> (\<not> valid w0 \<longrightarrow>
                (case find (\<lambda>h. isWeak h \<and> valid h) (symbol_hits host name imgs) of
                   Some h \<Rightarrow> w' = h
                 | None \<Rightarrow> \<not> valid w'))"
  using assms
proof (induction imgs arbitrary: r0 w0)
  case Nil
  show ?case by (simp add: symbol_hits_def List.map_filter_simps)
next
  case (Cons i imgs)
  from Cons.prems(1) obtain r where r: "findSymbolAddress host i name = Some r" by auto
  from Cons.prems(1) have ret: "\<forall>i\<in>set imgs. findSymbolAddress host i name \<noteq> None" by simp
  show ?case
  proof (cases r)
    case None
    with r have h: "symbol_hit host name i = None" by (simp add: symbol_hit_def)
    with Cons.prems(2) have ng: "\<forall>h\<in>set (symbol_hits host name imgs). sl_bind h \<noteq> STB_GLOBAL"
      by (simp add: symbol_hits_Cons)
    from h have hs: "symbol_hits host name (i # imgs) = symbol_hits host name imgs"
      by (simp add: symbol_hits_Cons)
    from r None have "findSymbol_in host name i (r0, w0) = Some (Inr (r0, w0))"
      by (simp add: findSymbol_in_def)
    then have "scan_images host name (i # imgs) (r0, w0) = scan_images host name imgs (r0, w0)"
      by simp
    with Cons.IH [OF ret ng, of r0 w0] show ?thesis
      by (simp only: hs)
  next
    case (Some ab)
    obtain a b where ab: "ab = (a, b)" by (cases ab)
    define h where "h = \<lparr>address = a, sl_image = Some i, sl_bind = b, sl_type = 0\<rparr>"
    from r Some ab have hit: "symbol_hit host name i = Some h"
      by (simp add: symbol_hit_def h_def)
    with Cons.prems(2) have bg: "b \<noteq> STB_GLOBAL"
      and ng: "\<forall>h\<in>set (symbol_hits host name imgs). sl_bind h \<noteq> STB_GLOBAL"
      by (simp_all add: symbol_hits_Cons h_def)
    have bw: "b = STB_WEAK \<longleftrightarrow> isWeak h" by (simp add: isWeak_def STB_WEAK_def h_def)
    define w1 where "w1 = (if isWeak h \<and> \<not> valid w0 then h else w0)"
    from r Some ab bg have step: "findSymbol_in host name i (r0, w0) = Some (Inr (h, w1))"
      by (simp add: findSymbol_in_def Let_def bw w1_def h_def [symmetric])
    from Cons.IH [OF ret ng, of h w1] obtain r' w' where
      s: "scan_images host name imgs (h, w1) = Some (Inr (r', w'))"
      and r': "r' = (if symbol_hits host name imgs = [] then h else last (symbol_hits host name imgs))"
      and v: "valid w1 \<longrightarrow> w' = w1"
      and nv: "\<not> valid w1 \<longrightarrow>
                (case find (\<lambda>h. isWeak h \<and> valid h) (symbol_hits host name imgs) of
                   Some h \<Rightarrow> w' = h
                 | None \<Rightarrow> \<not> valid w')"
      by blast
    have hs: "symbol_hits host name (i # imgs) = h # symbol_hits host name imgs"
      by (simp add: symbol_hits_Cons hit)
    have "scan_images host name (i # imgs) (r0, w0) = Some (Inr (r', w'))"
      using step s by simp
    moreover have "r' = (if symbol_hits host name (i # imgs) = [] then r0
                         else last (symbol_hits host name (i # imgs)))"
      using r' by (simp add: hs)
    moreover have "valid w0 \<longrightarrow> w' = w0"
      using v by (simp add: w1_def)
    moreover have "\<not> valid w0 \<longrightarrow>
                (case find (\<lambda>h. isWeak h \<and> valid h) (symbol_hits host name (i # imgs)) of
                   Some h \<Rightarrow> w' = h
                 | None \<Rightarrow> \<not> valid w')"
      using v nv by (auto simp: hs w1_def)
    ultimately show ?thesis by blast
  qed
qed

lemma findSymbol_without_global:
  assumes "\<forall>i\<in>set (loaded_images L). findSymbolAddress host i name \<noteq> None"
    and "\<forall>h\<in>set (symbol_hits host name (loaded_images L)). sl_bind h \<noteq> STB_GLOBAL"
  shows "findSymbol host L name =
           Some (if symbol_hits host name (loaded_images L) \<noteq> []
                    \<and> valid (last (symbol_hits host name (loaded_images L)))
                    \<and> \<not> isWeak (last (symbol_hits host name (loaded_images L)))
                 then last (symbol_hits host name (loaded_images L))
                 else case find (\<lambda>h. isWeak h \<and> valid h)
                             (symbol_hits host name (loaded_images L)) of
                        Some h \<Rightarrow> h
                      | None \<Rightarrow>
                          if dlsym host name \<noteq> 0
                          then \<lparr>address = dlsym host name, sl_image = None,
                                sl_bind = STB_GLOBAL, sl_type = 0\<rparr>
                          else SymbolLookup_none)"
proof -
  have nv: "\<not> valid SymbolLookup_none" by (simp add: valid_def SymbolLookup_none_def)
  from scan_without_global [OF assms, of SymbolLookup_none SymbolLookup_none] nv
  obtain r' w' where
    s: "scan_images host name (loaded_images L) (SymbolLookup_none, SymbolLookup_none)
          = Some (Inr (r', w'))"
    and r': "r' = (if symbol_hits host name (loaded_images L) = [] then SymbolLookup_none
                   else last (symbol_hits host name (loaded_images L)))"
    and w': "case find (\<lambda>h. isWeak h \<and> valid h) (symbol_hits host name (loaded_images L)) of
               Some h \<Rightarrow> w' = h
             | None \<Rightarrow> \<not> valid w'"
    by blast
  show ?thesis
  proof (cases "find (\<lambda>h. isWeak h \<and> valid h) (symbol_hits host name (loaded_images L))")
    case None
    with w' have "\<not> valid w'" by simp
    with s r' None nv show ?thesis
      by (simp add: findSymbol_scan findSymbol_rest_def Let_def)
  next
    case (Some h)
    with w' have "w' = h" by simp
    moreover from Some have "valid h" by (auto simp: find_Some_iff)
    ultimately show ?thesis using s r' Some nv
      by (simp add: findSymbol_scan findSymbol_rest_def Let_def)
  qed
qed

text \<open>
  Claim C1, as the code has it. \<^verbatim>\<open>findSymbol\<close> looks a name up in the main image first
  and then in each dependency in load order.
  \<^item> A hit with binding \<^verbatim>\<open>STB_GLOBAL\<close> is returned at once: when the image \<open>g\<close> has a
    global definition and no image before it has one, the result is the definition of
    \<open>g\<close>, whatever the earlier images (weak hits among them) and the later ones hold.
  \<^item> When no image has a global definition, the scan runs through all images, and the
    result is: the last hit, when there is one, its address is not null and its binding
    is not \<^verbatim>\<open>STB_WEAK\<close> (a hit with binding \<^verbatim>\<open>STB_LOCAL\<close>, say); otherwise the first
    \<^verbatim>\<open>STB_WEAK\<close> hit whose address is not null; otherwise what \<^verbatim>\<open>dlsym\<close> gives, bound as
    global with a null image, and the invalid result when \<^verbatim>\<open>dlsym\<close> gives null. So two
    weak definitions resolve to the first loaded when no image after them defines the
    name with another binding, and a name that no image defines goes to \<^verbatim>\<open>dlsym\<close>.
\<close>

theorem findSymbol_resolution_order:
  "(loaded_images L = pre @ g # post
      \<and> (\<forall>i\<in>set pre. \<exists>r. findSymbolAddress host i name = Some r \<and> (\<forall>a. r \<noteq> Some (a, STB_GLOBAL)))
      \<and> findSymbolAddress host g name = Some (Some (a, STB_GLOBAL))
     \<longrightarrow> findSymbol host L name
           = Some \<lparr>address = a, sl_image = Some g, sl_bind = STB_GLOBAL, sl_type = 0\<rparr>)
   \<and> ((\<forall>i\<in>set (loaded_images L). findSymbolAddress host i name \<noteq> None)
      \<and> (\<forall>h\<in>set (symbol_hits host name (loaded_images L)). sl_bind h \<noteq> STB_GLOBAL)
     \<longrightarrow> findSymbol host L name =
           Some (if symbol_hits host name (loaded_images L) \<noteq> []
                    \<and> valid (last (symbol_hits host name (loaded_images L)))
                    \<and> \<not> isWeak (last (symbol_hits host name (loaded_images L)))
                 then last (symbol_hits host name (loaded_images L))
                 else case find (\<lambda>h. isWeak h \<and> valid h)
                             (symbol_hits host name (loaded_images L)) of
                        Some h \<Rightarrow> h
                      | None \<Rightarrow>
                          if dlsym host name \<noteq> 0
                          then \<lparr>address = dlsym host name, sl_image = None,
                                sl_bind = STB_GLOBAL, sl_type = 0\<rparr>
                          else SymbolLookup_none))"
proof (intro conjI impI)
  assume "loaded_images L = pre @ g # post
      \<and> (\<forall>i\<in>set pre. \<exists>r. findSymbolAddress host i name = Some r \<and> (\<forall>a. r \<noteq> Some (a, STB_GLOBAL)))
      \<and> findSymbolAddress host g name = Some (Some (a, STB_GLOBAL))"
  then show "findSymbol host L name
           = Some \<lparr>address = a, sl_image = Some g, sl_bind = STB_GLOBAL, sl_type = 0\<rparr>"
    by (simp add: findSymbol_scan scan_global)
next
  assume "(\<forall>i\<in>set (loaded_images L). findSymbolAddress host i name \<noteq> None)
      \<and> (\<forall>h\<in>set (symbol_hits host name (loaded_images L)). sl_bind h \<noteq> STB_GLOBAL)"
  then show "findSymbol host L name =
           Some (if symbol_hits host name (loaded_images L) \<noteq> []
                    \<and> valid (last (symbol_hits host name (loaded_images L)))
                    \<and> \<not> isWeak (last (symbol_hits host name (loaded_images L)))
                 then last (symbol_hits host name (loaded_images L))
                 else case find (\<lambda>h. isWeak h \<and> valid h)
                             (symbol_hits host name (loaded_images L)) of
                        Some h \<Rightarrow> h
                      | None \<Rightarrow>
                          if dlsym host name \<noteq> 0
                          then \<lparr>address = dlsym host name, sl_image = None,
                                sl_bind = STB_GLOBAL, sl_type = 0\<rparr>
                          else SymbolLookup_none)"
    using findSymbol_without_global by blast
qed

text \<open>
  The cases on images: a global definition in the third image after two weak ones; two
  weak definitions after an image without one; a name that only the host knows.
\<close>

lemma demo_weak_image_add: "findSymbolAddress demo_host demo_weak_image ''add'' = Some (Some (0x7200001000, STB_WEAK))"
  by code_simp
lemma demo_weak_image2_add: "findSymbolAddress demo_host demo_weak_image2 ''add'' = Some (Some (0x7300001000, STB_WEAK))"
  by code_simp
lemma demo_dep_image_add: "findSymbolAddress demo_host demo_dep_image ''add'' = Some (Some (0x7100001000, STB_GLOBAL))"
  by code_simp
lemma demo_bare_image_add: "findSymbolAddress demo_host demo_bare_image ''add'' = Some None"
  by code_simp
lemma demo_local_image_add: "findSymbolAddress demo_host demo_local_image ''add'' = Some (Some (0x7500001000, STB_LOCAL))"
  by code_simp

lemma demo_image_malloc: "findSymbolAddress demo_host demo_image ''malloc'' = Some None"
  by code_simp

lemma images_weak_first: "loaded_images linker_weak_first = [demo_weak_image, demo_weak_image2] @ demo_dep_image # []"
  by (simp add: loaded_images_def linker_weak_first_def demo_linker_def dep_of_def
      List.map_filter_simps)

lemma images_two_weak: "loaded_images linker_two_weak = [demo_bare_image, demo_weak_image, demo_weak_image2]"
  by (simp add: loaded_images_def linker_two_weak_def demo_linker_def dep_of_def
      List.map_filter_simps)

lemma images_weak_local: "loaded_images linker_weak_local = [demo_weak_image, demo_weak_image2, demo_local_image]"
  by (simp add: loaded_images_def linker_weak_local_def demo_linker_def dep_of_def
      List.map_filter_simps)

lemma images_demo_linker: "loaded_images demo_linker = [demo_image]"
  by (simp add: loaded_images_def demo_linker_def List.map_filter_simps)

lemma hits_two_weak:
  "symbol_hits demo_host ''add'' (loaded_images linker_two_weak) =
     [\<lparr>address = 0x7200001000, sl_image = Some demo_weak_image, sl_bind = STB_WEAK, sl_type = 0\<rparr>,
      \<lparr>address = 0x7300001000, sl_image = Some demo_weak_image2, sl_bind = STB_WEAK, sl_type = 0\<rparr>]"
  by (simp add: images_two_weak symbol_hits_def symbol_hit_def List.map_filter_simps
      demo_bare_image_add demo_weak_image_add demo_weak_image2_add)

lemma hits_weak_local:
  "symbol_hits demo_host ''add'' (loaded_images linker_weak_local) =
     [\<lparr>address = 0x7200001000, sl_image = Some demo_weak_image, sl_bind = STB_WEAK, sl_type = 0\<rparr>,
      \<lparr>address = 0x7300001000, sl_image = Some demo_weak_image2, sl_bind = STB_WEAK, sl_type = 0\<rparr>,
      \<lparr>address = 0x7500001000, sl_image = Some demo_local_image, sl_bind = STB_LOCAL, sl_type = 0\<rparr>]"
  by (simp add: images_weak_local symbol_hits_def symbol_hit_def List.map_filter_simps
      demo_weak_image_add demo_weak_image2_add demo_local_image_add)

lemma hits_demo_malloc: "symbol_hits demo_host ''malloc'' (loaded_images demo_linker) = []"
  by (simp add: images_demo_linker symbol_hits_def symbol_hit_def List.map_filter_simps
      demo_image_malloc)

theorem findSymbol_resolution_order_witness:
  "findSymbol demo_host linker_weak_first ''add''
     = Some \<lparr>address = 0x7100001000, sl_image = Some demo_dep_image, sl_bind = STB_GLOBAL,
             sl_type = 0\<rparr>
   \<and> findSymbol demo_host linker_two_weak ''add''
     = Some \<lparr>address = 0x7200001000, sl_image = Some demo_weak_image, sl_bind = STB_WEAK,
             sl_type = 0\<rparr>
   \<and> findSymbol demo_host demo_linker ''malloc''
     = Some \<lparr>address = 0x7300001000, sl_image = None, sl_bind = STB_GLOBAL, sl_type = 0\<rparr>"
proof (intro conjI)
  have ng: "\<forall>i\<in>set [demo_weak_image, demo_weak_image2].
              \<exists>r. findSymbolAddress demo_host i ''add'' = Some r \<and> (\<forall>a. r \<noteq> Some (a, STB_GLOBAL))"
    by (simp add: demo_weak_image_add demo_weak_image2_add STB_WEAK_def STB_GLOBAL_def)
  from findSymbol_resolution_order [where L = linker_weak_first
      and pre = "[demo_weak_image, demo_weak_image2]" and g = demo_dep_image and post = "[]"
      and host = demo_host and name = "''add''" and a = "0x7100001000"]
    images_weak_first ng demo_dep_image_add
  show "findSymbol demo_host linker_weak_first ''add''
     = Some \<lparr>address = 0x7100001000, sl_image = Some demo_dep_image, sl_bind = STB_GLOBAL,
             sl_type = 0\<rparr>"
    by blast
next
  have ret: "\<forall>i\<in>set (loaded_images linker_two_weak). findSymbolAddress demo_host i ''add'' \<noteq> None"
    by (simp add: images_two_weak demo_bare_image_add demo_weak_image_add demo_weak_image2_add)
  have ng: "\<forall>h\<in>set (symbol_hits demo_host ''add'' (loaded_images linker_two_weak)).
              sl_bind h \<noteq> STB_GLOBAL"
    by (simp add: hits_two_weak STB_WEAK_def STB_GLOBAL_def)
  from findSymbol_resolution_order [where L = linker_two_weak and host = demo_host
      and name = "''add''"] ret ng
  have "findSymbol demo_host linker_two_weak ''add'' =
           Some (if symbol_hits demo_host ''add'' (loaded_images linker_two_weak) \<noteq> []
                    \<and> valid (last (symbol_hits demo_host ''add'' (loaded_images linker_two_weak)))
                    \<and> \<not> isWeak (last (symbol_hits demo_host ''add'' (loaded_images linker_two_weak)))
                 then last (symbol_hits demo_host ''add'' (loaded_images linker_two_weak))
                 else case find (\<lambda>h. isWeak h \<and> valid h)
                             (symbol_hits demo_host ''add'' (loaded_images linker_two_weak)) of
                        Some h \<Rightarrow> h
                      | None \<Rightarrow>
                          if dlsym demo_host ''add'' \<noteq> 0
                          then \<lparr>address = dlsym demo_host ''add'', sl_image = None,
                                sl_bind = STB_GLOBAL, sl_type = 0\<rparr>
                          else SymbolLookup_none)"
    by blast
  then show "findSymbol demo_host linker_two_weak ''add''
     = Some \<lparr>address = 0x7200001000, sl_image = Some demo_weak_image, sl_bind = STB_WEAK,
             sl_type = 0\<rparr>"
    by (simp add: hits_two_weak isWeak_def valid_def STB_WEAK_def)
next
  have ret: "\<forall>i\<in>set (loaded_images demo_linker). findSymbolAddress demo_host i ''malloc'' \<noteq> None"
    by (simp add: images_demo_linker demo_image_malloc)
  have ng: "\<forall>h\<in>set (symbol_hits demo_host ''malloc'' (loaded_images demo_linker)).
              sl_bind h \<noteq> STB_GLOBAL"
    by (simp add: hits_demo_malloc)
  have d: "dlsym demo_host ''malloc'' = 0x7300001000"
    by (simp add: demo_host_def)
  from findSymbol_resolution_order [where L = demo_linker and host = demo_host
      and name = "''malloc''"] ret ng
  have "findSymbol demo_host demo_linker ''malloc'' =
           Some (if symbol_hits demo_host ''malloc'' (loaded_images demo_linker) \<noteq> []
                    \<and> valid (last (symbol_hits demo_host ''malloc'' (loaded_images demo_linker)))
                    \<and> \<not> isWeak (last (symbol_hits demo_host ''malloc'' (loaded_images demo_linker)))
                 then last (symbol_hits demo_host ''malloc'' (loaded_images demo_linker))
                 else case find (\<lambda>h. isWeak h \<and> valid h)
                             (symbol_hits demo_host ''malloc'' (loaded_images demo_linker)) of
                        Some h \<Rightarrow> h
                      | None \<Rightarrow>
                          if dlsym demo_host ''malloc'' \<noteq> 0
                          then \<lparr>address = dlsym demo_host ''malloc'', sl_image = None,
                                sl_bind = STB_GLOBAL, sl_type = 0\<rparr>
                          else SymbolLookup_none)"
    by blast
  then show "findSymbol demo_host demo_linker ''malloc''
     = Some \<lparr>address = 0x7300001000, sl_image = None, sl_bind = STB_GLOBAL, sl_type = 0\<rparr>"
    by (simp add: hits_demo_malloc d)
qed

text \<open>
  Two images with a weak definition of \<^verbatim>\<open>add\<close>, then one whose tables hold \<^verbatim>\<open>add\<close> with
  binding \<^verbatim>\<open>STB_LOCAL\<close>. No image has a global definition, and the result is not the
  first weak definition: it is the local one of the image loaded last.
\<close>

theorem findSymbol_local_after_weak_counterexample:
  "loaded_images linker_weak_local = [demo_weak_image, demo_weak_image2, demo_local_image]
   \<and> findSymbolAddress demo_host demo_weak_image ''add'' = Some (Some (0x7200001000, STB_WEAK))
   \<and> findSymbolAddress demo_host demo_weak_image2 ''add'' = Some (Some (0x7300001000, STB_WEAK))
   \<and> findSymbolAddress demo_host demo_local_image ''add'' = Some (Some (0x7500001000, STB_LOCAL))
   \<and> findSymbol demo_host linker_weak_local ''add''
       = Some \<lparr>address = 0x7500001000, sl_image = Some demo_local_image, sl_bind = STB_LOCAL,
               sl_type = 0\<rparr>"
proof -
  have ret: "\<forall>i\<in>set (loaded_images linker_weak_local). findSymbolAddress demo_host i ''add'' \<noteq> None"
    by (simp add: images_weak_local demo_weak_image_add demo_weak_image2_add demo_local_image_add)
  have ng: "\<forall>h\<in>set (symbol_hits demo_host ''add'' (loaded_images linker_weak_local)).
              sl_bind h \<noteq> STB_GLOBAL"
    by (simp add: hits_weak_local STB_WEAK_def STB_GLOBAL_def STB_LOCAL_def)
  from findSymbol_without_global [OF ret ng]
  have "findSymbol demo_host linker_weak_local ''add''
       = Some \<lparr>address = 0x7500001000, sl_image = Some demo_local_image, sl_bind = STB_LOCAL,
               sl_type = 0\<rparr>"
    by (simp add: hits_weak_local isWeak_def valid_def STB_LOCAL_def)
  with images_weak_local demo_weak_image_add demo_weak_image2_add demo_local_image_add
  show ?thesis by (simp only: simp_thms)
qed

section \<open>Relocation and \<^verbatim>\<open>link\<close>\<close>

subsection \<open>When relocation returns\<close>

text \<open>
  A symbolic relocation looks its symbol up in every loaded image; it returns when
  these lookups do. Relocation changes the cache and the list of \<^verbatim>\<open>TlsIndex\<close> records
  of the linker, never the images it has loaded.
\<close>

lemma findSymbol_in_returns:
  "findSymbolAddress host img name \<noteq> None \<Longrightarrow> \<exists>r. findSymbol_in host name img st = Some r"
  by (cases st) (auto simp: findSymbol_in_def Let_def split: option.splits)

lemma findSymbol_deps_returns:
  "\<forall>img\<in>set (List.map_filter dep_image ds). lookups_return host img \<Longrightarrow>
   \<exists>r. findSymbol_deps host name ds st = Some r"
proof (induction ds arbitrary: st)
  case Nil
  show ?case by simp
next
  case (Cons dep ds)
  show ?case
  proof (cases "dep_image dep")
    case None
    with Cons show ?thesis by (simp add: List.map_filter_simps)
  next
    case (Some img)
    with Cons.prems have a: "lookups_return host img"
      and b: "\<forall>img\<in>set (List.map_filter dep_image ds). lookups_return host img"
      by (simp_all add: List.map_filter_simps)
    from a have "findSymbolAddress host img name \<noteq> None" by (simp add: lookups_return_def)
    from findSymbol_in_returns [OF this] obtain r where r: "findSymbol_in host name img st = Some r"
      by blast
    show ?thesis
    proof (cases r)
      case (Inl x)
      with r Some show ?thesis by simp
    next
      case (Inr st')
      with r Some Cons.IH [OF b, of st'] show ?thesis by simp
    qed
  qed
qed

lemma findSymbol_returns:
  assumes "\<forall>img\<in>set (loaded_images L). lookups_return host img"
  shows "\<exists>r. findSymbol host L name = Some r"
proof -
  from assms have d: "\<forall>img\<in>set (List.map_filter dep_image (deps L)). lookups_return host img"
    by (simp add: loaded_images_def)
  have m: "\<exists>r. (case main_image L of
              None \<Rightarrow> Some (Inr (SymbolLookup_none, SymbolLookup_none))
            | Some m \<Rightarrow> findSymbol_in host name m (SymbolLookup_none, SymbolLookup_none)) = Some r"
  proof (cases "main_image L")
    case None
    then show ?thesis by simp
  next
    case (Some m)
    with assms have "lookups_return host m" by (simp add: loaded_images_def)
    then have "findSymbolAddress host m name \<noteq> None" by (simp add: lookups_return_def)
    from findSymbol_in_returns [OF this] Some show ?thesis by simp
  qed
  then obtain r where r: "(case main_image L of
              None \<Rightarrow> Some (Inr (SymbolLookup_none, SymbolLookup_none))
            | Some m \<Rightarrow> findSymbol_in host name m (SymbolLookup_none, SymbolLookup_none)) = Some r" ..
  show ?thesis
  proof (cases r)
    case (Inl x)
    with r show ?thesis by (simp add: findSymbol_def)
  next
    case (Inr st)
    from findSymbol_deps_returns [OF d, of name st] obtain q where
      "findSymbol_deps host name (deps L) st = Some q" by blast
    with r Inr show ?thesis by (cases q) (simp_all add: findSymbol_def)
  qed
qed

text \<open>The lookup through the cache changes nothing of the linker but the cache.\<close>

lemma findSymbolCached_returns:
  assumes "\<forall>img\<in>set (loaded_images L). lookups_return host img"
  shows "\<exists>r c. findSymbolCached host L name = Some (r, L\<lparr>symbol_cache := c\<rparr>)"
proof (cases "symbol_cache L name")
  case None
  from findSymbol_returns [OF assms, of name] obtain r where "findSymbol host L name = Some r" ..
  with None show ?thesis by (auto simp: findSymbolCached_def)
next
  case (Some e)
  have "L = L\<lparr>symbol_cache := symbol_cache L\<rparr>" by simp
  with Some show ?thesis
    by (cases "found e") (auto simp: findSymbolCached_def intro: exI [of _ "symbol_cache L"])
qed

lemma loaded_images_cache [simp]: "loaded_images (L\<lparr>symbol_cache := c\<rparr>) = loaded_images L"
  by (simp add: loaded_images_def)

lemma loaded_images_tls_indices [simp]: "loaded_images (L\<lparr>tls_indices := c\<rparr>) = loaded_images L"
  by (simp add: loaded_images_def)

lemma apply_symbolic_images:
  "loaded_images (fst (apply_symbolic host (L, W) sy rtype target addend dsym is_rela)) = loaded_images L"
  by (simp add: apply_symbolic_def Let_def split: option.splits prod.splits)

lemma processRelocation_returns:
  assumes "\<forall>img\<in>set (loaded_images L). lookups_return host img"
  shows "\<exists>L' W'. processRelocation host (L, W) sym_idx rtype r_off addend load_bias dynsym dynstr is_rela
                   = Some (L', W') \<and> loaded_images L' = loaded_images L"
proof -
  let ?name = "cstr dynstr (unat (st_name (dynsym (unat sym_idx))))"
  from findSymbolCached_returns [OF assms, of ?name] obtain r c where
    c: "findSymbolCached host L ?name = Some (r, L\<lparr>symbol_cache := c\<rparr>)" by blast
  obtain L2 W2 where a: "apply_symbolic host (L\<lparr>symbol_cache := c\<rparr>, W) r rtype (load_bias + r_off) addend
             (dynsym (unat sym_idx)) is_rela = (L2, W2)" by fastforce
  from apply_symbolic_images [of host "L\<lparr>symbol_cache := c\<rparr>" W r rtype "load_bias + r_off" addend
      "dynsym (unat sym_idx)" is_rela] a
  have "loaded_images L2 = loaded_images L" by simp
  with c a show ?thesis
    by (simp add: processRelocation_def Let_def)
qed


lemma relocate_rela_returns:
  assumes "\<forall>img\<in>set (loaded_images L). lookups_return host img"
  shows "\<exists>L' W'. relocate_rela host load_bias dynsym dynstr rs (L, W) = Some (L', W')
                 \<and> loaded_images L' = loaded_images L"
  using assms
proof (induction rs arbitrary: L W)
  case Nil
  show ?case by simp
next
  case (Cons r rs)
  from processRelocation_returns [OF Cons.prems] obtain L1 W1 where
    p: "processRelocation host (L, W) (ELF_R_SYM (r_info r)) (ELF_R_TYPE (r_info r))
          (r_offset r) (r_addend r) load_bias dynsym dynstr True = Some (L1, W1)"
    and i: "loaded_images L1 = loaded_images L" by blast
  from Cons.prems i have "\<forall>img\<in>set (loaded_images L1). lookups_return host img" by simp
  from Cons.IH [OF this, of W1] p i show ?case by auto
qed

lemma relocate_rel_returns:
  assumes "\<forall>img\<in>set (loaded_images L). lookups_return host img"
  shows "\<exists>L' W'. relocate_rel host load_bias dynsym dynstr rs (L, W) = Some (L', W')
                 \<and> loaded_images L' = loaded_images L"
  using assms
proof (induction rs arbitrary: L W)
  case Nil
  show ?case by simp
next
  case (Cons r rs)
  from processRelocation_returns [OF Cons.prems] obtain L1 W1 where
    p: "processRelocation host (L, W) (ELF_R_SYM (r_info r)) (ELF_R_TYPE (r_info r))
          (r_offset r) 0 load_bias dynsym dynstr False = Some (L1, W1)"
    and i: "loaded_images L1 = loaded_images L" by blast
  from Cons.prems i have "\<forall>img\<in>set (loaded_images L1). lookups_return host img" by simp
  from Cons.IH [OF this, of W1] p i show ?case by auto
qed

lemma processRelocations_returns:
  assumes lr: "\<forall>img\<in>set (loaded_images L). lookups_return host img"
    and na: "no_android img"
  shows "\<exists>L' W'. processRelocations host img (L, W) = Some (L', W')
                 \<and> loaded_images L' = loaded_images L"
proof (cases "dynamic img")
  case None
  then show ?thesis by (simp add: processRelocations_def)
next
  case (Some d)
  with na have ad: "android_reloc d = None" by (simp add: no_android_def)
  show ?thesis
  proof (cases "(case android_relrent d of None \<Rightarrow> False | Some v \<Rightarrow> v \<noteq> 8)
                 \<or> dt_symtab d = None \<or> dt_strtab d = None")
    case True
    with Some show ?thesis by (auto simp: processRelocations_def)
  next
    case False
    then obtain sy str where ds: "dt_symtab d = Some sy" "dt_strtab d = Some str"
      and ar: "(case android_relrent d of None \<Rightarrow> False | Some v \<Rightarrow> v \<noteq> 8) = False"
      by auto
    let ?lb = "base img - bias img"
    let ?W1 = "W\<lparr>mem := process_relr ?lb (relr d) (relr_sz d) (mem W)\<rparr>"
    let ?A = "if rela d \<noteq> None \<and> rela_sz d \<noteq> 0
              then relocate_rela host ?lb sy str
                     (map (the (rela d))
                        [0..<unat (rela_sz d div (if rela_ent d = 0 then 24 else rela_ent d))])
                     (L, ?W1)
              else Some (L, ?W1)"
    from relocate_rela_returns [OF lr]
    have "\<exists>L2 W2. ?A = Some (L2, W2) \<and> loaded_images L2 = loaded_images L"
      by (simp del: not_None_eq)
    then obtain L2 W2 where a: "?A = Some (L2, W2)" and i2: "loaded_images L2 = loaded_images L"
      by blast
    from lr i2 have lr2: "\<forall>img\<in>set (loaded_images L2). lookups_return host img" by simp
    let ?B = "if rel d \<noteq> None \<and> rel_sz d \<noteq> 0
              then relocate_rel host ?lb sy str
                     (map (the (rel d))
                        [0..<unat (rel_sz d div (if rel_ent d = 0 then 16 else rel_ent d))])
                     (L2, W2)
              else Some (L2, W2)"
    from relocate_rel_returns [OF lr2]
    have "\<exists>L3 W3. ?B = Some (L3, W3) \<and> loaded_images L3 = loaded_images L2"
      by (simp del: not_None_eq)
    then obtain L3 W3 where b: "?B = Some (L3, W3)" and i3: "loaded_images L3 = loaded_images L2"
      by blast
    from lr2 i3 have lr3: "\<forall>img\<in>set (loaded_images L3). lookups_return host img" by simp
    have c: "relocate_android host ?lb sy str d (L3, W3) = Some (Inr (L3, W3))"
      using ad by (simp add: relocate_android_def)
    let ?P = "if jmprel d \<noteq> None \<and> jmprel_sz d \<noteq> 0
              then if pltrel_type d = DT_RELA
                   then relocate_rela host ?lb sy str
                          (map (fst (the (jmprel d))) [0..<unat (jmprel_sz d div 24)]) (L3, W3)
                   else relocate_rel host ?lb sy str
                          (map (snd (the (jmprel d))) [0..<unat (jmprel_sz d div 16)]) (L3, W3)
              else Some (L3, W3)"
    from relocate_rela_returns [OF lr3] relocate_rel_returns [OF lr3]
    have "\<exists>L4 W4. ?P = Some (L4, W4) \<and> loaded_images L4 = loaded_images L3"
      by (simp del: not_None_eq)
    then obtain L4 W4 where p: "?P = Some (L4, W4)" and i4: "loaded_images L4 = loaded_images L3"
      by blast
    have "processRelocations host img (L, W) = ?P"
      unfolding processRelocations_def Let_def Some ds option.case option.sel fst_conv snd_conv
      by (simp only: ar if_False option.distinct simp_thms a b c option.case sum.case)
    with p i4 i3 i2 show ?thesis by simp
  qed
qed

lemma relocate_deps_returns:
  assumes "\<forall>img\<in>set (loaded_images L). lookups_return host img"
    and "\<forall>dep\<in>set ds. is_manual_load dep \<longrightarrow> no_android (the (dep_image dep))"
  shows "\<exists>L' W'. relocate_deps host ds (L, W) = Some (L', W') \<and> loaded_images L' = loaded_images L"
  using assms
proof (induction ds arbitrary: L W)
  case Nil
  show ?case by simp
next
  case (Cons dep ds)
  show ?case
  proof (cases "is_manual_load dep")
    case False
    with Cons show ?thesis by simp
  next
    case True
    with Cons.prems(2) have "no_android (the (dep_image dep))" by simp
    from processRelocations_returns [OF Cons.prems(1) this] obtain L1 W1 where
      p: "processRelocations host (the (dep_image dep)) (L, W) = Some (L1, W1)"
      and i: "loaded_images L1 = loaded_images L" by blast
    from Cons.prems i have "\<forall>img\<in>set (loaded_images L1). lookups_return host img" by simp
    moreover from Cons.prems(2) have "\<forall>dep\<in>set ds. is_manual_load dep \<longrightarrow> no_android (the (dep_image dep))"
      by simp
    ultimately obtain L' W' where "relocate_deps host ds (L1, W1) = Some (L', W')
        \<and> loaded_images L' = loaded_images L1"
      using Cons.IH by blast
    with True p i show ?thesis by simp
  qed
qed


lemma gnuHashLookup_mod_id:
  "gnuHashLookup (img\<lparr>tls_mod_id := x\<rparr>) name h = gnuHashLookup img name h"
  unfolding gnuHashLookup_def Let_def by (simp cong: if_cong)

lemma elfHashLookup_mod_id:
  "elfHashLookup (img\<lparr>tls_mod_id := x\<rparr>) name h = elfHashLookup img name h"
  unfolding elfHashLookup_def by (simp cong: if_cong)

lemma linearLookup_mod_id:
  "linearLookup (img\<lparr>tls_mod_id := x\<rparr>) name = linearLookup img name"
  unfolding linearLookup_def by (simp cong: if_cong)

lemma findSymbolAddress_mod_id:
  "findSymbolAddress host (img\<lparr>tls_mod_id := x\<rparr>) name = findSymbolAddress host img name"
  unfolding findSymbolAddress_def findSymbolOffset_def gnuHashLookup_mod_id elfHashLookup_mod_id
    linearLookup_mod_id
  by (simp add: Let_def split: option.splits prod.splits)

lemma registerSegment_image:
  "\<exists>x. snd (snd (registerSegment m img)) = img\<lparr>tls_mod_id := x\<rparr>"
proof -
  have "snd (snd (registerSegment m img))
          = img\<lparr>tls_mod_id := tls_mod_id (snd (snd (registerSegment m img)))\<rparr>"
    by (simp add: registerSegment_def Let_def split: option.splits)
  then show ?thesis by (rule exI)
qed

lemma lookups_return_registered:
  "lookups_return host (snd (snd (registerSegment m img))) = lookups_return host img"
  using registerSegment_image [of m img]
  by (auto simp: lookups_return_def findSymbolAddress_mod_id)

lemma no_android_registered:
  "no_android (snd (snd (registerSegment m img))) = no_android img"
  using registerSegment_image [of m img]
  by (auto simp: no_android_def)

lemma register_deps_ready:
  "list_all (dep_ready host) ds \<Longrightarrow> list_all (dep_ready host) (snd (register_deps m ds))"
proof (induction ds arbitrary: m)
  case Nil
  show ?case by simp
next
  case (Cons dep ds)
  obtain ok m1 img1 where r: "registerSegment m (the (dep_image dep)) = (ok, m1, img1)"
    by (cases "registerSegment m (the (dep_image dep))") auto
  obtain m2 ds1 where d: "register_deps m1 ds = (m2, ds1)"
    by (cases "register_deps m1 ds") auto
  from Cons.prems obtain img where i: "dep_image dep = Some img"
    and l: "lookups_return host img" and n: "is_manual_load dep \<longrightarrow> no_android img"
    by (auto simp: dep_ready_def split: option.splits)
  from r i have i1: "img1 = snd (snd (registerSegment m img))" by simp
  have "dep_ready host (dep\<lparr>dep_image := Some img1\<rparr>)"
    using l n by (simp add: dep_ready_def i1 lookups_return_registered no_android_registered)
  moreover from Cons.IH [of m1] Cons.prems d have "list_all (dep_ready host) ds1" by simp
  ultimately show ?case using r d by simp
qed

lemma dep_ready_images:
  "list_all (dep_ready host) ds \<Longrightarrow> \<forall>img\<in>set (List.map_filter dep_image ds). lookups_return host img"
  by (induction ds) (auto simp: List.map_filter_simps dep_ready_def split: option.splits)

lemma dep_ready_android:
  "list_all (dep_ready host) ds
   \<Longrightarrow> \<forall>dep\<in>set ds. is_manual_load dep \<longrightarrow> no_android (the (dep_image dep))"
  by (induction ds) (auto simp: dep_ready_def split: option.splits)

lemma dep_ready_not_null:
  "list_all (dep_ready host) ds \<Longrightarrow> \<not> list_ex (\<lambda>dep. dep_image dep = None) ds"
  by (induction ds) (auto simp: dep_ready_def split: option.splits)

lemma link_returns:
  assumes "link_ready host L ds"
  shows "\<exists>L' W'. link host (True, ds) (L, W) = Some (True, L', W')"
proof -
  from assms obtain m where mi: "main_image L = Some m" and ml: "lookups_return host m"
    and ma: "no_android m" and dr: "list_all (dep_ready host) ds"
    by (auto simp: link_ready_def split: option.splits)
  obtain ok tls1 m1 where r: "registerSegment (tls W) m = (ok, tls1, m1)"
    by (cases "registerSegment (tls W) m") auto
  obtain tls2 deps1 where d: "register_deps tls1 ds = (tls2, deps1)"
    by (cases "register_deps tls1 ds") auto
  from r have m1: "m1 = snd (snd (registerSegment (tls W) m))" by simp
  from d have d1: "deps1 = snd (register_deps tls1 ds)" by simp
  have ml1: "lookups_return host m1" and ma1: "no_android m1"
    using ml ma by (simp_all add: m1 lookups_return_registered no_android_registered)
  have dr1: "list_all (dep_ready host) deps1"
    using dr by (simp add: d1 register_deps_ready)
  let ?L1 = "L\<lparr>deps := ds, main_image := Some m1, deps := deps1\<rparr>"
  let ?W1 = "W\<lparr>tls := bumpGeneration tls2\<rparr>"
  have lr: "\<forall>img\<in>set (loaded_images ?L1). lookups_return host img"
    using ml1 dep_ready_images [OF dr1] by (simp add: loaded_images_def)
  from processRelocations_returns [OF lr ma1, of ?W1] obtain L2 W2 where
    p: "processRelocations host m1 (?L1, ?W1) = Some (L2, W2)"
    and i2: "loaded_images L2 = loaded_images ?L1" by blast
  from lr i2 have lr2: "\<forall>img\<in>set (loaded_images L2). lookups_return host img" by simp
  from relocate_deps_returns [OF lr2 dep_ready_android [OF dr1], of W2] obtain L3 W3 where
    q: "relocate_deps host deps1 (L2, W2) = Some (L3, W3)" by blast
  show ?thesis
    using mi dep_ready_not_null [OF dr] r d p q
    by (simp add: link_def Let_def)
qed

subsection \<open>An unresolved symbol\<close>

text \<open>
  The symbolic relocation types are none of the four that are handled without a
  symbol. When no loaded image defines the name and \<^verbatim>\<open>dlsym\<close> gives null,
  \<^verbatim>\<open>findSymbol\<close> gives the invalid result, and \<^verbatim>\<open>findSymbolCached\<close> records it in the
  cache as not found.
\<close>

lemma symbolic_type_cases:
  "symbolic_type rtype \<Longrightarrow>
     rtype \<noteq> R_AARCH64_NONE \<and> rtype \<noteq> R_AARCH64_COPY \<and> rtype \<noteq> R_AARCH64_RELATIVE
     \<and> rtype \<noteq> R_AARCH64_IRELATIVE"
  by (auto simp: symbolic_type_def R_AARCH64_NONE_def R_AARCH64_COPY_def R_AARCH64_RELATIVE_def
      R_AARCH64_IRELATIVE_def R_AARCH64_GLOB_DAT_def R_AARCH64_ABS64_def R_AARCH64_JUMP_SLOT_def
      R_AARCH64_TLS_DTPMOD_def R_AARCH64_TLS_DTPREL_def R_AARCH64_TLS_TPREL_def
      R_AARCH64_TLSDESC_def)

lemma findSymbol_unresolved:
  assumes "\<forall>img\<in>set (loaded_images L). findSymbolAddress host img nm = Some None"
    and "dlsym host nm = 0"
  shows "findSymbol host L nm = Some SymbolLookup_none"
  using assms
  by (simp add: findSymbol_scan scan_all_miss findSymbol_rest_def valid_def SymbolLookup_none_def)

lemma findSymbolCached_unresolved:
  assumes "\<forall>img\<in>set (loaded_images L). findSymbolAddress host img nm = Some None"
    and "dlsym host nm = 0"
    and "\<forall>e. symbol_cache L nm = Some e \<longrightarrow> \<not> found e"
  shows "findSymbolCached host L nm
           = Some (SymbolLookup_none,
                   L\<lparr>symbol_cache :=
                        (case symbol_cache L nm of
                           None \<Rightarrow> (symbol_cache L)
                                      (nm \<mapsto> \<lparr>ce_address = 0, ce_image = None, found = False\<rparr>)
                         | Some e \<Rightarrow> symbol_cache L)\<rparr>)"
proof (cases "symbol_cache L nm")
  case None
  then show ?thesis
    using findSymbol_unresolved [OF assms(1,2)]
    by (simp add: findSymbolCached_def valid_def SymbolLookup_none_def)
next
  case (Some e)
  with assms(3) have "\<not> found e" by simp
  with Some show ?thesis by (simp add: findSymbolCached_def)
qed

lemma processRelocation_unresolved:
  assumes "symbolic_type rtype"
    and "\<forall>img\<in>set (loaded_images L).
           findSymbolAddress host img (cstr dynstr (unat (st_name (dynsym (unat sym_idx))))) = Some None"
    and "dlsym host (cstr dynstr (unat (st_name (dynsym (unat sym_idx))))) = 0"
    and "\<forall>e. symbol_cache L (cstr dynstr (unat (st_name (dynsym (unat sym_idx))))) = Some e
             \<longrightarrow> \<not> found e"
  shows "processRelocation host (L, W) sym_idx rtype r_off addend load_bias dynsym dynstr is_rela
           = Some (L\<lparr>symbol_cache :=
                        (case symbol_cache L (cstr dynstr (unat (st_name (dynsym (unat sym_idx))))) of
                           None \<Rightarrow> (symbol_cache L)
                                      (cstr dynstr (unat (st_name (dynsym (unat sym_idx))))
                                         \<mapsto> \<lparr>ce_address = 0, ce_image = None, found = False\<rparr>)
                         | Some e \<Rightarrow> symbol_cache L)\<rparr>, W)"
  using symbolic_type_cases [OF assms(1)] assms(1) findSymbolCached_unresolved [OF assms(2-4)]
  by (simp add: processRelocation_def Let_def valid_def SymbolLookup_none_def)

text \<open>
  A symbolic relocation (\<^verbatim>\<open>GLOB_DAT\<close>, \<^verbatim>\<open>ABS64\<close>, \<^verbatim>\<open>JUMP_SLOT\<close> or a TLS variant) whose
  symbol name \<open>nm\<close> no loaded image defines and for which \<^verbatim>\<open>dlsym\<close> gives null, when the
  cache holds no entry for the name that says it was found:
  \<^item> \<^verbatim>\<open>processRelocation\<close> returns with the world as it was: no word of memory is
    written, the one at \<open>load_bias + r_off\<close> included, and nothing else is done; of the
    linker only the cache changes, where the name is now recorded as not found;
  \<^item> the loop over a \<^verbatim>\<open>RELA\<close> table and the loop over a \<^verbatim>\<open>REL\<close> table go on with the
    entries that follow such an entry, from that state;
  \<^item> \<^verbatim>\<open>link\<close>, once \<^verbatim>\<open>loadDependencies\<close> has succeeded, returns \<^verbatim>\<open>true\<close>, whatever the
    relocations resolved to (it returns when the lookups do and no Android packed table
    is present, which is \<open>link_ready\<close>).
\<close>

lemma unresolved_symbol_skipped:
  assumes "symbolic_type rtype"
    and "nm = cstr dynstr (unat (st_name (dynsym (unat sym_idx))))"
    and "\<forall>img\<in>set (loaded_images L). findSymbolAddress host img nm = Some None"
    and "dlsym host nm = 0"
    and "\<forall>e. symbol_cache L nm = Some e \<longrightarrow> \<not> found e"
    and "L' = L\<lparr>symbol_cache :=
                   (case symbol_cache L nm of
                      None \<Rightarrow> (symbol_cache L)
                                 (nm \<mapsto> \<lparr>ce_address = 0, ce_image = None, found = False\<rparr>)
                    | Some e \<Rightarrow> symbol_cache L)\<rparr>"
  shows "processRelocation host (L, W) sym_idx rtype r_off addend load_bias dynsym dynstr is_rela
           = Some (L', W)
         \<and> (\<forall>r rs. ELF_R_SYM (r_info r) = sym_idx \<and> ELF_R_TYPE (r_info r) = rtype
              \<longrightarrow> relocate_rela host load_bias dynsym dynstr (r # rs) (L, W)
                    = relocate_rela host load_bias dynsym dynstr rs (L', W))
         \<and> (\<forall>r rs. ELF_R_SYM (r_info r) = sym_idx \<and> ELF_R_TYPE (r_info r) = rtype
              \<longrightarrow> relocate_rel host load_bias dynsym dynstr (r # rs) (L, W)
                    = relocate_rel host load_bias dynsym dynstr rs (L', W))
         \<and> (link_ready host L0 ds
              \<longrightarrow> (\<exists>L1 W1. link host (True, ds) (L0, W0) = Some (True, L1, W1)))"
proof -
  have p: "processRelocation host (L, W) sym_idx rtype o1 a1 load_bias dynsym dynstr r1
             = Some (L', W)" for o1 a1 r1
    unfolding assms(6) assms(2)
    by (rule processRelocation_unresolved
          [of rtype L host dynstr dynsym sym_idx, OF assms(1) assms(3-5) [unfolded assms(2)]])
  have "\<forall>r rs. ELF_R_SYM (r_info r) = sym_idx \<and> ELF_R_TYPE (r_info r) = rtype
              \<longrightarrow> relocate_rela host load_bias dynsym dynstr (r # rs) (L, W)
                    = relocate_rela host load_bias dynsym dynstr rs (L', W)"
    by (simp add: p)
  moreover
  have "\<forall>r rs. ELF_R_SYM (r_info r) = sym_idx \<and> ELF_R_TYPE (r_info r) = rtype
              \<longrightarrow> relocate_rel host load_bias dynsym dynstr (r # rs) (L, W)
                    = relocate_rel host load_bias dynsym dynstr rs (L', W)"
    by (simp add: p)
  moreover
  have "link_ready host L0 ds
              \<longrightarrow> (\<exists>L1 W1. link host (True, ds) (L0, W0) = Some (True, L1, W1))"
    using link_returns by blast
  ultimately show ?thesis using p by blast
qed

text \<open>
  The small object: every lookup in it returns (its ELF hash chain is \<open>4, 3, 0\<close>), it
  has no Android packed table, and its first relocation is a \<^verbatim>\<open>GLOB_DAT\<close> against
  \<^verbatim>\<open>missing_fn\<close>, which nothing defines. After \<^verbatim>\<open>link\<close> the word of that relocation is
  as it was, the \<^verbatim>\<open>RELATIVE\<close> entry after it and the \<^verbatim>\<open>JUMP_SLOT\<close> of the PLT have been
  applied, and \<^verbatim>\<open>link\<close> has returned \<^verbatim>\<open>true\<close>.
\<close>

lemma demo_chain_returns:
  "elf_chain_walk (table_of [0, 0, 0, 0, 3] 0) dsy str name 4 \<noteq> None"
  by (simp add: elf_chain_walk.simps [of _ _ _ _ 4] elf_chain_walk.simps [of _ _ _ _ 3]
      elf_chain_walk.simps [of _ _ _ _ 0] table_of_def STN_UNDEF_def)

lemma demo_elf_returns: "elfHashLookup demo_image name h \<noteq> None"
  using demo_chain_returns
  by (simp add: elfHashLookup_def demo_image_def table_of_def)

lemma demo_lookups_return: "lookups_return demo_host demo_image"
  unfolding lookups_return_def
proof
  fix name
  from demo_elf_returns [of name "elfHash name"]
  show "findSymbolAddress demo_host demo_image name \<noteq> None"
    by (auto simp: findSymbolAddress_def findSymbolOffset_def Let_def split: option.splits)
qed

lemma demo_no_android: "no_android demo_image"
  by (simp add: no_android_def demo_image_def demo_dynamic_def)

lemma demo_link_ready: "link_ready demo_host demo_linker []"
  by (simp add: link_ready_def demo_linker_def demo_lookups_return demo_no_android)

lemma demo_missing_name:
  "cstr demo_strtab (unat (st_name (table_of demo_syms null_sym (unat (1 :: u32))))) = ''missing_fn''"
  by code_simp

lemma demo_image_missing_fn: "findSymbolAddress demo_host demo_image ''missing_fn'' = Some None"
  by code_simp

lemma demo_link_memory:
  "map_option (\<lambda>(ok, L1, W1). (ok, load64 (mem W1) 0x7000004000, load64 (mem W1) 0x7000004008,
                                load64 (mem W1) 0x7000004010))
     (link demo_host (True, []) (demo_linker, demo_world))
   = Some (True, 0, 0x7000001000, 0x7300001000)"
  by code_simp


lemma unresolved_symbol_skipped_demo:
  "processRelocation demo_host (demo_linker, demo_world) 1 R_AARCH64_GLOB_DAT 0x4000 0
       0x7000000000 (table_of demo_syms null_sym) demo_strtab True
     = Some (demo_linker\<lparr>symbol_cache :=
                            [''missing_fn'' \<mapsto> \<lparr>ce_address = 0, ce_image = None, found = False\<rparr>]\<rparr>,
             demo_world)
   \<and> relocate_rela demo_host 0x7000000000 (table_of demo_syms null_sym) demo_strtab
         [\<lparr>r_offset = 0x4000, r_info = 0x100000401, r_addend = 0\<rparr>,
          \<lparr>r_offset = 0x4008, r_info = 0x403, r_addend = 0x1000\<rparr>]
         (demo_linker, demo_world)
       = relocate_rela demo_host 0x7000000000 (table_of demo_syms null_sym) demo_strtab
           [\<lparr>r_offset = 0x4008, r_info = 0x403, r_addend = 0x1000\<rparr>]
           (demo_linker\<lparr>symbol_cache :=
                            [''missing_fn'' \<mapsto> \<lparr>ce_address = 0, ce_image = None, found = False\<rparr>]\<rparr>,
            demo_world)
   \<and> (\<exists>L1 W1. link demo_host (True, []) (demo_linker, demo_world) = Some (True, L1, W1))"
proof -
  let ?L' = "demo_linker\<lparr>symbol_cache :=
                            [''missing_fn'' \<mapsto> \<lparr>ce_address = 0, ce_image = None, found = False\<rparr>]\<rparr>"
  have ty: "symbolic_type R_AARCH64_GLOB_DAT" by (simp add: symbolic_type_def)
  have miss: "\<forall>img\<in>set (loaded_images demo_linker).
                findSymbolAddress demo_host img ''missing_fn'' = Some None"
    by (simp add: images_demo_linker demo_image_missing_fn)
  have dl: "dlsym demo_host ''missing_fn'' = 0" by (simp add: demo_host_def)
  have cache: "\<forall>e. symbol_cache demo_linker ''missing_fn'' = Some e \<longrightarrow> \<not> found e"
    by (simp add: demo_linker_def)
  have upd: "?L' = demo_linker\<lparr>symbol_cache :=
                   (case symbol_cache demo_linker ''missing_fn'' of
                      None \<Rightarrow> (symbol_cache demo_linker)
                                 (''missing_fn'' \<mapsto> \<lparr>ce_address = 0, ce_image = None, found = False\<rparr>)
                    | Some e \<Rightarrow> symbol_cache demo_linker)\<rparr>"
    by (simp add: demo_linker_def)
  have sy: "ELF_R_SYM (r_info \<lparr>r_offset = 0x4000, r_info = 0x100000401, r_addend = 0\<rparr>) = 1"
    and rt: "ELF_R_TYPE (r_info \<lparr>r_offset = 0x4000, r_info = 0x100000401, r_addend = 0\<rparr>)
               = R_AARCH64_GLOB_DAT"
    by (simp_all add: ELF_R_SYM_def ELF_R_TYPE_def R_AARCH64_GLOB_DAT_def)
  note th = unresolved_symbol_skipped [where rtype = R_AARCH64_GLOB_DAT and nm = "''missing_fn''"
      and dynstr = demo_strtab and dynsym = "table_of demo_syms null_sym" and sym_idx = 1
      and L = demo_linker and host = demo_host and L' = ?L' and W = demo_world
      and r_off = "0x4000" and addend = 0 and load_bias = "0x7000000000" and is_rela = True
      and ?L0.0 = demo_linker and ds = "[]" and ?W0.0 = demo_world,
      OF ty demo_missing_name [symmetric] miss dl cache upd]
  from th have "processRelocation demo_host (demo_linker, demo_world) 1 R_AARCH64_GLOB_DAT 0x4000 0
       0x7000000000 (table_of demo_syms null_sym) demo_strtab True = Some (?L', demo_world)"
    by blast
  moreover
  from th sy rt have "relocate_rela demo_host 0x7000000000 (table_of demo_syms null_sym) demo_strtab
         [\<lparr>r_offset = 0x4000, r_info = 0x100000401, r_addend = 0\<rparr>,
          \<lparr>r_offset = 0x4008, r_info = 0x403, r_addend = 0x1000\<rparr>]
         (demo_linker, demo_world)
       = relocate_rela demo_host 0x7000000000 (table_of demo_syms null_sym) demo_strtab
           [\<lparr>r_offset = 0x4008, r_info = 0x403, r_addend = 0x1000\<rparr>] (?L', demo_world)"
    by blast
  moreover
  from th demo_link_ready
  have "\<exists>L1 W1. link demo_host (True, []) (demo_linker, demo_world) = Some (True, L1, W1)"
    by blast
  ultimately show ?thesis by blast
qed

subsection \<open>A name that an earlier link has found\<close>

text \<open>
  \<^verbatim>\<open>processRelocation\<close> asks the cache first, and the cache outlives \<^verbatim>\<open>destroy\<close>,
  \<^verbatim>\<open>abandon\<close> and \<^verbatim>\<open>init\<close>. With an entry that says the name was found, the relocation is
  applied with the address of the entry, whatever the loaded images and \<^verbatim>\<open>dlsym\<close> hold
  now.
\<close>

lemma findSymbolCached_stale:
  "symbol_cache L nm = Some e \<Longrightarrow> found e \<Longrightarrow>
   findSymbolCached host L nm
     = Some (\<lparr>address = ce_address e, sl_image = ce_image e, sl_bind = 0, sl_type = 0\<rparr>, L)"
  by (simp add: findSymbolCached_def)

lemma demo_provider_missing_fn:
  "findSymbolAddress demo_host demo_provider_image ''missing_fn''
     = Some (Some (0x7100002000, STB_GLOBAL))"
  by code_simp

lemma demo_host_missing_fn: "dlsym demo_host ''missing_fn'' = 0"
  by (simp add: demo_host_def)

text \<open>
  \<^bold>\<open>C5\<close> on a linker that is used a second time. One \<^verbatim>\<open>SoLoader\<close> loads \<^verbatim>\<open>libfirst.so\<close>
  while the host has \<^verbatim>\<open>libprovider.so\<close> loaded, which defines \<^verbatim>\<open>missing_fn\<close>; the
  relocation of \<^verbatim>\<open>libfirst.so\<close> against \<^verbatim>\<open>missing_fn\<close> is bound to \<open>0x7100002000\<close>. It
  unloads the library (\<^verbatim>\<open>destroy\<close>) and loads the small object, which has no
  dependencies. Now no loaded image defines \<^verbatim>\<open>missing_fn\<close> and \<^verbatim>\<open>dlsym\<close> does not know it,
  so the relocation against it is to be skipped and its word at \<open>0x7000004000\<close> left as it
  is, \<open>0\<close>. It is not: \<^verbatim>\<open>link\<close> writes \<open>0x7100002000\<close> there, the address the cache has
  kept from the first link. On a new linker the same \<^verbatim>\<open>link\<close> leaves the word \<open>0\<close>. In
  both cases the entries after it are processed and \<^verbatim>\<open>link\<close> returns \<^verbatim>\<open>true\<close>.
\<close>

theorem stale_cache_binds_unresolved_symbol:
  "findSymbolAddress demo_host demo_image ''missing_fn'' = Some None
   \<and> dlsym demo_host ''missing_fn'' = 0
   \<and> map_option (\<lambda>(ok, L1, W1). (ok, load64 (mem W1) 0x7000004000, load64 (mem W1) 0x7000004008))
         (link demo_host (True, [])
            (setMainMapSize 0x5000 (init demo_image new_linker), demo_world))
       = Some (True, 0, 0x7000001000)
   \<and> (case link demo_host (True, [demo_provider_dep])
              (setMainMapSize 0x5000 (init demo_first_image new_linker), demo_world) of
         None \<Rightarrow> False
       | Some (ok1, st1) \<Rightarrow>
           ok1
           \<and> load64 (mem (snd st1)) 0x6F00004000 = 0x7100002000
           \<and> map_option (\<lambda>e. (ce_address e, found e)) (symbol_cache (fst (destroy st1)) ''missing_fn'')
               = Some (0x7100002000, True)
           \<and> length (deps (setMainMapSize 0x5000 (init demo_image (fst (destroy st1))))) = 0
           \<and> load64 (mem (snd (destroy st1))) 0x7000004000 = 0
           \<and> (case link demo_host (True, [])
                      (setMainMapSize 0x5000 (init demo_image (fst (destroy st1))),
                       snd (destroy st1)) of
                 None \<Rightarrow> False
               | Some (ok2, L4, W4) \<Rightarrow>
                   ok2 \<and> load64 (mem W4) 0x7000004000 = 0x7100002000
                   \<and> load64 (mem W4) 0x7000004008 = 0x7000001000))"
  by code_simp

end
